(* ===== verification/Prelude.thy ===== *)
theory Prelude
  imports Main "HOL-Library.Word" "HOL-Library.Multiset" "HOL-Library.List_Lexorder" "HOL-Library.Char_ord"
begin

text \<open>
  What the components share: the names of the model's basic types, the results of fallible Go
  functions, Go's signed integers, the string functions of package \<^verbatim>\<open>strings\<close> on
  ASCII names, and stable sorting by a comparison function with the contract that the callers
  of package \<^verbatim>\<open>sort\<close> rely on.
\<close>

named_theorems go_simps \<comment> \<open>unfolding of the helpers of this theory\<close>

subsection \<open>Names for the model's basic types\<close>

text \<open>
  A \<^verbatim>\<open>uuid.UUID\<close> is a 128-bit value compared for equality; a \<^verbatim>\<open>time.Time\<close> is
  a number of nanoseconds (all stored times are in UTC), and so is a \<^verbatim>\<open>time.Duration\<close>.
  A nil pointer is \<open>None\<close>.
\<close>

type_synonym uuid = nat
type_synonym gotime = int
type_synonym duration = int
type_synonym byte = "8 word"

subsection \<open>Results of fallible functions\<close>

text \<open>\<open>Inl\<close> is the error return, \<open>Inr\<close> the value; \<open>and_then\<close> is \<^verbatim>\<open>if err != nil { return err }\<close>.\<close>

fun and_then :: "'e + 'a \<Rightarrow> ('a \<Rightarrow> 'e + 'b) \<Rightarrow> 'e + 'b" where
  "and_then (Inl e) f = Inl e"
| "and_then (Inr x) f = f x"

lemma and_then_Inr_iff: "and_then r f = Inr y \<longleftrightarrow> (\<exists>x. r = Inr x \<and> f x = Inr y)"
  by (cases r) auto

lemma and_then_Inl_iff: "and_then r f = Inl e \<longleftrightarrow> r = Inl e \<or> (\<exists>x. r = Inr x \<and> f x = Inl e)"
  by (cases r) auto

fun map_err :: "('e \<Rightarrow> 'f) \<Rightarrow> 'e + 'a \<Rightarrow> 'f + 'a" where
  "map_err g (Inl e) = Inl (g e)"
| "map_err g (Inr x) = Inr x"

lemma map_err_Inr_iff [simp]: "map_err g r = Inr x \<longleftrightarrow> r = Inr x"
  by (cases r) auto

lemma map_err_Inl_iff: "map_err g r = Inl f \<longleftrightarrow> (\<exists>e. r = Inl e \<and> f = g e)"
  by (cases r) auto

text \<open>A loop that applies a fallible step to every element and stops at the first error.\<close>

fun map_res :: "('a \<Rightarrow> 'e + 'b) \<Rightarrow> 'a list \<Rightarrow> 'e + 'b list" where
  "map_res f [] = Inr []"
| "map_res f (x # xs) = and_then (f x) (\<lambda>y. and_then (map_res f xs) (\<lambda>ys. Inr (y # ys)))"

lemma map_res_Inr: "map_res f xs = Inr ys \<longleftrightarrow> list_all2 (\<lambda>x y. f x = Inr y) xs ys"
proof (induction xs arbitrary: ys)
  case (Cons x xs)
  then show ?case by (cases ys) (auto simp: and_then_Inr_iff)
qed auto

lemma map_res_Inl: "map_res f xs = Inl e \<Longrightarrow> \<exists>x\<in>set xs. f x = Inl e"
  by (induction xs) (auto simp: and_then_Inl_iff)

subsection \<open>Signed integers\<close>

text \<open>The value a 32-bit and a 64-bit signed register hold after an operation.\<close>

definition wrap32 :: "int \<Rightarrow> int" where
  "wrap32 x = (x + 2 ^ 31) mod 2 ^ 32 - 2 ^ 31"

definition wrap64 :: "int \<Rightarrow> int" where
  "wrap64 x = (x + 2 ^ 63) mod 2 ^ 64 - 2 ^ 63"

definition int32_range :: "int \<Rightarrow> bool" where
  "int32_range x \<longleftrightarrow> - (2 ^ 31) \<le> x \<and> x < 2 ^ 31"

definition int64_range :: "int \<Rightarrow> bool" where
  "int64_range x \<longleftrightarrow> - (2 ^ 63) \<le> x \<and> x < 2 ^ 63"

lemma wrap32_id [simp]: "int32_range x \<Longrightarrow> wrap32 x = x"
  by (simp add: wrap32_def int32_range_def)

lemma wrap64_id [simp]: "int64_range x \<Longrightarrow> wrap64 x = x"
  by (simp add: wrap64_def int64_range_def)

lemma wrap32_range: "int32_range (wrap32 x)"
  by (simp add: wrap32_def int32_range_def)

lemma wrap64_range: "int64_range (wrap64 x)"
  by (simp add: wrap64_def int64_range_def)

subsection \<open>Big-endian bytes\<close>

text \<open>The \<open>n\<close> bytes of a number, most significant first, and the number they spell.\<close>

definition be_bytes :: "nat \<Rightarrow> nat \<Rightarrow> byte list" where
  "be_bytes n v = map (\<lambda>j. word_of_nat (v div 256 ^ (n - 1 - j))) [0..<n]"

definition be_value :: "byte list \<Rightarrow> nat" where
  "be_value bs = foldl (\<lambda>v b. 256 * v + unat b) 0 bs"

lemma length_be_bytes [simp]: "length (be_bytes n v) = n"
  by (simp add: be_bytes_def)

lemma be_bytes_Suc: "be_bytes (Suc n) v = be_bytes n (v div 256) @ [word_of_nat v]"
proof -
  have "v div 256 ^ (n - j) = v div 256 div 256 ^ (n - 1 - j)" if "j < n" for j
  proof -
    have "n - j = Suc (n - 1 - j)" using that by simp
    then show ?thesis by (simp add: div_mult2_eq)
  qed
  then show ?thesis by (simp add: be_bytes_def)
qed

lemma be_value_be_bytes: "be_value (be_bytes n v) = v mod 256 ^ n"
proof (induction n arbitrary: v)
  case (Suc n)
  have "be_value (be_bytes (Suc n) v) = 256 * (v div 256 mod 256 ^ n) + v mod 256"
    using Suc [of "v div 256"] by (simp add: be_bytes_Suc be_value_def unat_of_nat)
  also have "\<dots> = v mod (256 * 256 ^ n)" by (simp add: mod_mult2_eq)
  finally show ?case by simp
qed (simp add: be_bytes_def be_value_def)

subsection \<open>Strings\<close>

text \<open>
  \<^verbatim>\<open>strings.ToLower\<close> and \<^verbatim>\<open>strings.EqualFold\<close> on ASCII strings; every name the
  modelled code compares this way is a DNS label.
\<close>

definition lower_char :: "char \<Rightarrow> char" where
  "lower_char c = (if CHR ''A'' \<le> c \<and> c \<le> CHR ''Z'' then char_of (of_char c + (32 :: nat)) else c)"

definition to_lower :: "string \<Rightarrow> string" where
  "to_lower s = map lower_char s"

definition equal_fold :: "string \<Rightarrow> string \<Rightarrow> bool" where
  "equal_fold s t \<longleftrightarrow> to_lower s = to_lower t"

subsection \<open>Sorting by a comparison function\<close>

fun insert_by :: "('a \<Rightarrow> 'a \<Rightarrow> bool) \<Rightarrow> 'a \<Rightarrow> 'a list \<Rightarrow> 'a list" where
  "insert_by lt x [] = [x]"
| "insert_by lt x (y # ys) = (if lt y x then y # insert_by lt x ys else x # y # ys)"

text \<open>
  \<^verbatim>\<open>sort.SliceStable\<close>: for a comparison that is a strict weak order the result of a
  stable sort is unique, so the model may use insertion sort.
\<close>

fun sort_stable :: "('a \<Rightarrow> 'a \<Rightarrow> bool) \<Rightarrow> 'a list \<Rightarrow> 'a list" where
  "sort_stable lt [] = []"
| "sort_stable lt (x # xs) = insert_by lt x (sort_stable lt xs)"

lemma mset_insert_by [simp]: "mset (insert_by lt x ys) = add_mset x (mset ys)"
  by (induction ys) auto

lemma mset_sort_stable [simp]: "mset (sort_stable lt xs) = mset xs"
  by (induction xs) auto

lemma set_sort_stable [simp]: "set (sort_stable lt xs) = set xs"
  by (metis mset_sort_stable set_mset_mset)

lemma length_sort_stable [simp]: "length (sort_stable lt xs) = length xs"
  by (metis mset_sort_stable size_mset)

lemma sort_stable_Nil_iff [simp]: "sort_stable lt xs = [] \<longleftrightarrow> xs = []"
  by (metis length_0_conv length_sort_stable)

lemma distinct_sort_stable [simp]: "distinct (sort_stable lt xs) = distinct xs"
  by (metis mset_eq_imp_distinct_iff mset_sort_stable)

text \<open>The contract of a comparison function on the elements that are sorted.\<close>

locale strict_weak_order =
  fixes lt :: "'a \<Rightarrow> 'a \<Rightarrow> bool"
    and carrier :: "'a set"
  assumes less_irrefl: "x \<in> carrier \<Longrightarrow> \<not> lt x x"
    and less_trans: "x \<in> carrier \<Longrightarrow> y \<in> carrier \<Longrightarrow> z \<in> carrier \<Longrightarrow>
      lt x y \<Longrightarrow> lt y z \<Longrightarrow> lt x z"
    and less_cotrans: "x \<in> carrier \<Longrightarrow> y \<in> carrier \<Longrightarrow> z \<in> carrier \<Longrightarrow>
      lt x z \<Longrightarrow> lt x y \<or> lt y z"
begin

lemma not_less_trans:
  "x \<in> carrier \<Longrightarrow> y \<in> carrier \<Longrightarrow> z \<in> carrier \<Longrightarrow>
    \<not> lt y x \<Longrightarrow> \<not> lt z y \<Longrightarrow> \<not> lt z x"
  using less_cotrans by blast

lemma less_asym: "x \<in> carrier \<Longrightarrow> y \<in> carrier \<Longrightarrow> lt x y \<Longrightarrow> \<not> lt y x"
  using less_irrefl less_trans by blast

lemma sorted_insert_by:
  assumes "x \<in> carrier" "set ys \<subseteq> carrier" "sorted_wrt (\<lambda>a b. \<not> lt b a) ys"
  shows "sorted_wrt (\<lambda>a b. \<not> lt b a) (insert_by lt x ys)"
  using assms(2,3)
proof (induction ys)
  case Nil
  then show ?case by simp
next
  case (Cons y ys)
  have set_ins: "set (insert_by lt x zs) = insert x (set zs)" for zs
    by (metis mset_insert_by set_mset_add_mset_insert set_mset_mset)
  show ?case
  proof (cases "lt y x")
    case True
    with Cons show ?thesis
      using assms(1) less_asym [of y x] by (auto simp: set_ins)
  next
    case False
    have "\<not> lt z x" if "z \<in> set ys" for z
      using not_less_trans [of x y z] False that Cons.prems assms(1) by auto
    with False Cons.prems show ?thesis by auto
  qed
qed

lemma sorted_sort_stable:
  "set xs \<subseteq> carrier \<Longrightarrow> sorted_wrt (\<lambda>a b. \<not> lt b a) (sort_stable lt xs)"
  by (induction xs) (auto intro!: sorted_insert_by)

text \<open>The first element of the sorted slice is a minimum.\<close>

lemma hd_sort_stable_min:
  assumes "set xs \<subseteq> carrier" "y \<in> set xs"
  shows "\<not> lt y (hd (sort_stable lt xs))"
proof (cases "sort_stable lt xs")
  case Nil
  with assms(2) show ?thesis by (metis empty_iff empty_set set_sort_stable)
next
  case (Cons z zs)
  with assms have "y \<in> set (z # zs)" by (metis set_sort_stable)
  with sorted_sort_stable [OF assms(1)] Cons assms show ?thesis
    using less_irrefl by auto
qed

end

text \<open>A comparison that is total on distinct elements makes the result independent of the input order.\<close>

locale strict_total_order = strict_weak_order +
  assumes less_total: "x \<in> carrier \<Longrightarrow> y \<in> carrier \<Longrightarrow> x \<noteq> y \<Longrightarrow> lt x y \<or> lt y x"
begin

lemma sorted_unique:
  assumes "mset xs = mset ys" "set xs \<subseteq> carrier"
    and "sorted_wrt (\<lambda>a b. \<not> lt b a) xs" "sorted_wrt (\<lambda>a b. \<not> lt b a) ys"
  shows "xs = ys"
  using assms
proof (induction xs arbitrary: ys)
  case Nil
  then show ?case by simp
next
  case (Cons x xs)
  then obtain z zs where ys: "ys = z # zs" by (cases ys) auto
  have mem: "x \<in> set ys" "z \<in> set (x # xs)"
    using Cons.prems(1) ys by (metis list.set_intros(1) set_mset_mset)+
  have "set ys \<subseteq> carrier" using Cons.prems(1,2) by (metis set_mset_mset)
  then have "x = z"
    using mem Cons.prems ys less_total [of x z] by auto
  with Cons ys show ?case by auto
qed

lemma sort_stable_perm:
  assumes "mset xs = mset ys" "set xs \<subseteq> carrier"
  shows "sort_stable lt xs = sort_stable lt ys"
proof (rule sorted_unique)
  have "set ys \<subseteq> carrier" using assms by (metis set_mset_mset)
  then show "sorted_wrt (\<lambda>a b. \<not> lt b a) (sort_stable lt ys)" by (rule sorted_sort_stable)
qed (use assms sorted_sort_stable in auto)

lemma sort_stable_filter:
  assumes "set xs \<subseteq> carrier"
  shows "sort_stable lt (filter P xs) = filter P (sort_stable lt xs)"
proof (rule sorted_unique)
  show "sorted_wrt (\<lambda>a b. \<not> lt b a) (filter P (sort_stable lt xs))"
    by (rule sorted_wrt_filter [OF sorted_sort_stable [OF assms]])
qed (use assms sorted_sort_stable [of "filter P xs"] in auto)

lemma sort_stable_strict:
  assumes "set xs \<subseteq> carrier" "distinct xs"
  shows "sorted_wrt lt (sort_stable lt xs)"
proof -
  have "sorted_wrt (\<lambda>a b. \<not> lt b a) ys \<Longrightarrow> distinct ys \<Longrightarrow> set ys \<subseteq> carrier \<Longrightarrow> sorted_wrt lt ys" for ys
    by (induction ys) (auto, metis less_total subsetD)
  with sorted_sort_stable [OF assms(1)] assms show ?thesis by simp
qed

lemma filter_after:
  assumes "sorted_wrt lt ys" "set ys \<subseteq> carrier" "m < length ys"
  shows "filter (lt (ys ! m)) ys = drop (Suc m) ys"
proof -
  have "ys = take m ys @ ys ! m # drop (Suc m) ys" using assms(3) by (rule id_take_nth_drop)
  moreover from this assms(1) have s: "sorted_wrt lt (take m ys @ ys ! m # drop (Suc m) ys)" by simp
  have "filter (lt (ys ! m)) (take m ys) = []"
    using s assms(2) nth_mem [OF assms(3)]
    by (simp add: filter_empty_conv sorted_wrt_append) (meson in_set_takeD less_asym subsetD)
  moreover have "filter (lt (ys ! m)) (drop (Suc m) ys) = drop (Suc m) ys"
    using s by (auto simp: filter_id_conv sorted_wrt_append)
  moreover have "\<not> lt (ys ! m) (ys ! m)" using less_irrefl assms(2,3) nth_mem by blast
  ultimately show ?thesis by (metis append_Nil filter.simps(2) filter_append)
qed

end

subsection \<open>Lists\<close>

lemma length_filter_card:
  "distinct xs \<Longrightarrow> length (filter P xs) = card {x \<in> set xs. P x}"
  by (metis distinct_card distinct_filter set_filter)

end
