(* ===== verification/Float64.thy ===== *)
theory Float64
  imports Complex_Main
begin

text \<open>
  Go's \<^verbatim>\<open>float64\<close>: IEEE 754 binary64 with round-to-nearest, ties-to-even.
  A finite value is kept as the rational number it denotes, so the sign of a zero is not
  represented (the modelled code never divides by a zero). The rounding function is
  executable, and this theory shows the facts the placement scheduler rests on: rounding is
  monotone, it is the identity on every integer up to \<open>2 ^ 53\<close> in absolute value, and
  it commutes with negation.
\<close>

named_theorems f64_simps \<comment> \<open>evaluation of the float64 operations on finite values\<close>

subsection \<open>Powers of two with an integer exponent\<close>

definition pow2 :: "int \<Rightarrow> rat" where
  "pow2 e = (if 0 \<le> e then 2 ^ nat e else 1 / 2 ^ nat (- e))"

lemma pow2_pos [simp]: "0 < pow2 e"
  by (simp add: pow2_def)

lemma pow2_nonneg [simp]: "0 \<le> pow2 e"
  using pow2_pos [of e] by linarith

lemma pow2_neq_0 [simp]: "pow2 e \<noteq> 0"
  using pow2_pos [of e] by linarith

lemma pow2_0 [simp]: "pow2 0 = 1"
  by (simp add: pow2_def)

lemma pow2_nat [simp]: "pow2 (int n) = 2 ^ n"
  by (simp add: pow2_def)

lemma pow2_Suc: "pow2 (e + 1) = 2 * pow2 e"
proof (cases "0 \<le> e")
  case True
  then have "nat (e + 1) = Suc (nat e)" by simp
  with True show ?thesis by (simp add: pow2_def)
next
  case False
  then have "nat (- e) = Suc (nat (- (e + 1)))" by simp
  moreover have "e + 1 = 0 \<or> e + 1 < 0" using False by arith
  ultimately show ?thesis using False by (auto simp: pow2_def)
qed

lemma pow2_add_nat: "pow2 (e + int n) = pow2 e * 2 ^ n"
proof (induction n)
  case (Suc n)
  have "e + int (Suc n) = (e + int n) + 1" by simp
  then show ?case by (simp only: pow2_Suc Suc.IH) simp
qed simp

lemma pow2_le_iff: "pow2 a \<le> pow2 b \<longleftrightarrow> a \<le> b"
proof -
  have le: "pow2 a \<le> pow2 b" if "a \<le> b" for a b
  proof -
    have "pow2 b = pow2 a * 2 ^ nat (b - a)"
      using pow2_add_nat [of a "nat (b - a)"] that by simp
    moreover have "(1::rat) \<le> 2 ^ nat (b - a)" by simp
    ultimately show ?thesis
      using mult_left_mono [of 1 "2 ^ nat (b - a)" "pow2 a"] by simp
  qed
  have "pow2 (b + 1) \<le> pow2 a" if "b < a" using that by (intro le) simp
  then have "pow2 b < pow2 a" if "b < a"
    using that pow2_Suc [of b] pow2_pos [of b] by linarith
  then show ?thesis using le [of a b] by (meson not_le)
qed

lemma pow2_diff: "a \<le> b \<Longrightarrow> pow2 b = 2 ^ nat (b - a) * pow2 a"
  using pow2_add_nat [of a "nat (b - a)"] by simp

subsection \<open>The binary exponent of a rational\<close>

fun ilog2 :: "nat \<Rightarrow> nat" where
  "ilog2 n = (if n < 2 then 0 else Suc (ilog2 (n div 2)))"

declare ilog2.simps [simp del]

lemma ilog2_bounds: "0 < n \<Longrightarrow> 2 ^ ilog2 n \<le> n \<and> n < 2 * 2 ^ ilog2 n"
proof (induction n rule: ilog2.induct)
  case (1 n)
  show ?case
  proof (cases "n < 2")
    case True
    with "1.prems" show ?thesis by (simp add: ilog2.simps [of n])
  next
    case False
    then have "0 < n div 2" by simp
    with "1.IH" False have "2 ^ ilog2 (n div 2) \<le> n div 2 \<and> n div 2 < 2 * 2 ^ ilog2 (n div 2)"
      by blast
    with False show ?thesis by (auto simp: ilog2.simps [of n])
  qed
qed

definition exponent_of :: "rat \<Rightarrow> int" where
  "exponent_of x =
     (let (p, q) = quotient_of x;
          k = int (ilog2 (nat p)) - int (ilog2 (nat q))
      in if pow2 k \<le> x then k else k - 1)"

lemma exponent_of_bounds:
  assumes "0 < x"
  shows "pow2 (exponent_of x) \<le> x" and "x < 2 * pow2 (exponent_of x)"
proof -
  obtain p q where pq: "quotient_of x = (p, q)" by force
  let ?a = "ilog2 (nat p)" and ?b = "ilog2 (nat q)"
  let ?k = "int ?a - int ?b"
  have q: "0 < q" using quotient_of_denom_pos [OF pq] .
  have x: "x = of_int p / of_int q" using quotient_of_div [OF pq] .
  have p: "0 < p" using assms q by (simp add: x zero_less_divide_iff)
  have pa: "2 ^ ?a \<le> (of_int p :: rat)" "(of_int p :: rat) < 2 * 2 ^ ?a"
  proof -
    have "int (2 ^ ?a) \<le> p" "p < int (2 * 2 ^ ?a)"
      using ilog2_bounds [of "nat p"] p by linarith+
    then have "(of_int (int (2 ^ ?a)) :: rat) \<le> of_int p" "(of_int p :: rat) < of_int (int (2 * 2 ^ ?a))"
      by (simp_all only: of_int_le_iff of_int_less_iff)
    then show "2 ^ ?a \<le> (of_int p :: rat)" "(of_int p :: rat) < 2 * 2 ^ ?a" by simp_all
  qed
  have qb: "2 ^ ?b \<le> (of_int q :: rat)" "(of_int q :: rat) < 2 * 2 ^ ?b"
  proof -
    have "int (2 ^ ?b) \<le> q" "q < int (2 * 2 ^ ?b)"
      using ilog2_bounds [of "nat q"] q by linarith+
    then have "(of_int (int (2 ^ ?b)) :: rat) \<le> of_int q" "(of_int q :: rat) < of_int (int (2 * 2 ^ ?b))"
      by (simp_all only: of_int_le_iff of_int_less_iff)
    then show "2 ^ ?b \<le> (of_int q :: rat)" "(of_int q :: rat) < 2 * 2 ^ ?b" by simp_all
  qed
  have k: "pow2 ?k * 2 ^ ?b = 2 ^ ?a"
    using pow2_add_nat [of ?k ?b] by simp
  have up: "x < 2 * pow2 ?k"
  proof -
    have "of_int p < 2 * pow2 ?k * 2 ^ ?b" using pa(2) k by simp
    also have "\<dots> \<le> 2 * pow2 ?k * of_int q" using qb(1) by (simp add: mult_left_mono)
    finally show ?thesis using q by (simp add: x divide_less_eq)
  qed
  have lo: "pow2 ?k < 2 * x"
  proof -
    have "pow2 ?k * of_int q < pow2 ?k * (2 * 2 ^ ?b)" using qb(2) by (simp only: mult_less_cancel_left_pos pow2_pos)
    also have "\<dots> \<le> 2 * of_int p" using pa(1) k by simp
    finally show ?thesis using q by (simp add: x less_divide_eq)
  qed
  have "pow2 ?k = 2 * pow2 (?k - 1)" using pow2_Suc [of "?k - 1"] by simp
  then show "pow2 (exponent_of x) \<le> x" and "x < 2 * pow2 (exponent_of x)"
    using up lo by (auto simp: exponent_of_def pq Let_def)
qed

subsection \<open>Rounding to nearest, ties to even\<close>

definition rne :: "rat \<Rightarrow> int" where
  "rne x =
     (let f = \<lfloor>x\<rfloor>; d = x - of_int f
      in if d < 1 / 2 then f else if 1 / 2 < d then f + 1 else if even f then f else f + 1)"

lemma rne_of_int [simp]: "rne (of_int n) = n"
  by (simp add: rne_def)

lemma rne_bounds: "\<lfloor>x\<rfloor> \<le> rne x" "rne x \<le> \<lfloor>x\<rfloor> + 1"
  by (simp_all add: rne_def Let_def)

lemma rne_mono: "x \<le> y \<Longrightarrow> rne x \<le> rne y"
proof -
  assume le: "x \<le> y"
  then have fl: "\<lfloor>x\<rfloor> \<le> \<lfloor>y\<rfloor>" by (rule floor_mono)
  show ?thesis
  proof (cases "\<lfloor>x\<rfloor> = \<lfloor>y\<rfloor>")
    case True
    with le show ?thesis by (auto simp: rne_def Let_def)
  next
    case False
    with fl have "\<lfloor>x\<rfloor> + 1 \<le> \<lfloor>y\<rfloor>" by simp
    with rne_bounds(2) [of x] rne_bounds(1) [of y] show ?thesis by linarith
  qed
qed

lemma rne_minus: "rne (- x) = - rne x"
proof (cases "x \<in> \<int>")
  case True
  then obtain n where "x = of_int n" by (elim Ints_cases)
  then have "- x = of_int (- n)" by simp
  then show ?thesis using \<open>x = of_int n\<close> by (simp only: rne_of_int)
next
  case False
  then have fl: "\<lfloor>- x\<rfloor> = - \<lfloor>x\<rfloor> - 1"
    by (simp add: floor_minus ceiling_altdef) (metis Ints_of_int)
  have "x - of_int \<lfloor>x\<rfloor> = 1 - (- x - of_int \<lfloor>- x\<rfloor>)" by (simp add: fl)
  then show ?thesis by (auto simp: rne_def Let_def fl)
qed

definition ulp_exponent :: "rat \<Rightarrow> int" where
  "ulp_exponent x = max (exponent_of \<bar>x\<bar> - 52) (- 1074)"

definition round64 :: "rat \<Rightarrow> rat" where
  "round64 x =
     (if x = 0 then 0
      else let e = ulp_exponent x in of_int (rne (x / pow2 e)) * pow2 e)"

lemma round64_0 [simp]: "round64 0 = 0"
  by (simp add: round64_def)

lemma round64_minus: "round64 (- x) = - round64 x"
  by (simp add: round64_def Let_def ulp_exponent_def rne_minus)

lemma exponent_of_mono:
  assumes "0 < x" "x \<le> y"
  shows "exponent_of x \<le> exponent_of y"
proof -
  have "pow2 (exponent_of x) < pow2 (exponent_of y + 1)"
    using exponent_of_bounds [of x] exponent_of_bounds [of y] assms
    by (simp add: pow2_Suc)
  then have "exponent_of x < exponent_of y + 1"
    using pow2_le_iff [of "exponent_of y + 1" "exponent_of x"] by linarith
  then show ?thesis by simp
qed

lemma ulp_exponent_mono: "0 < x \<Longrightarrow> x \<le> y \<Longrightarrow> ulp_exponent x \<le> ulp_exponent y"
  using exponent_of_mono [of x y] by (simp add: ulp_exponent_def max_def)

lemma round64_grid:
  assumes "0 < x" "x \<le> of_int m * pow2 (ulp_exponent x)"
  shows "round64 x \<le> of_int m * pow2 (ulp_exponent x)"
proof -
  have "x / pow2 (ulp_exponent x) \<le> of_int m" using assms(2) by (simp add: divide_le_eq)
  then have "rne (x / pow2 (ulp_exponent x)) \<le> m" using rne_mono by fastforce
  then show ?thesis using assms(1)
    by (simp add: round64_def Let_def mult_right_mono)
qed

lemma round64_grid_lower:
  assumes "0 < x" "of_int m * pow2 (ulp_exponent x) \<le> x"
  shows "of_int m * pow2 (ulp_exponent x) \<le> round64 x"
proof -
  have "of_int m \<le> x / pow2 (ulp_exponent x)" using assms(2) by (simp add: le_divide_eq)
  then have "m \<le> rne (x / pow2 (ulp_exponent x))" using rne_mono by fastforce
  then show ?thesis using assms(1)
    by (simp add: round64_def Let_def mult_right_mono)
qed

lemma round64_nonneg: "0 \<le> x \<Longrightarrow> 0 \<le> round64 x"
  using round64_grid_lower [of x 0] by (cases "x = 0") simp_all

text \<open>A value with at most 53 significant bits is its own rounding.\<close>

lemma round64_on_grid:
  assumes "0 < y" "y = of_int m * pow2 (ulp_exponent y)"
  shows "round64 y = y"
proof (rule order_antisym)
  from assms(2) [symmetric] show "round64 y \<le> y" and "y \<le> round64 y"
    using round64_grid [OF assms(1), of m] round64_grid_lower [OF assms(1), of m] by simp_all
qed

lemma round64_exact_pos:
  assumes y: "y = of_int k * pow2 e" and k: "0 < k" "k \<le> 2 ^ 53" and e: "- 1074 \<le> e"
  shows "round64 y = y"
proof -
  have y0: "0 < y" using y k by simp
  obtain u where u: "u = ulp_exponent y" by simp
  obtain x where x: "x = exponent_of y" by simp
  have "\<exists>m. y = of_int m * pow2 u"
  proof (cases "u \<le> e")
    case True
    have "y = of_int (k * 2 ^ nat (e - u)) * pow2 u"
      by (subst y, subst pow2_diff [OF True]) simp
    then show ?thesis by blast
  next
    case False
    then have ex: "e < x - 52"
      using e y0 by (auto simp: u x ulp_exponent_def max_def split: if_splits)
    have p53: "pow2 (e + 53) = of_int (2 ^ 53) * pow2 e" using pow2_add_nat [of e 53] by simp
    have "pow2 (e + 53) \<le> pow2 x" using ex by (simp add: pow2_le_iff)
    also have "\<dots> \<le> y" unfolding x by (rule exponent_of_bounds) (rule y0)
    finally have "of_int (2 ^ 53) * pow2 e \<le> of_int k * pow2 e"
      unfolding p53 by (simp add: y)
    then have "of_int (2 ^ 53) \<le> (of_int k :: rat)" by (rule mult_right_le_imp_le) simp
    then have "2 ^ 53 \<le> k" by (simp only: of_int_le_iff)
    with k(2) have "k = 2 ^ 53" by (rule order_antisym)
    then have y': "y = pow2 (e + 53)" unfolding p53 y by simp
    then have "x \<le> e + 53"
      using exponent_of_bounds(1) [OF y0] by (simp add: x pow2_le_iff)
    with ex have "u = e + 1" using y0 e by (simp add: u ulp_exponent_def x [symmetric])
    then have "y = of_int (2 ^ 52) * pow2 u"
      unfolding y' using pow2_add_nat [of "e + 1" 52] by (simp add: add.commute mult.commute)
    then show ?thesis by blast
  qed
  then show ?thesis using round64_on_grid [OF y0] by (auto simp: u)
qed

lemma round64_exact:
  assumes "x = of_int m * pow2 e" "\<bar>m\<bar> \<le> 2 ^ 53" "- 1074 \<le> e"
  shows "round64 x = x"
proof -
  consider "m = 0" | "0 < m" | "0 < - m" by linarith
  then show ?thesis
  proof cases
    case 1 then show ?thesis by (simp add: assms)
  next
    case 2 then show ?thesis using round64_exact_pos [OF assms(1)] assms(2,3) by simp
  next
    case 3
    then have "round64 (- x) = - x"
      using round64_exact_pos [of "- x" "- m" e] assms by simp
    then show ?thesis by (simp add: round64_minus)
  qed
qed

lemma round64_of_int [simp]: "\<bar>n\<bar> \<le> 2 ^ 53 \<Longrightarrow> round64 (of_int n) = of_int n"
  using round64_exact [of "of_int n" n 0] by simp

lemma round64_mono_pos:
  assumes "0 < x" "x \<le> y"
  shows "round64 x \<le> round64 y"
proof (cases "ulp_exponent x = ulp_exponent y")
  case True
  have "x / pow2 (ulp_exponent y) \<le> y / pow2 (ulp_exponent y)"
    using assms(2) by (simp add: divide_right_mono)
  then have "rne (x / pow2 (ulp_exponent y)) \<le> rne (y / pow2 (ulp_exponent y))" by (rule rne_mono)
  then show ?thesis using assms True
    by (simp add: round64_def Let_def mult_right_mono)
next
  case False
  have y0: "0 < y" using assms by simp
  let ?e = "ulp_exponent x" and ?f = "ulp_exponent y"
  have lt: "?e < ?f" using ulp_exponent_mono [OF assms] False by simp
  then have f: "?f = exponent_of y - 52" using y0 by (auto simp: ulp_exponent_def max_def split: if_splits)
  have "exponent_of x + 1 \<le> ?e + 53" using assms(1) by (simp add: ulp_exponent_def)
  then have "x < pow2 (?e + 53)"
    using exponent_of_bounds(2) [OF assms(1)] pow2_Suc [of "exponent_of x"]
      pow2_le_iff [of "exponent_of x + 1" "?e + 53"] by linarith
  then have "round64 x \<le> of_int (2 ^ 53) * pow2 ?e"
    using pow2_add_nat [of ?e 53] by (intro round64_grid assms(1)) simp
  also have "\<dots> = pow2 (?e + 53)" using pow2_add_nat [of ?e 53] by simp
  also have "\<dots> \<le> pow2 (?f + 52)" using lt by (simp add: pow2_le_iff)
  also have "\<dots> = of_int (2 ^ 52) * pow2 ?f" using pow2_add_nat [of ?f 52] by simp
  also have "\<dots> \<le> round64 y"
    using exponent_of_bounds(1) [OF y0] pow2_add_nat [of ?f 52] f
    by (intro round64_grid_lower y0) simp
  finally show ?thesis .
qed

theorem round64_mono: "x \<le> y \<Longrightarrow> round64 x \<le> round64 y"
proof -
  assume le: "x \<le> y"
  consider "0 < x" | "x \<le> 0" "0 \<le> y" | "0 < - y" "- y \<le> - x" using le by linarith
  then show ?thesis
  proof cases
    case 1 then show ?thesis using le by (rule round64_mono_pos)
  next
    case 2
    then have "0 \<le> - round64 x" using round64_nonneg [of "- x"] by (simp add: round64_minus)
    then show ?thesis using round64_nonneg [OF 2(2)] by linarith
  next
    case 3
    then have "round64 (- y) \<le> round64 (- x)" by (rule round64_mono_pos)
    then show ?thesis by (simp add: round64_minus)
  qed
qed

lemma round64_le_int: "x \<le> of_int n \<Longrightarrow> \<bar>n\<bar> \<le> 2 ^ 53 \<Longrightarrow> round64 x \<le> of_int n"
  using round64_mono [of x "of_int n"] by simp

lemma round64_ge_int: "of_int n \<le> x \<Longrightarrow> \<bar>n\<bar> \<le> 2 ^ 53 \<Longrightarrow> of_int n \<le> round64 x"
  using round64_mono [of "of_int n" x] by simp

subsection \<open>The float64 values and Go's operators on them\<close>

datatype f64 = NaN | Inf bool \<comment> \<open>negative?\<close> | Fin rat

fun is_nan :: "f64 \<Rightarrow> bool" where
  "is_nan NaN = True"
| "is_nan _ = False"

definition f64_max_bound :: rat where
  "f64_max_bound = 2 ^ 1024"

text \<open>The result of an operation whose exact value is a rational: rounded, or an infinity.\<close>

definition f64_of_rat :: "rat \<Rightarrow> f64" where
  "f64_of_rat x =
     (let r = round64 x in if f64_max_bound \<le> \<bar>r\<bar> then Inf (r < 0) else Fin r)"

text \<open>\<^verbatim>\<open>float64(n)\<close> of an integer.\<close>

definition f64_of_int :: "int \<Rightarrow> f64" where
  "f64_of_int n = f64_of_rat (of_int n)"

fun f64_add :: "f64 \<Rightarrow> f64 \<Rightarrow> f64" where
  "f64_add (Fin x) (Fin y) = f64_of_rat (x + y)"
| "f64_add (Inf s) (Fin _) = Inf s"
| "f64_add (Fin _) (Inf s) = Inf s"
| "f64_add (Inf s) (Inf t) = (if s = t then Inf s else NaN)"
| "f64_add _ _ = NaN"

fun f64_neg :: "f64 \<Rightarrow> f64" where
  "f64_neg (Fin x) = Fin (- x)"
| "f64_neg (Inf s) = Inf (\<not> s)"
| "f64_neg NaN = NaN"

definition f64_sub :: "f64 \<Rightarrow> f64 \<Rightarrow> f64" where
  "f64_sub x y = f64_add x (f64_neg y)"

fun f64_mul :: "f64 \<Rightarrow> f64 \<Rightarrow> f64" where
  "f64_mul (Fin x) (Fin y) = f64_of_rat (x * y)"
| "f64_mul (Inf s) (Fin y) = (if y = 0 then NaN else Inf (s \<noteq> (y < 0)))"
| "f64_mul (Fin x) (Inf t) = (if x = 0 then NaN else Inf ((x < 0) \<noteq> t))"
| "f64_mul (Inf s) (Inf t) = Inf (s \<noteq> t)"
| "f64_mul _ _ = NaN"

text \<open>Division; a zero divisor counts as a positive zero.\<close>

fun f64_div :: "f64 \<Rightarrow> f64 \<Rightarrow> f64" where
  "f64_div (Fin x) (Fin y) =
     (if y = 0 then (if x = 0 then NaN else Inf (x < 0)) else f64_of_rat (x / y))"
| "f64_div (Inf s) (Fin y) = Inf (s \<noteq> (y < 0))"
| "f64_div (Fin _) (Inf _) = Fin 0"
| "f64_div _ _ = NaN"

text \<open>The comparisons are false as soon as one side is a NaN.\<close>

fun f64_lt :: "f64 \<Rightarrow> f64 \<Rightarrow> bool" where
  "f64_lt (Fin x) (Fin y) = (x < y)"
| "f64_lt (Inf s) (Fin _) = s"
| "f64_lt (Fin _) (Inf t) = (\<not> t)"
| "f64_lt (Inf s) (Inf t) = (s \<and> \<not> t)"
| "f64_lt _ _ = False"

fun f64_eq :: "f64 \<Rightarrow> f64 \<Rightarrow> bool" where
  "f64_eq NaN _ = False"
| "f64_eq _ NaN = False"
| "f64_eq x y = (x = y)"

definition f64_le :: "f64 \<Rightarrow> f64 \<Rightarrow> bool" where
  "f64_le x y \<longleftrightarrow> f64_lt x y \<or> f64_eq x y"

text \<open>\<^verbatim>\<open>math.Min\<close>: negative infinity first, then NaN.\<close>

definition f64_min :: "f64 \<Rightarrow> f64 \<Rightarrow> f64" where
  "f64_min x y =
     (if x = Inf True \<or> y = Inf True then Inf True
      else if is_nan x \<or> is_nan y then NaN
      else if f64_lt x y then x else y)"

text \<open>
  \<^verbatim>\<open>int64(x)\<close>: truncation towards zero. Outside the range Go leaves the value to the
  implementation; the model takes the value of the amd64 conversion instruction.
\<close>

definition trunc_rat :: "rat \<Rightarrow> int" where
  "trunc_rat x = (if x < 0 then \<lceil>x\<rceil> else \<lfloor>x\<rfloor>)"

fun f64_to_int64 :: "f64 \<Rightarrow> int" where
  "f64_to_int64 (Fin x) =
     (let t = trunc_rat x in if - (2 ^ 63) \<le> t \<and> t < 2 ^ 63 then t else - (2 ^ 63))"
| "f64_to_int64 _ = - (2 ^ 63)"

subsection \<open>Evaluation of the operations on finite values\<close>

lemma f64_of_rat_Fin:
  assumes "\<bar>x\<bar> \<le> 2 ^ 1023"
  shows "f64_of_rat x = Fin (round64 x)"
proof -
  have b: "round64 (2 ^ 1023) = 2 ^ 1023"
    using round64_exact [of "2 ^ 1023" 1 1023] pow2_nat [of 1023] by simp
  have "round64 x \<le> 2 ^ 1023" "- (2 ^ 1023) \<le> round64 x"
    using round64_mono [of x "2 ^ 1023"] round64_mono [of "- (2 ^ 1023)" x] assms b
    by (simp_all add: round64_minus)
  then have "\<bar>round64 x\<bar> \<le> 2 ^ 1023" by linarith
  moreover have "(2::rat) ^ 1023 < f64_max_bound"
    unfolding f64_max_bound_def by (rule power_strict_increasing) simp_all
  ultimately show ?thesis by (simp add: f64_of_rat_def Let_def)
qed

lemma f64_of_rat_exact:
  assumes "x = of_int m * pow2 e" "\<bar>m\<bar> \<le> 2 ^ 53" "- 1074 \<le> e" "\<bar>x\<bar> \<le> 2 ^ 1023"
  shows "f64_of_rat x = Fin x"
  using f64_of_rat_Fin [OF assms(4)] round64_exact [OF assms(1-3)] by simp

lemma f64_of_rat_int [f64_simps]: "\<bar>n\<bar> \<le> 2 ^ 53 \<Longrightarrow> f64_of_rat (of_int n) = Fin (of_int n)"
proof -
  assume n: "\<bar>n\<bar> \<le> 2 ^ 53"
  have "\<bar>of_int n :: rat\<bar> = of_int \<bar>n\<bar>" by simp
  also have "\<dots> \<le> of_int (2 ^ 53)" using n by (simp only: of_int_le_iff)
  also have "\<dots> = 2 ^ 53" by simp
  also have "(2::rat) ^ 53 \<le> 2 ^ 1023" by (rule power_increasing) simp_all
  finally show ?thesis using n by (simp add: f64_of_rat_Fin)
qed

lemma f64_of_int_small [f64_simps]: "\<bar>n\<bar> \<le> 2 ^ 53 \<Longrightarrow> f64_of_int n = Fin (of_int n)"
  by (simp add: f64_of_int_def f64_of_rat_int)

lemma f64_mul_one [f64_simps]:
  "\<bar>n\<bar> \<le> 2 ^ 53 \<Longrightarrow> f64_mul (f64_of_int n) (Fin 1) = Fin (of_int n)"
  by (simp add: f64_of_int_small f64_of_rat_int)

lemma f64_lt_irrefl [simp]: "\<not> f64_lt x x"
  by (cases x) auto

lemma f64_lt_trans: "f64_lt x y \<Longrightarrow> f64_lt y z \<Longrightarrow> f64_lt x z"
  by (cases x; cases y; cases z) (auto split: if_splits)

lemma f64_eq_iff: "\<not> is_nan x \<Longrightarrow> f64_eq x y \<longleftrightarrow> x = y"
  by (cases x; cases y) auto

lemma f64_lt_total: "\<not> is_nan x \<Longrightarrow> \<not> is_nan y \<Longrightarrow> f64_lt x y \<or> x = y \<or> f64_lt y x"
  by (cases x; cases y) auto

lemma f64_lt_asym: "f64_lt x y \<Longrightarrow> \<not> f64_lt y x"
  using f64_lt_trans [of x y x] by auto

end
