(* ===== verification/Cluster.thy ===== *)
theory Cluster
  imports Prelude
begin

text \<open>
  The rows of the control-plane store that several components read: nodes, storage pools and
  their effective views, network reconciliation records and mesh records
  (\<^verbatim>\<open>internal/store/models.go\<close> and its siblings). A record keeps the columns that some
  modelled operation reads or writes; the descriptive columns (CPU model, kernel version,
  labels and so on) that are only copied through are left out.
\<close>

datatype NodeStatus =
    NodeStatusPending | NodeStatusReady | NodeStatusCordoned | NodeStatusDraining
  | NodeStatusUnreachable

record Node =
  nd_ID :: uuid
  nd_Name :: string
  nd_GatewayRole :: bool
  nd_AdvertisedEndpoint :: string
  nd_IngressAdvertisedEndpoint :: string
  nd_ControlListenPort :: int
  nd_Status :: NodeStatus
  nd_CordonedAt :: "gotime option"
  nd_CPUCoresTotal :: "int option"
  nd_CPUCoresAvailable :: "int option"
  nd_MemoryTotalMib :: "int option"
  nd_MemoryAvailableMib :: "int option"
  nd_Capabilities :: string
  nd_LastHeartbeatAt :: "gotime option"
  nd_MemoryPressureSince :: "gotime option"
  nd_SystemDiskPressureSince :: "gotime option"
  nd_CreatedAt :: gotime
  nd_DeletedAt :: "gotime option"

record NodeEffectiveAvailability =
  ne_ID :: uuid
  ne_Name :: string
  ne_Status :: NodeStatus
  ne_CordonedAt :: "gotime option"
  ne_CPUCoresTotal :: "int option"
  ne_CPUCoresAvailable :: "int option"
  ne_MemoryTotalMib :: "int option"
  ne_MemoryAvailableMib :: "int option"
  ne_Capabilities :: string
  ne_LastHeartbeatAt :: "gotime option"
  ne_MemoryPressureSince :: "gotime option"
  ne_SystemDiskPressureSince :: "gotime option"
  ne_CPUCoresEffective :: "int option"
  ne_MemoryEffectiveMib :: "int option"

record StoragePool =
  sp_ID :: uuid
  sp_NodeID :: uuid
  sp_Name :: string
  sp_CapacityBytes :: "int option"
  sp_AvailableBytes :: "int option"
  sp_ReportedAt :: "gotime option"
  sp_DiskPressureSince :: "gotime option"

record PoolEffectiveCapacity =
  pe_ID :: uuid
  pe_NodeID :: uuid
  pe_Name :: string
  pe_CapacityBytes :: "int option"
  pe_AvailableBytes :: "int option"
  pe_ReportedAt :: "gotime option"
  pe_DiskPressureSince :: "gotime option"
  pe_AvailableBytesEffective :: "int option"

text \<open>The three diagnostic queries and the eligibility query return rows of one shape.\<close>

record PoolNodeRow =
  row_Pool :: PoolEffectiveCapacity
  row_Node :: NodeEffectiveAvailability

record NetworkNodeStatus =
  nns_NetworkID :: uuid
  nns_NodeID :: uuid
  nns_ReconciliationStatus :: string

record AgentWireguard =
  wg_NodeID :: uuid
  wg_Endpoint :: string
  wg_EstablishedPeers :: "string list"
  wg_UpdatedAt :: gotime

definition HasRole_gateway :: "Node \<Rightarrow> bool" where
  "HasRole_gateway n \<longleftrightarrow> nd_GatewayRole n"

end
