(* ===== verification/Placement.thy ===== *)
theory Placement
  imports Cluster Float64
begin

text \<open>
  The placement scheduler, \<^verbatim>\<open>internal/scheduler/placement.go\<close>: which (node, pool instance)
  a new or migrating VM lands on. The read surface of the store (\<^verbatim>\<open>Querier\<close>) is a record
  of functions, every one of which may return an error. A nil dereference and an index out of
  range are values of the error type, so that \<open>SchedulePlacement_no_panic\<close> can say they do not
  happen.
\<close>

subsection \<open>Requests, configuration and errors\<close>

record PlacementRequest =
  req_PoolName :: string
  req_NodeHint :: "string option"
  req_ExcludeNodeID :: "uuid option"
  req_VCPUs :: int
  req_MemoryMiB :: int
  req_DiskBytes :: int
  req_NetworkIDs :: "uuid list"

record PlacementDecision =
  dec_Node :: NodeEffectiveAvailability
  dec_PoolInstance :: PoolEffectiveCapacity

record ResourceConfig =
  rc_Enabled :: bool
  rc_OvercommitRatio :: f64

record MemoryResourceConfig =
  mc_Enabled :: bool
  mc_OvercommitRatio :: f64
  mc_OvercommitZramFloorMib :: int
  mc_OvercommitZramConfidence :: f64

record ResourcesConfig =
  cfg_CPU :: ResourceConfig
  cfg_Memory :: MemoryResourceConfig
  cfg_Disk :: ResourceConfig

record PlacementConfig =
  pc_Algorithm :: string
  pc_Resources :: ResourcesConfig

text \<open>\<^verbatim>\<open>defaultResourcesConfig\<close> of \<^verbatim>\<open>internal/config/api.go\<close>, copied field by field into the scheduler's mirror types.\<close>

definition defaultResourcesConfig :: ResourcesConfig where
  "defaultResourcesConfig =
     \<lparr>cfg_CPU = \<lparr>rc_Enabled = True, rc_OvercommitRatio = Fin 1\<rparr>,
      cfg_Memory = \<lparr>mc_Enabled = True, mc_OvercommitRatio = Fin 1,
                    mc_OvercommitZramFloorMib = 256, mc_OvercommitZramConfidence = Fin (1 / 2)\<rparr>,
      cfg_Disk = \<lparr>rc_Enabled = True, rc_OvercommitRatio = Fin 1\<rparr>\<rparr>"

definition AlgorithmResourceAware :: string where
  "AlgorithmResourceAware = ''resource_aware''"

definition AlgorithmLeastVMCount :: string where
  "AlgorithmLeastVMCount = ''least_vm_count''"

record NodeUtilization =
  nu_Node :: string
  nu_Pool :: string
  nu_CPUUsed :: int
  nu_CPUTotal :: int
  nu_MemUsedMiB :: int
  nu_MemTotalMiB :: int
  nu_DiskUsedBytes :: int
  nu_DiskTotalBytes :: int
  nu_OvercommitEligible :: bool
  nu_MemOvercommitHeadroomMiB :: int

record InsufficientResourcesDetail =
  ir_RequiredCPU :: int
  ir_RequiredMemMiB :: int
  ir_RequiredDiskBytes :: int
  ir_CandidatesConsidered :: nat
  ir_CandidatesEligible :: nat
  ir_NodeUtilization :: "NodeUtilization list"

record PressuredNode =
  pn_Node :: string
  pn_Pool :: string
  pn_Conditions :: "string list"
  pn_MemoryPressureSince :: "gotime option"
  pn_SystemDiskPressureSince :: "gotime option"
  pn_DiskPressureSince :: "gotime option"

record UnreadyNetwork =
  un_NetworkID :: uuid
  un_Status :: string

record NetworkUnreadyNode =
  nun_Node :: string
  nun_Networks :: "UnreadyNetwork list"

text \<open>
  The error chains \<^verbatim>\<open>SchedulePlacement\<close> returns: the sentinels, the three sentinels that
  carry a detail payload, an error of the store, and the two run-time panics.
\<close>

datatype sched_err =
    ErrPoolNotFound | ErrPoolNotOnNode | ErrNodeHintIsUUID | ErrUnknownAlgorithm
  | ErrNoEligibleNodes
  | NodePressureError "PressuredNode list"
  | NetworkUnreadyError "NetworkUnreadyNode list"
  | InsufficientResourcesError InsufficientResourcesDetail
  | QuerierError string
  | PanicNilDereference | PanicIndexOutOfRange

text \<open>\<^verbatim>\<open>errors.Is(err, ErrNoEligibleNodes)\<close> and \<^verbatim>\<open>errors.Is(err, ErrInsufficientResources)\<close> along the wrap chain.\<close>

fun is_ErrNoEligibleNodes :: "sched_err \<Rightarrow> bool" where
  "is_ErrNoEligibleNodes ErrNoEligibleNodes = True"
| "is_ErrNoEligibleNodes (NodePressureError _) = True"
| "is_ErrNoEligibleNodes (NetworkUnreadyError _) = True"
| "is_ErrNoEligibleNodes _ = False"

fun is_ErrInsufficientResources :: "sched_err \<Rightarrow> bool" where
  "is_ErrInsufficientResources (InsufficientResourcesError _) = True"
| "is_ErrInsufficientResources _ = False"

fun ExtractInsufficientResources :: "sched_err \<Rightarrow> InsufficientResourcesDetail option \<times> bool" where
  "ExtractInsufficientResources (InsufficientResourcesError d) = (Some d, True)"
| "ExtractInsufficientResources _ = (None, False)"

fun ExtractNodePressureDetail :: "sched_err \<Rightarrow> PressuredNode list option \<times> bool" where
  "ExtractNodePressureDetail (NodePressureError d) = (Some d, True)"
| "ExtractNodePressureDetail _ = (None, False)"

fun ExtractNetworkUnreadyDetail :: "sched_err \<Rightarrow> NetworkUnreadyNode list option \<times> bool" where
  "ExtractNetworkUnreadyDetail (NetworkUnreadyError d) = (Some d, True)"
| "ExtractNetworkUnreadyDetail _ = (None, False)"

record Querier =
  ListEligiblePoolsByName :: "string \<Rightarrow> string + PoolNodeRow list"
  ListMemoryPressuredCandidatesByName :: "string \<Rightarrow> string + PoolNodeRow list"
  ListSystemDiskPressuredCandidatesByName :: "string \<Rightarrow> string + PoolNodeRow list"
  ListDiskPressuredPoolsByName :: "string \<Rightarrow> string + PoolNodeRow list"
  ListStoragePoolsByName :: "string \<Rightarrow> string + StoragePool list"
  CountRunningVMsByNode :: "uuid \<Rightarrow> string + int"
  ListNetworkNodeStatusByNode :: "uuid \<Rightarrow> string + NetworkNodeStatus list"

text \<open>
  Code outside the repository: \<^verbatim>\<open>uuid.Parse\<close> of google/uuid (\<open>None\<close> is its error), and the
  decoding of the capabilities blob by encoding/json into the one field that is read
  (\<open>None\<close>: the blob does not decode; \<open>Some None\<close>: no \<^verbatim>\<open>compressed_swap\<close> object).
\<close>

record sched_env =
  uuid_Parse :: "string \<Rightarrow> uuid option"
  json_compressed_swap :: "string \<Rightarrow> int option option"

subsection \<open>Memory overcommit headroom\<close>

definition parseCompressedSwapSizeMib :: "sched_env \<Rightarrow> string \<Rightarrow> int \<times> bool" where
  "parseCompressedSwapSizeMib env caps =
     (if caps = [] then (0, False)
      else case json_compressed_swap env caps of
        None \<Rightarrow> (0, False)
      | Some None \<Rightarrow> (0, False)
      | Some (Some sizeMib) \<Rightarrow> (sizeMib, True))"

definition MemOvercommitHeadroom ::
    "sched_env \<Rightarrow> NodeEffectiveAvailability \<Rightarrow> MemoryResourceConfig \<Rightarrow> int" where
  "MemOvercommitHeadroom env n cfg =
     (case ne_MemoryTotalMib n of
        None \<Rightarrow> 0
      | Some tot \<Rightarrow>
          if \<not> mc_Enabled cfg \<or> f64_le (mc_OvercommitRatio cfg) (Fin 1) then 0
          else
            let (sizeMib, ok) = parseCompressedSwapSizeMib env (ne_Capabilities n)
            in if \<not> ok \<or> sizeMib < mc_OvercommitZramFloorMib cfg then 0
               else
                 let operatorCeil = f64_mul (f64_of_int tot)
                       (f64_sub (mc_OvercommitRatio cfg) (Fin 1));
                     zramCeil = f64_mul (f64_of_int sizeMib) (mc_OvercommitZramConfidence cfg);
                     headroom = f64_min operatorCeil zramCeil
                 in if f64_lt headroom (Fin 0) then 0 else f64_to_int64 headroom)"

subsection \<open>The resource fit check\<close>

definition candidateHasMetrics :: "PoolNodeRow \<Rightarrow> PlacementRequest \<Rightarrow> ResourcesConfig \<Rightarrow> bool" where
  "candidateHasMetrics r req cfg =
     (let n = row_Node r; p = row_Pool r
      in if rc_Enabled (cfg_CPU cfg) \<and>
            (ne_CPUCoresTotal n = None \<or> ne_CPUCoresAvailable n = None \<or> ne_CPUCoresEffective n = None)
         then False
         else if mc_Enabled (cfg_Memory cfg) \<and>
            (ne_MemoryTotalMib n = None \<or> ne_MemoryAvailableMib n = None \<or> ne_MemoryEffectiveMib n = None)
         then False
         else if rc_Enabled (cfg_Disk cfg) \<and> 0 < req_DiskBytes req \<and>
            (pe_CapacityBytes p = None \<or> pe_AvailableBytes p = None \<or> pe_AvailableBytesEffective p = None)
         then False
         else True)"

text \<open>
  The three checks of \<^verbatim>\<open>fitsAllResources\<close>, each \<open>None\<close> when it dereferences a nil column;
  \<open>early_false\<close> is the \<^verbatim>\<open>return false\<close> between them.
\<close>

fun early_false :: "bool option \<Rightarrow> bool option \<Rightarrow> bool option" where
  "early_false None k = None"
| "early_false (Some False) k = Some False"
| "early_false (Some True) k = k"

definition fitsCPU :: "PoolNodeRow \<Rightarrow> PlacementRequest \<Rightarrow> ResourcesConfig \<Rightarrow> bool option" where
  "fitsCPU r req cfg =
     (if rc_Enabled (cfg_CPU cfg) then
        case ne_CPUCoresEffective (row_Node r) of
          None \<Rightarrow> None
        | Some eff \<Rightarrow>
            let avail = f64_mul (f64_of_int eff) (rc_OvercommitRatio (cfg_CPU cfg))
            in Some (\<not> f64_lt avail (f64_of_int (req_VCPUs req)))
      else Some True)"

definition fitsMemory ::
    "sched_env \<Rightarrow> PoolNodeRow \<Rightarrow> PlacementRequest \<Rightarrow> ResourcesConfig \<Rightarrow> bool option" where
  "fitsMemory env r req cfg =
     (if mc_Enabled (cfg_Memory cfg) then
        case ne_MemoryEffectiveMib (row_Node r) of
          None \<Rightarrow> None
        | Some eff \<Rightarrow>
            let headroom = MemOvercommitHeadroom env (row_Node r) (cfg_Memory cfg);
                avail = f64_add (f64_of_int eff) (f64_of_int headroom)
            in Some (\<not> f64_lt avail (f64_of_int (req_MemoryMiB req)))
      else Some True)"

definition fitsDisk :: "PoolNodeRow \<Rightarrow> PlacementRequest \<Rightarrow> ResourcesConfig \<Rightarrow> bool option" where
  "fitsDisk r req cfg =
     (if rc_Enabled (cfg_Disk cfg) \<and> 0 < req_DiskBytes req then
        case pe_AvailableBytesEffective (row_Pool r) of
          None \<Rightarrow> None
        | Some eff \<Rightarrow>
            let avail = f64_mul (f64_of_int eff) (rc_OvercommitRatio (cfg_Disk cfg))
            in Some (\<not> f64_lt avail (f64_of_int (req_DiskBytes req)))
      else Some True)"

definition fitsAllResources ::
    "sched_env \<Rightarrow> PoolNodeRow \<Rightarrow> PlacementRequest \<Rightarrow> ResourcesConfig \<Rightarrow> bool option" where
  "fitsAllResources env r req cfg =
     early_false (fitsCPU r req cfg)
       (early_false (fitsMemory env r req cfg)
         (early_false (fitsDisk r req cfg) (Some True)))"

record candidate =
  cand_row :: PoolNodeRow
  cand_useCountFallback :: bool

text \<open>The fitting and the rejected candidates in input order; \<open>None\<close> is the nil dereference.\<close>

fun filterByResources ::
    "sched_env \<Rightarrow> PoolNodeRow list \<Rightarrow> PlacementRequest \<Rightarrow> ResourcesConfig \<Rightarrow>
      (candidate list \<times> candidate list) option" where
  "filterByResources env [] req cfg = Some ([], [])"
| "filterByResources env (r # rows) req cfg =
     (if \<not> candidateHasMetrics r req cfg then
        case filterByResources env rows req cfg of
          None \<Rightarrow> None
        | Some (fits, rejected) \<Rightarrow>
            Some (\<lparr>cand_row = r, cand_useCountFallback = True\<rparr> # fits, rejected)
      else
        case fitsAllResources env r req cfg of
          None \<Rightarrow> None
        | Some fit \<Rightarrow>
            (case filterByResources env rows req cfg of
               None \<Rightarrow> None
             | Some (fits, rejected) \<Rightarrow>
                 let c = \<lparr>cand_row = r, cand_useCountFallback = False\<rparr>
                 in if fit then Some (c # fits, rejected) else Some (fits, c # rejected)))"

subsection \<open>Node hint and source exclusion\<close>

definition filterByNodeHint ::
    "sched_env \<Rightarrow> PoolNodeRow list \<Rightarrow> string \<Rightarrow> sched_err + PoolNodeRow list" where
  "filterByNodeHint env rows hint =
     (if uuid_Parse env hint \<noteq> None then Inl ErrNodeHintIsUUID
      else case find (\<lambda>r. equal_fold (ne_Name (row_Node r)) hint) rows of
        Some r \<Rightarrow> Inr [r]
      | None \<Rightarrow> Inl ErrPoolNotOnNode)"

definition excludeNode :: "PoolNodeRow list \<Rightarrow> uuid \<Rightarrow> PoolNodeRow list" where
  "excludeNode rows excludeID = filter (\<lambda>r. ne_ID (row_Node r) \<noteq> excludeID) rows"

subsection \<open>The network filter\<close>

definition networkStatusReady :: string where
  "networkStatusReady = ''ready''"

definition byNetwork :: "NetworkNodeStatus list \<Rightarrow> uuid \<Rightarrow> string option" where
  "byNetwork statuses =
     fold (\<lambda>st m. m(nns_NetworkID st \<mapsto> nns_ReconciliationStatus st)) statuses Map.empty"

fun unreadyNetworks :: "(uuid \<Rightarrow> string option) \<Rightarrow> uuid list \<Rightarrow> UnreadyNetwork list" where
  "unreadyNetworks m [] = []"
| "unreadyNetworks m (netID # ids) =
     (case m netID of
        None \<Rightarrow> \<lparr>un_NetworkID = netID, un_Status = ''missing''\<rparr> # unreadyNetworks m ids
      | Some status \<Rightarrow>
          if status \<noteq> networkStatusReady
          then \<lparr>un_NetworkID = netID, un_Status = status\<rparr> # unreadyNetworks m ids
          else unreadyNetworks m ids)"

fun filterByNetworkReadiness ::
    "Querier \<Rightarrow> candidate list \<Rightarrow> uuid list \<Rightarrow>
      sched_err + candidate list \<times> NetworkUnreadyNode list" where
  "filterByNetworkReadiness q [] ids = Inr ([], [])"
| "filterByNetworkReadiness q (c # cs) ids =
     and_then (map_err QuerierError (ListNetworkNodeStatusByNode q (ne_ID (row_Node (cand_row c)))))
       (\<lambda>statuses.
          let unready = unreadyNetworks (byNetwork statuses) ids
          in and_then (filterByNetworkReadiness q cs ids) (\<lambda>(survivors, detail).
               if unready \<noteq> [] then
                 Inr (survivors,
                   \<lparr>nun_Node = ne_Name (row_Node (cand_row c)), nun_Networks = unready\<rparr> # detail)
               else Inr (c # survivors, detail)))"

definition applyNetworkFilter ::
    "Querier \<Rightarrow> candidate list \<Rightarrow> PlacementRequest \<Rightarrow> sched_err + candidate list" where
  "applyNetworkFilter q fits req =
     (if req_NetworkIDs req = [] then Inr fits
      else and_then (filterByNetworkReadiness q fits (req_NetworkIDs req)) (\<lambda>(survivors, detail).
        if survivors = [] then Inl (NetworkUnreadyError detail) else Inr survivors))"

subsection \<open>Scoring\<close>

definition computeUtil :: "int \<Rightarrow> int \<Rightarrow> int \<Rightarrow> f64 \<Rightarrow> f64" where
  "computeUtil tot effective need ratio =
     (if tot \<le> 0 \<or> f64_le ratio (Fin 0) then Fin 0
      else
        let used = wrap64 (tot - effective);
            used = (if used < 0 then 0 else used)
        in f64_div (f64_of_int (wrap64 (used + need))) (f64_mul (f64_of_int tot) ratio))"

definition computeUtilCap :: "int \<Rightarrow> int \<Rightarrow> int \<Rightarrow> int \<Rightarrow> f64" where
  "computeUtilCap tot effective need capacity =
     (if tot \<le> 0 \<or> capacity \<le> 0 then Fin 0
      else
        let used = wrap64 (tot - effective);
            used = (if used < 0 then 0 else used)
        in f64_div (f64_of_int (wrap64 (used + need))) (f64_of_int capacity))"

text \<open>The terms of \<^verbatim>\<open>utilizationScore\<close>: the sum grows by one term, the factor count by one.\<close>

definition addTerm :: "bool \<Rightarrow> f64 \<Rightarrow> f64 \<times> int \<Rightarrow> f64 \<times> int" where
  "addTerm present term acc = (if present then (f64_add (fst acc) term, snd acc + 1) else acc)"

definition utilizationScore ::
    "sched_env \<Rightarrow> PoolNodeRow \<Rightarrow> PlacementRequest \<Rightarrow> ResourcesConfig \<Rightarrow> f64 \<times> int" where
  "utilizationScore env r req cfg =
     (let n = row_Node r; p = row_Pool r;
          acc = (Fin 0, 0);
          acc = (case (ne_CPUCoresTotal n, ne_CPUCoresEffective n) of
                   (Some tot, Some eff) \<Rightarrow>
                     addTerm (rc_Enabled (cfg_CPU cfg))
                       (computeUtil tot eff (req_VCPUs req) (rc_OvercommitRatio (cfg_CPU cfg))) acc
                 | _ \<Rightarrow> acc);
          acc = (case (ne_MemoryTotalMib n, ne_MemoryEffectiveMib n) of
                   (Some tot, Some eff) \<Rightarrow>
                     addTerm (mc_Enabled (cfg_Memory cfg))
                       (computeUtilCap tot eff (req_MemoryMiB req)
                         (wrap64 (tot + MemOvercommitHeadroom env n (cfg_Memory cfg)))) acc
                 | _ \<Rightarrow> acc)
      in case (pe_CapacityBytes p, pe_AvailableBytesEffective p) of
           (Some tot, Some eff) \<Rightarrow>
             addTerm (rc_Enabled (cfg_Disk cfg) \<and> 0 < req_DiskBytes req)
               (computeUtil tot eff (req_DiskBytes req) (rc_OvercommitRatio (cfg_Disk cfg))) acc
         | _ \<Rightarrow> acc)"

record scoredCandidate =
  sc_candidate :: candidate
  sc_score :: f64

definition countScore :: "Querier \<Rightarrow> candidate \<Rightarrow> sched_err + scoredCandidate" where
  "countScore q c =
     and_then (map_err QuerierError (CountRunningVMsByNode q (ne_ID (row_Node (cand_row c)))))
       (\<lambda>count. Inr \<lparr>sc_candidate = c, sc_score = f64_add (Fin 1) (f64_of_int count)\<rparr>)"

definition scoreOneResourceAware ::
    "sched_env \<Rightarrow> Querier \<Rightarrow> PlacementRequest \<Rightarrow> ResourcesConfig \<Rightarrow> candidate \<Rightarrow>
      sched_err + scoredCandidate" where
  "scoreOneResourceAware env q req cfg c =
     (if cand_useCountFallback c then countScore q c
      else
        let (score, factors) = utilizationScore env (cand_row c) req cfg
        in if factors = 0 then countScore q c
           else Inr \<lparr>sc_candidate = c, sc_score = f64_div score (f64_of_int factors)\<rparr>)"

definition scoreResourceAware ::
    "sched_env \<Rightarrow> Querier \<Rightarrow> candidate list \<Rightarrow> PlacementRequest \<Rightarrow> ResourcesConfig \<Rightarrow>
      sched_err + scoredCandidate list" where
  "scoreResourceAware env q fits req cfg = map_res (scoreOneResourceAware env q req cfg) fits"

definition scoreLeastVMCount :: "Querier \<Rightarrow> candidate list \<Rightarrow> sched_err + scoredCandidate list" where
  "scoreLeastVMCount q fits =
     map_res (\<lambda>c.
       and_then (map_err QuerierError (CountRunningVMsByNode q (ne_ID (row_Node (cand_row c)))))
         (\<lambda>count. Inr \<lparr>sc_candidate = c, sc_score = f64_of_int count\<rparr>)) fits"

definition scoreCandidates ::
    "sched_env \<Rightarrow> Querier \<Rightarrow> candidate list \<Rightarrow> PlacementRequest \<Rightarrow> PlacementConfig \<Rightarrow> string \<Rightarrow>
      sched_err + scoredCandidate list" where
  "scoreCandidates env q fits req cfg algorithm =
     (if algorithm = AlgorithmResourceAware then scoreResourceAware env q fits req (pc_Resources cfg)
      else if algorithm = AlgorithmLeastVMCount then scoreLeastVMCount q fits
      else Inl ErrUnknownAlgorithm)"

abbreviation sc_name :: "scoredCandidate \<Rightarrow> string" where
  "sc_name s \<equiv> ne_Name (row_Node (cand_row (sc_candidate s)))"

text \<open>The comparison function handed to \<^verbatim>\<open>sort.SliceStable\<close>.\<close>

definition winner_less :: "scoredCandidate \<Rightarrow> scoredCandidate \<Rightarrow> bool" where
  "winner_less a b =
     (if \<not> f64_eq (sc_score a) (sc_score b) then f64_lt (sc_score a) (sc_score b)
      else to_lower (sc_name a) < to_lower (sc_name b))"

definition pickWinner :: "scoredCandidate list \<Rightarrow> scoredCandidate option" where
  "pickWinner scored =
     (case sort_stable winner_less scored of [] \<Rightarrow> None | w # _ \<Rightarrow> Some w)"

subsection \<open>Diagnosis payloads\<close>

definition clampInt32 :: "int \<Rightarrow> int" where
  "clampInt32 v = (if v > 2 ^ 31 - 1 then 2 ^ 31 - 1 else if v < 0 then 0 else v)"

fun or_zero :: "int option \<Rightarrow> int" where
  "or_zero None = 0"
| "or_zero (Some x) = x"

definition renderOne :: "sched_env \<Rightarrow> MemoryResourceConfig \<Rightarrow> candidate \<Rightarrow> NodeUtilization" where
  "renderOne env memCfg c =
     (let n = row_Node (cand_row c); p = row_Pool (cand_row c);
          cpuTotal = or_zero (ne_CPUCoresTotal n); cpuEff = or_zero (ne_CPUCoresEffective n);
          memTotal = or_zero (ne_MemoryTotalMib n); memEff = or_zero (ne_MemoryEffectiveMib n);
          diskTotal = or_zero (pe_CapacityBytes p);
          diskEff = or_zero (pe_AvailableBytesEffective p);
          diskUsed = wrap64 (diskTotal - diskEff);
          diskUsed = (if diskUsed < 0 then 0 else diskUsed);
          headroom = MemOvercommitHeadroom env n memCfg
      in \<lparr>nu_Node = ne_Name n, nu_Pool = pe_Name p,
          nu_CPUUsed = wrap32 (cpuTotal - cpuEff), nu_CPUTotal = cpuTotal,
          nu_MemUsedMiB = wrap64 (memTotal - memEff), nu_MemTotalMiB = memTotal,
          nu_DiskUsedBytes = diskUsed, nu_DiskTotalBytes = diskTotal,
          nu_OvercommitEligible = (0 < headroom), nu_MemOvercommitHeadroomMiB = headroom\<rparr>)"

definition renderUtilization ::
    "sched_env \<Rightarrow> candidate list \<Rightarrow> MemoryResourceConfig \<Rightarrow> NodeUtilization list" where
  "renderUtilization env rejected memCfg = map (renderOne env memCfg) rejected"

definition appendUnique :: "string list \<Rightarrow> string \<Rightarrow> string list" where
  "appendUnique out s = (if s \<in> set out then out else out @ [s])"

text \<open>
  \<^verbatim>\<open>buildNodePressureDetail\<close> keeps a map from (node, pool) keys to entries and the list of
  keys in order of first use.
\<close>

type_synonym pressure_key = "string \<times> string"
type_synonym pressure_acc = "(pressure_key \<Rightarrow> PressuredNode option) \<times> pressure_key list"

definition newPressured :: "string \<Rightarrow> string \<Rightarrow> PressuredNode" where
  "newPressured node pool =
     \<lparr>pn_Node = node, pn_Pool = pool, pn_Conditions = [], pn_MemoryPressureSince = None,
      pn_SystemDiskPressureSince = None, pn_DiskPressureSince = None\<rparr>"

definition addEntry ::
    "pressure_key \<Rightarrow> (PressuredNode \<Rightarrow> PressuredNode) \<Rightarrow> pressure_acc \<Rightarrow> pressure_acc" where
  "addEntry k upd acc =
     (let (index, order) = acc
      in case index k of
           Some e \<Rightarrow> (index(k \<mapsto> upd e), order)
         | None \<Rightarrow> (index(k \<mapsto> upd (newPressured (fst k) (snd k))), order @ [k]))"

definition first_some :: "'a option \<Rightarrow> 'a option \<Rightarrow> 'a option" where
  "first_some new old = (if old = None then new else old)"

definition addMemory :: "PoolNodeRow \<Rightarrow> pressure_acc \<Rightarrow> pressure_acc" where
  "addMemory r = addEntry (ne_Name (row_Node r), [])
     (\<lambda>e. e\<lparr>pn_Conditions := appendUnique (pn_Conditions e) ''memory_pressure'',
            pn_MemoryPressureSince :=
              first_some (ne_MemoryPressureSince (row_Node r)) (pn_MemoryPressureSince e)\<rparr>)"

definition addSystemDisk :: "PoolNodeRow \<Rightarrow> pressure_acc \<Rightarrow> pressure_acc" where
  "addSystemDisk r = addEntry (ne_Name (row_Node r), [])
     (\<lambda>e. e\<lparr>pn_Conditions := appendUnique (pn_Conditions e) ''system_disk_pressure'',
            pn_SystemDiskPressureSince :=
              first_some (ne_SystemDiskPressureSince (row_Node r)) (pn_SystemDiskPressureSince e)\<rparr>)"

definition addPoolDisk :: "PoolNodeRow \<Rightarrow> pressure_acc \<Rightarrow> pressure_acc" where
  "addPoolDisk r = addEntry (ne_Name (row_Node r), pe_Name (row_Pool r))
     (\<lambda>e. e\<lparr>pn_Conditions := appendUnique (pn_Conditions e) ''disk_pressure'',
            pn_DiskPressureSince :=
              first_some (pe_DiskPressureSince (row_Pool r)) (pn_DiskPressureSince e)\<rparr>)"

definition buildNodePressureDetail ::
    "PoolNodeRow list \<Rightarrow> PoolNodeRow list \<Rightarrow> PoolNodeRow list \<Rightarrow> PressuredNode list" where
  "buildNodePressureDetail mem sysDisk poolDisk =
     (let (index, order) =
        fold addPoolDisk poolDisk (fold addSystemDisk sysDisk (fold addMemory mem (Map.empty, [])))
      in map (\<lambda>k. the (index k)) order)"

definition diagnoseEmptyEligible :: "Querier \<Rightarrow> string \<Rightarrow> sched_err" where
  "diagnoseEmptyEligible q poolName =
     (case ListStoragePoolsByName q poolName of
        Inl e \<Rightarrow> QuerierError e
      | Inr [] \<Rightarrow> ErrPoolNotFound
      | Inr (_ # _) \<Rightarrow>
          (case ListMemoryPressuredCandidatesByName q poolName of
             Inl e \<Rightarrow> QuerierError e
           | Inr mem \<Rightarrow>
               (case ListSystemDiskPressuredCandidatesByName q poolName of
                  Inl e \<Rightarrow> QuerierError e
                | Inr sysDisk \<Rightarrow>
                    (case ListDiskPressuredPoolsByName q poolName of
                       Inl e \<Rightarrow> QuerierError e
                     | Inr poolDisk \<Rightarrow>
                         if 0 < length mem + length sysDisk + length poolDisk
                         then NodePressureError (buildNodePressureDetail mem sysDisk poolDisk)
                         else ErrNoEligibleNodes))))"

subsection \<open>SchedulePlacement\<close>

text \<open>The two narrowing steps before the fit check: hint, then source exclusion.\<close>

definition narrowEligible ::
    "sched_env \<Rightarrow> Querier \<Rightarrow> PlacementRequest \<Rightarrow> PoolNodeRow list \<Rightarrow> sched_err + PoolNodeRow list" where
  "narrowEligible env q req eligible =
     and_then
       (case req_NodeHint req of
          None \<Rightarrow> Inr eligible
        | Some hint \<Rightarrow> filterByNodeHint env eligible hint)
       (\<lambda>eligible.
          case req_ExcludeNodeID req of
            None \<Rightarrow> Inr eligible
          | Some ex \<Rightarrow>
              let eligible = excludeNode eligible ex
              in if eligible = [] then Inl (diagnoseEmptyEligible q (req_PoolName req))
                 else Inr eligible)"

definition placeAmong ::
    "sched_env \<Rightarrow> Querier \<Rightarrow> PlacementRequest \<Rightarrow> PlacementConfig \<Rightarrow> string \<Rightarrow> PoolNodeRow list \<Rightarrow>
      sched_err + PlacementDecision" where
  "placeAmong env q req cfg algorithm eligible =
     (case filterByResources env eligible req (pc_Resources cfg) of
        None \<Rightarrow> Inl PanicNilDereference
      | Some (fits, rejected) \<Rightarrow>
          if fits = [] then
            Inl (InsufficientResourcesError
              \<lparr>ir_RequiredCPU = clampInt32 (req_VCPUs req),
               ir_RequiredMemMiB = clampInt32 (req_MemoryMiB req),
               ir_RequiredDiskBytes = req_DiskBytes req,
               ir_CandidatesConsidered = length eligible,
               ir_CandidatesEligible = 0,
               ir_NodeUtilization =
                 renderUtilization env rejected (cfg_Memory (pc_Resources cfg))\<rparr>)
          else
            and_then (applyNetworkFilter q fits req) (\<lambda>fits.
              and_then (scoreCandidates env q fits req cfg algorithm) (\<lambda>scored.
                case pickWinner scored of
                  None \<Rightarrow> Inl PanicIndexOutOfRange
                | Some w \<Rightarrow>
                    Inr \<lparr>dec_Node = row_Node (cand_row (sc_candidate w)),
                         dec_PoolInstance = row_Pool (cand_row (sc_candidate w))\<rparr>)))"

definition SchedulePlacement ::
    "sched_env \<Rightarrow> Querier \<Rightarrow> PlacementRequest \<Rightarrow> PlacementConfig \<Rightarrow>
      sched_err + PlacementDecision" where
  "SchedulePlacement env q req cfg =
     (if req_PoolName req = [] then Inl ErrPoolNotFound
      else
        let algorithm = (if pc_Algorithm cfg = [] then AlgorithmResourceAware else pc_Algorithm cfg)
        in and_then (map_err QuerierError (ListEligiblePoolsByName q (req_PoolName req)))
             (\<lambda>eligible.
                if eligible = [] then Inl (diagnoseEmptyEligible q (req_PoolName req))
                else and_then (narrowEligible env q req eligible)
                       (placeAmong env q req cfg algorithm)))"

end
