(* ===== verification/PlacementSample.thy ===== *)
theory PlacementSample
  imports Placement
begin

text \<open>
  A small cluster on which the placement theorems are instantiated: three nodes that hold an
  instance of the pool \<open>local\<close>, one of which is the migration source, one of which does not
  have the requested network ready.
\<close>

definition sampleRow :: "uuid \<Rightarrow> string \<Rightarrow> PoolNodeRow" where
  "sampleRow i name =
     \<lparr>row_Pool = \<lparr>pe_ID = 100 + i, pe_NodeID = i, pe_Name = ''local'', pe_CapacityBytes = Some 16,
                  pe_AvailableBytes = Some 12, pe_ReportedAt = Some 0, pe_DiskPressureSince = None,
                  pe_AvailableBytesEffective = Some 12\<rparr>,
      row_Node = \<lparr>ne_ID = i, ne_Name = name, ne_Status = NodeStatusReady, ne_CordonedAt = None,
                  ne_CPUCoresTotal = Some 8, ne_CPUCoresAvailable = Some 4,
                  ne_MemoryTotalMib = Some 4096, ne_MemoryAvailableMib = Some 2048,
                  ne_Capabilities = [], ne_LastHeartbeatAt = Some 0,
                  ne_MemoryPressureSince = None, ne_SystemDiskPressureSince = None,
                  ne_CPUCoresEffective = Some 4, ne_MemoryEffectiveMib = Some 2048\<rparr>\<rparr>"

definition sampleRows :: "PoolNodeRow list" where
  "sampleRows = [sampleRow 1 ''alpha'', sampleRow 2 ''beta'', sampleRow 3 ''gamma'']"

definition sampleQuerier :: Querier where
  "sampleQuerier =
     \<lparr>ListEligiblePoolsByName = (\<lambda>_. Inr sampleRows),
      ListMemoryPressuredCandidatesByName = (\<lambda>_. Inr []),
      ListSystemDiskPressuredCandidatesByName = (\<lambda>_. Inr []),
      ListDiskPressuredPoolsByName = (\<lambda>_. Inr []),
      ListStoragePoolsByName = (\<lambda>_. Inr []),
      CountRunningVMsByNode = (\<lambda>_. Inr 0),
      ListNetworkNodeStatusByNode = (\<lambda>i. Inr
        [\<lparr>nns_NetworkID = 7, nns_NodeID = i,
          nns_ReconciliationStatus = (if i = 2 then ''pending'' else ''ready'')\<rparr>])\<rparr>"

definition sampleEnv :: sched_env where
  "sampleEnv = \<lparr>uuid_Parse = (\<lambda>_. None),
     json_compressed_swap = (\<lambda>caps. if caps = ''zram'' then Some (Some 1024) else None)\<rparr>"

definition sampleRequest :: PlacementRequest where
  "sampleRequest =
     \<lparr>req_PoolName = ''local'', req_NodeHint = None, req_ExcludeNodeID = Some 1, req_VCPUs = 2,
      req_MemoryMiB = 1024, req_DiskBytes = 8, req_NetworkIDs = [7]\<rparr>"

definition sampleConfig :: PlacementConfig where
  "sampleConfig = \<lparr>pc_Algorithm = [], pc_Resources = defaultResourcesConfig\<rparr>"

definition sampleDecision :: PlacementDecision where
  "sampleDecision = \<lparr>dec_Node = row_Node (sampleRow 3 ''gamma''), dec_PoolInstance = row_Pool (sampleRow 3 ''gamma'')\<rparr>"

lemmas sample_defs = sampleRow_def sampleRows_def sampleQuerier_def sampleEnv_def
  sampleRequest_def sampleConfig_def defaultResourcesConfig_def

lemma f64_of_rat_numeral: "(numeral k :: int) \<le> 2 ^ 53 \<Longrightarrow> f64_of_rat (numeral k) = Fin (numeral k)"
  using f64_of_rat_int [of "numeral k"] by simp

lemma f64_of_rat_small [simp]: "f64_of_rat 0 = Fin 0" "f64_of_rat 1 = Fin 1"
  using f64_of_rat_int [of 0] f64_of_rat_int [of 1] by simp_all

lemma f64_of_rat_quarters [simp]: "f64_of_rat (3 / 4) = Fin (3 / 4)" "f64_of_rat (3 / 2) = Fin (3 / 2)"
    "f64_of_rat (9 / 4) = Fin (9 / 4)"
  by (rule f64_of_rat_exact [of _ 3 "- 2"] f64_of_rat_exact [of _ 3 "- 1"] f64_of_rat_exact [of _ 9 "- 2"];
      simp add: pow2_def)+

lemmas sample_eval = f64_of_int_small f64_of_rat_numeral wrap64_def f64_le_def
  candidateHasMetrics_def fitsAllResources_def fitsCPU_def fitsMemory_def fitsDisk_def
  MemOvercommitHeadroom_def computeUtil_def computeUtilCap_def utilizationScore_def addTerm_def
  scoreOneResourceAware_def countScore_def scoreResourceAware_def scoreCandidates_def
  applyNetworkFilter_def byNetwork_def networkStatusReady_def excludeNode_def
  AlgorithmResourceAware_def pickWinner_def placeAmong_def narrowEligible_def SchedulePlacement_def
  Let_def

lemma sample_decision:
  "SchedulePlacement sampleEnv sampleQuerier sampleRequest sampleConfig =
     Inr sampleDecision"
  by (simp add: sample_defs sample_eval sampleDecision_def)

end
