(* ===== verification/PlacementProps.thy ===== *)
theory PlacementProps
  imports PlacementSample
begin

text \<open>
  Correctness of the placement scheduler: what each filter keeps, that no run-time panic is
  reachable, that the decision is the best admissible candidate and does not depend on the
  order in which the store lists the candidates, and what each error says.
\<close>

named_theorems placement_defs

lemmas [placement_defs] = SchedulePlacement_def narrowEligible_def placeAmong_def

subsection \<open>The resource filter\<close>

definition admitted :: "sched_env \<Rightarrow> PlacementRequest \<Rightarrow> ResourcesConfig \<Rightarrow> PoolNodeRow \<Rightarrow> bool" where
  "admitted env req cfg r \<longleftrightarrow>
     \<not> candidateHasMetrics r req cfg \<or> fitsAllResources env r req cfg = Some True"

abbreviation mkCandidate :: "PlacementRequest \<Rightarrow> ResourcesConfig \<Rightarrow> PoolNodeRow \<Rightarrow> candidate" where
  "mkCandidate req cfg r \<equiv>
     \<lparr>cand_row = r, cand_useCountFallback = (\<not> candidateHasMetrics r req cfg)\<rparr>"

lemma early_false_Some: "x \<noteq> None \<Longrightarrow> y \<noteq> None \<Longrightarrow> early_false x y \<noteq> None"
  by (cases "(x, y)" rule: early_false.cases) auto

lemma early_false_True: "early_false x y = Some True \<longleftrightarrow> x = Some True \<and> y = Some True"
  by (cases "(x, y)" rule: early_false.cases) auto

lemma fitsAllResources_no_nil:
  "candidateHasMetrics r req cfg \<Longrightarrow> fitsAllResources env r req cfg \<noteq> None"
  unfolding fitsAllResources_def
  by (intro early_false_Some)
    (auto simp: candidateHasMetrics_def fitsCPU_def fitsMemory_def fitsDisk_def Let_def
      split: if_splits option.splits)

lemma filterByResources_eq:
  "filterByResources env rows req cfg =
     Some (map (mkCandidate req cfg) (filter (admitted env req cfg) rows),
           map (\<lambda>r. \<lparr>cand_row = r, cand_useCountFallback = False\<rparr>)
             (filter (\<lambda>r. \<not> admitted env req cfg r) rows))"
proof (induction rows)
  case Nil
  then show ?case by simp
next
  case (Cons r rows)
  show ?case
  proof (cases "candidateHasMetrics r req cfg")
    case True
    then obtain fit where "fitsAllResources env r req cfg = Some fit"
      using fitsAllResources_no_nil by blast
    with True Cons show ?thesis by (cases fit) (simp_all add: admitted_def)
  next
    case False
    with Cons show ?thesis by (simp add: admitted_def)
  qed
qed

subsection \<open>The network filter\<close>

definition networksReady :: "Querier \<Rightarrow> uuid list \<Rightarrow> PoolNodeRow \<Rightarrow> bool" where
  "networksReady q ids r \<longleftrightarrow>
     (case ListNetworkNodeStatusByNode q (ne_ID (row_Node r)) of
        Inl _ \<Rightarrow> False
      | Inr sts \<Rightarrow> \<forall>i\<in>set ids. byNetwork sts i = Some networkStatusReady)"

lemma unreadyNetworks_Nil_iff:
  "unreadyNetworks m ids = [] \<longleftrightarrow> (\<forall>i\<in>set ids. m i = Some networkStatusReady)"
  by (induction ids) (auto split: option.splits)

lemma filterByNetworkReadiness_survivors:
  "filterByNetworkReadiness q cs ids = Inr (survivors, detail) \<Longrightarrow>
     survivors = filter (\<lambda>c. networksReady q ids (cand_row c)) cs"
proof (induction cs arbitrary: survivors detail)
  case Nil
  then show ?case by simp
next
  case (Cons c cs)
  then show ?case
    by (auto simp: and_then_Inr_iff networksReady_def unreadyNetworks_Nil_iff Let_def
        split: if_splits)
qed

lemma filterByNetworkReadiness_detail:
  "filterByNetworkReadiness q cs ids = Inr (survivors, detail) \<Longrightarrow>
     map nun_Node detail =
       map (\<lambda>c. ne_Name (row_Node (cand_row c)))
         (filter (\<lambda>c. \<not> networksReady q ids (cand_row c)) cs) \<and>
     (\<forall>d\<in>set detail. nun_Networks d \<noteq> [])"
proof (induction cs arbitrary: survivors detail)
  case Nil
  then show ?case by simp
next
  case (Cons c cs)
  then show ?case
    by (auto simp: and_then_Inr_iff networksReady_def unreadyNetworks_Nil_iff Let_def
        split: if_splits)
qed

lemma applyNetworkFilter_Inr:
  assumes "applyNetworkFilter q fits req = Inr fits'"
  shows "fits' = (if req_NetworkIDs req = [] then fits
           else filter (\<lambda>c. networksReady q (req_NetworkIDs req) (cand_row c)) fits)"
    and "fits \<noteq> [] \<Longrightarrow> fits' \<noteq> []"
  using assms
  by (auto simp: applyNetworkFilter_def and_then_Inr_iff split: if_splits
      dest: filterByNetworkReadiness_survivors)

subsection \<open>Scoring keeps the candidates\<close>

lemma scoreCandidates_candidates:
  assumes "scoreCandidates env q fits req cfg alg = Inr scored"
  shows "map sc_candidate scored = fits"
proof -
  have one: "sc_candidate s = c"
    if "scoreOneResourceAware env q req (pc_Resources cfg) c = Inr s" for c s
    using that
    by (auto simp: scoreOneResourceAware_def countScore_def and_then_Inr_iff Let_def
        split: if_splits prod.splits)
  have "list_all2 (\<lambda>c s. sc_candidate s = c) fits scored"
    using assms
    by (auto simp: scoreCandidates_def scoreResourceAware_def scoreLeastVMCount_def map_res_Inr
        and_then_Inr_iff split: if_splits elim!: list_all2_mono dest: one)
  then show ?thesis
    by (induction rule: list_all2_induct) auto
qed

subsection \<open>The winner\<close>

lemma pickWinner_None_iff: "pickWinner scored = None \<longleftrightarrow> scored = []"
  by (auto simp: pickWinner_def split: list.splits)

lemma pickWinner_hd: "pickWinner scored = Some w \<longleftrightarrow>
    scored \<noteq> [] \<and> w = hd (sort_stable winner_less scored)"
  by (auto simp: pickWinner_def split: list.splits)

lemma pickWinner_in: "pickWinner scored = Some w \<Longrightarrow> w \<in> set scored"
  by (auto simp: pickWinner_hd) (metis list.set_sel(1) set_sort_stable sort_stable_Nil_iff)

text \<open>On scores that are not NaN the comparison is a strict weak order.\<close>

lemma winner_less_iff:
  "\<not> is_nan (sc_score a) \<Longrightarrow>
     winner_less a b \<longleftrightarrow> f64_lt (sc_score a) (sc_score b) \<or>
       sc_score a = sc_score b \<and> to_lower (sc_name a) < to_lower (sc_name b)"
  by (auto simp: winner_less_def f64_eq_iff)

interpretation winner: strict_weak_order winner_less "{s. \<not> is_nan (sc_score s)}"
proof unfold_locales
  fix x :: scoredCandidate
  assume "x \<in> {s. \<not> is_nan (sc_score s)}"
  then show "\<not> winner_less x x" by (simp add: winner_less_iff)
next
  fix x y z :: scoredCandidate
  assume "x \<in> {s. \<not> is_nan (sc_score s)}" "y \<in> {s. \<not> is_nan (sc_score s)}"
  then have n: "\<not> is_nan (sc_score x)" "\<not> is_nan (sc_score y)" by simp_all
  assume "winner_less x y" "winner_less y z"
  then show "winner_less x z"
    unfolding winner_less_iff [OF n(1)] winner_less_iff [OF n(2)]
    by (metis f64_lt_trans order_less_trans)
next
  fix x y z :: scoredCandidate
  assume "x \<in> {s. \<not> is_nan (sc_score s)}" "y \<in> {s. \<not> is_nan (sc_score s)}"
    "z \<in> {s. \<not> is_nan (sc_score s)}"
  then have n: "\<not> is_nan (sc_score x)" "\<not> is_nan (sc_score y)" "\<not> is_nan (sc_score z)"
    by simp_all
  assume "winner_less x z"
  then have "f64_lt (sc_score x) (sc_score z) \<or>
      sc_score x = sc_score z \<and> to_lower (sc_name x) < to_lower (sc_name z)"
    by (simp add: winner_less_iff n)
  with f64_lt_total [OF n(1,2)] f64_lt_trans [of "sc_score y" "sc_score x" "sc_score z"]
  show "winner_less x y \<or> winner_less y z"
    unfolding winner_less_iff [OF n(1)] winner_less_iff [OF n(2)] by (elim disjE) auto
qed

lemma pickWinner_min:
  assumes "pickWinner scored = Some w" "\<forall>s\<in>set scored. \<not> is_nan (sc_score s)" "s \<in> set scored"
  shows "\<not> winner_less s w"
  using winner.hd_sort_stable_min [of scored s] assms by (auto simp: pickWinner_hd)

subsection \<open>Anatomy of a decision\<close>

definition hintMatches :: "sched_env \<Rightarrow> PlacementRequest \<Rightarrow> PoolNodeRow \<Rightarrow> bool" where
  "hintMatches env req r \<longleftrightarrow>
     (\<forall>h. req_NodeHint req = Some h \<longrightarrow> uuid_Parse env h = None \<and> equal_fold (ne_Name (row_Node r)) h)"

lemma filterByNodeHint_Inr:
  assumes "filterByNodeHint env rows h = Inr rows'"
  shows "\<exists>r. rows' = [r] \<and> r \<in> set rows \<and> uuid_Parse env h = None \<and> equal_fold (ne_Name (row_Node r)) h"
  using assms
  by (auto simp: filterByNodeHint_def find_Some_iff in_set_conv_nth split: if_splits option.splits)

lemma narrowEligible_Inr:
  assumes "narrowEligible env q req rows = Inr rows'" "rows \<noteq> []"
  shows "rows' \<noteq> []"
    and "r \<in> set rows' \<Longrightarrow> r \<in> set rows \<and> hintMatches env req r \<and> req_ExcludeNodeID req \<noteq> Some (ne_ID (row_Node r))"
proof -
  obtain rows1 where h: "(case req_NodeHint req of None \<Rightarrow> Inr rows
        | Some hint \<Rightarrow> filterByNodeHint env rows hint) = Inr rows1"
    and e: "(case req_ExcludeNodeID req of None \<Rightarrow> Inr rows1
          | Some ex \<Rightarrow> if excludeNode rows1 ex = [] then Inl (diagnoseEmptyEligible q (req_PoolName req))
                 else Inr (excludeNode rows1 ex)) = (Inr rows' :: sched_err + PoolNodeRow list)"
    using assms(1) unfolding narrowEligible_def and_then_Inr_iff Let_def by blast
  have r1: "rows1 \<noteq> [] \<and> (\<forall>r\<in>set rows1. r \<in> set rows \<and> hintMatches env req r)"
    using h assms(2)
    by (cases "req_NodeHint req") (auto simp: hintMatches_def dest!: filterByNodeHint_Inr)
  have r2: "rows' \<noteq> [] \<and> (\<forall>r\<in>set rows'. r \<in> set rows1 \<and> req_ExcludeNodeID req \<noteq> Some (ne_ID (row_Node r)))"
    using e r1 by (auto simp: excludeNode_def split: option.splits if_splits)
  from r2 show "rows' \<noteq> []" by simp
  from r1 r2 show "r \<in> set rows' \<Longrightarrow> r \<in> set rows \<and> hintMatches env req r \<and> req_ExcludeNodeID req \<noteq> Some (ne_ID (row_Node r))"
    by blast
qed

definition admissible ::
    "sched_env \<Rightarrow> Querier \<Rightarrow> PlacementRequest \<Rightarrow> ResourcesConfig \<Rightarrow> PoolNodeRow \<Rightarrow> bool" where
  "admissible env q req cfg r \<longleftrightarrow>
     admitted env req cfg r \<and> (req_NetworkIDs req = [] \<or> networksReady q (req_NetworkIDs req) r)"

definition effectiveAlgorithm :: "PlacementConfig \<Rightarrow> string" where
  "effectiveAlgorithm cfg = (if pc_Algorithm cfg = [] then AlgorithmResourceAware else pc_Algorithm cfg)"

abbreviation candidatesOf ::
    "sched_env \<Rightarrow> Querier \<Rightarrow> PlacementRequest \<Rightarrow> ResourcesConfig \<Rightarrow> PoolNodeRow list \<Rightarrow> candidate list" where
  "candidatesOf env q req cfg rows \<equiv>
     map (mkCandidate req cfg) (filter (admissible env q req cfg) rows)"

lemma placeAmong_Inr:
  assumes "placeAmong env q req cfg alg rows = Inr d"
  shows "\<exists>scored w.
      scoreCandidates env q (candidatesOf env q req (pc_Resources cfg) rows) req cfg alg = Inr scored \<and>
      pickWinner scored = Some w \<and>
      d = \<lparr>dec_Node = row_Node (cand_row (sc_candidate w)),
           dec_PoolInstance = row_Pool (cand_row (sc_candidate w))\<rparr>"
proof -
  let ?fits = "map (mkCandidate req (pc_Resources cfg)) (filter (admitted env req (pc_Resources cfg)) rows)"
  obtain fits' scored w where
    f: "applyNetworkFilter q ?fits req = Inr fits'" and
    s: "scoreCandidates env q fits' req cfg alg = Inr scored" and
    w: "pickWinner scored = Some w" and
    d: "d = \<lparr>dec_Node = row_Node (cand_row (sc_candidate w)),
           dec_PoolInstance = row_Pool (cand_row (sc_candidate w))\<rparr>"
    using assms
    by (auto simp: placeAmong_def filterByResources_eq and_then_Inr_iff split: if_splits option.splits)
  have "fits' = candidatesOf env q req (pc_Resources cfg) rows"
    using applyNetworkFilter_Inr(1) [OF f]
    by (auto simp: admissible_def filter_map o_def conj_commute cong: filter_cong split: if_splits)
  with s w d show ?thesis by blast
qed

lemma SchedulePlacement_InrE:
  assumes "SchedulePlacement env q req cfg = Inr d"
  obtains rows rows' scored w where
    "ListEligiblePoolsByName q (req_PoolName req) = Inr rows" "rows \<noteq> []"
    "narrowEligible env q req rows = Inr rows'"
    "scoreCandidates env q (candidatesOf env q req (pc_Resources cfg) rows') req cfg
       (effectiveAlgorithm cfg) = Inr scored"
    "pickWinner scored = Some w"
    "dec_Node d = row_Node (cand_row (sc_candidate w))"
    "dec_PoolInstance d = row_Pool (cand_row (sc_candidate w))"
    "cand_row (sc_candidate w) \<in> set rows'" "admissible env q req (pc_Resources cfg) (cand_row (sc_candidate w))"
proof -
  obtain rows rows' where
    1: "ListEligiblePoolsByName q (req_PoolName req) = Inr rows" "rows \<noteq> []"
       "narrowEligible env q req rows = Inr rows'" and
    2: "placeAmong env q req cfg (effectiveAlgorithm cfg) rows' = Inr d"
    using assms
    by (auto simp: SchedulePlacement_def and_then_Inr_iff effectiveAlgorithm_def Let_def split: if_splits)
  obtain scored w where
    3: "scoreCandidates env q (candidatesOf env q req (pc_Resources cfg) rows') req cfg
          (effectiveAlgorithm cfg) = Inr scored" "pickWinner scored = Some w" and
    4: "d = \<lparr>dec_Node = row_Node (cand_row (sc_candidate w)),
           dec_PoolInstance = row_Pool (cand_row (sc_candidate w))\<rparr>"
    using placeAmong_Inr [OF 2] by blast
  have "sc_candidate w \<in> set (candidatesOf env q req (pc_Resources cfg) rows')"
    using pickWinner_in [OF 3(2)] scoreCandidates_candidates [OF 3(1)] by (metis image_eqI set_map)
  then have "cand_row (sc_candidate w) \<in> set rows'"
    "admissible env q req (pc_Resources cfg) (cand_row (sc_candidate w))" by auto
  with 1 3 4 that show thesis by auto
qed

lemma SchedulePlacement_chosenE:
  assumes "SchedulePlacement env q req cfg = Inr d"
  obtains rows r where
    "ListEligiblePoolsByName q (req_PoolName req) = Inr rows" "r \<in> set rows"
    "dec_Node d = row_Node r" "dec_PoolInstance d = row_Pool r"
    "hintMatches env req r" "req_ExcludeNodeID req \<noteq> Some (ne_ID (row_Node r))"
    "admissible env q req (pc_Resources cfg) r"
  using assms by (rule SchedulePlacement_InrE) (metis narrowEligible_Inr(2))

text \<open>
  C1. A placement decision is a row of the eligibility query that matches the node hint, is not
  the excluded migration source, passes the resource fit check unless its metrics are missing,
  and has every requested network reported ready on its node.
\<close>

theorem SchedulePlacement_sound:
  assumes "SchedulePlacement env q req cfg = Inr d"
  shows "\<exists>rows r. ListEligiblePoolsByName q (req_PoolName req) = Inr rows \<and> r \<in> set rows \<and>
      dec_Node d = row_Node r \<and> dec_PoolInstance d = row_Pool r \<and>
      (\<forall>h. req_NodeHint req = Some h \<longrightarrow> uuid_Parse env h = None \<and> equal_fold (ne_Name (row_Node r)) h) \<and>
      req_ExcludeNodeID req \<noteq> Some (ne_ID (row_Node r)) \<and>
      (candidateHasMetrics r req (pc_Resources cfg) \<longrightarrow>
        fitsAllResources env r req (pc_Resources cfg) = Some True) \<and>
      (\<forall>i\<in>set (req_NetworkIDs req). \<exists>sts.
        ListNetworkNodeStatusByNode q (ne_ID (row_Node r)) = Inr sts \<and>
        byNetwork sts i = Some networkStatusReady)"
proof -
  obtain rows r where
    1: "ListEligiblePoolsByName q (req_PoolName req) = Inr rows" "r \<in> set rows"
      "dec_Node d = row_Node r" "dec_PoolInstance d = row_Pool r"
      "hintMatches env req r" "req_ExcludeNodeID req \<noteq> Some (ne_ID (row_Node r))" and
    2: "admissible env q req (pc_Resources cfg) r"
    using assms by (rule SchedulePlacement_chosenE)
  from 2 have "\<forall>i\<in>set (req_NetworkIDs req). \<exists>sts.
      ListNetworkNodeStatusByNode q (ne_ID (row_Node r)) = Inr sts \<and>
      byNetwork sts i = Some networkStatusReady"
    by (auto simp: admissible_def networksReady_def split: sum.splits)
  moreover from 2 have "candidateHasMetrics r req (pc_Resources cfg) \<longrightarrow>
      fitsAllResources env r req (pc_Resources cfg) = Some True"
    by (simp add: admissible_def admitted_def)
  ultimately show ?thesis using 1 unfolding hintMatches_def by blast
qed

theorem SchedulePlacement_sound_witness:
  "SchedulePlacement sampleEnv sampleQuerier sampleRequest sampleConfig = Inr sampleDecision \<and>
   (\<exists>r\<in>set sampleRows. dec_Node sampleDecision = row_Node r \<and> Some (ne_ID (row_Node r)) \<noteq> Some 1 \<and>
     (\<exists>sts. ListNetworkNodeStatusByNode sampleQuerier (ne_ID (row_Node r)) = Inr sts \<and>
       byNetwork sts 7 = Some networkStatusReady))"
proof -
  have rows: "ListEligiblePoolsByName sampleQuerier p = Inr sampleRows" for p by (simp add: sampleQuerier_def)
  have req: "req_ExcludeNodeID sampleRequest = Some 1" "req_NetworkIDs sampleRequest = [7]"
    by (simp_all add: sampleRequest_def)
  show ?thesis
    using SchedulePlacement_sound [OF sample_decision] sample_decision unfolding rows req by auto
qed

subsection \<open>No panic\<close>

lemma diagnoseEmptyEligible_no_panic:
  "diagnoseEmptyEligible q p \<noteq> PanicNilDereference \<and> diagnoseEmptyEligible q p \<noteq> PanicIndexOutOfRange"
  by (auto simp: diagnoseEmptyEligible_def split: sum.splits list.splits)

lemma filterByNetworkReadiness_err:
  "filterByNetworkReadiness q cs ids = Inl e \<Longrightarrow> \<exists>m. e = QuerierError m"
  by (induction cs) (auto simp: and_then_Inl_iff map_err_Inl_iff Let_def split: if_splits prod.splits)

lemma scoreCandidates_err:
  "scoreCandidates env q fits req cfg alg = Inl e \<Longrightarrow> e = ErrUnknownAlgorithm \<or> (\<exists>m. e = QuerierError m)"
  by (auto simp: scoreCandidates_def scoreResourceAware_def scoreLeastVMCount_def
      scoreOneResourceAware_def countScore_def and_then_Inl_iff map_err_Inl_iff Let_def
      split: if_splits prod.splits dest!: map_res_Inl)

lemma placeAmong_no_panic:
  "placeAmong env q req cfg alg rows \<noteq> Inl PanicNilDereference \<and>
   placeAmong env q req cfg alg rows \<noteq> Inl PanicIndexOutOfRange"
proof -
  let ?fits = "map (mkCandidate req (pc_Resources cfg)) (filter (admitted env req (pc_Resources cfg)) rows)"
  have win: "pickWinner scored \<noteq> None"
    if "filter (admitted env req (pc_Resources cfg)) rows \<noteq> []"
      "applyNetworkFilter q ?fits req = Inr f" "scoreCandidates env q f req cfg alg = Inr scored"
    for f scored
    using applyNetworkFilter_Inr(2) [OF that(2)] scoreCandidates_candidates [OF that(3)] that(1)
    by (auto simp: pickWinner_None_iff)
  have net: "applyNetworkFilter q ?fits req = Inl e \<Longrightarrow> e \<noteq> PanicNilDereference \<and> e \<noteq> PanicIndexOutOfRange" for e
    by (auto simp: applyNetworkFilter_def and_then_Inl_iff split: if_splits dest!: filterByNetworkReadiness_err)
  show ?thesis
    by (auto simp: placeAmong_def filterByResources_eq and_then_Inl_iff split: option.splits
        dest: scoreCandidates_err net win)
qed

text \<open>
  C24. Scheduling never dereferences a nil metric column and never indexes an empty candidate
  slice, whatever the store answers.
\<close>

theorem SchedulePlacement_no_panic:
  "SchedulePlacement env q req cfg \<noteq> Inl PanicNilDereference \<and>
   SchedulePlacement env q req cfg \<noteq> Inl PanicIndexOutOfRange"
proof -
  have "filterByNodeHint env rows h = Inl e \<Longrightarrow> e \<noteq> PanicNilDereference \<and> e \<noteq> PanicIndexOutOfRange" for rows h e
    by (auto simp: filterByNodeHint_def split: if_splits option.splits)
  then have nar: "narrowEligible env q req rows = Inl e \<Longrightarrow>
      e \<noteq> PanicNilDereference \<and> e \<noteq> PanicIndexOutOfRange" for rows e
    using diagnoseEmptyEligible_no_panic
    by (auto simp: narrowEligible_def and_then_Inl_iff Let_def split: option.splits if_splits)
  show ?thesis
    using placeAmong_no_panic diagnoseEmptyEligible_no_panic
    by (auto simp: SchedulePlacement_def and_then_Inl_iff map_err_Inl_iff Let_def dest!: nar)
qed

subsection \<open>Strict configurations do not overcommit\<close>

definition exact_int :: "int \<Rightarrow> bool" where
  "exact_int n \<longleftrightarrow> \<bar>n\<bar> \<le> 2 ^ 53"

lemma not_less_exact:
  "exact_int a \<Longrightarrow> exact_int b \<Longrightarrow> \<not> f64_lt (f64_of_int a) (f64_of_int b) \<longleftrightarrow> b \<le> a"
  by (auto simp: exact_int_def f64_of_int_small not_less)

lemma MemOvercommitHeadroom_strict:
  "f64_le (mc_OvercommitRatio cfg) (Fin 1) \<Longrightarrow> MemOvercommitHeadroom env n cfg = 0"
  by (simp add: MemOvercommitHeadroom_def split: option.splits)

text \<open>
  C15. Under the default configuration a placement never overcommits: when the chosen node and
  pool report metrics, the request fits the effective CPU cores, memory and pool bytes, as
  integers, although the code compares them in floating point.
\<close>

theorem default_config_no_overcommit:
  assumes "SchedulePlacement env q req \<lparr>pc_Algorithm = alg, pc_Resources = defaultResourcesConfig\<rparr> = Inr d"
    and "ne_CPUCoresTotal (dec_Node d) \<noteq> None" "ne_CPUCoresAvailable (dec_Node d) \<noteq> None"
    and "ne_MemoryTotalMib (dec_Node d) \<noteq> None" "ne_MemoryAvailableMib (dec_Node d) \<noteq> None"
    and "pe_CapacityBytes (dec_PoolInstance d) \<noteq> None" "pe_AvailableBytes (dec_PoolInstance d) \<noteq> None"
    and eff: "ne_CPUCoresEffective (dec_Node d) = Some cpu" "ne_MemoryEffectiveMib (dec_Node d) = Some mem"
      "pe_AvailableBytesEffective (dec_PoolInstance d) = Some disk"
    and ex: "exact_int cpu" "exact_int mem" "exact_int disk"
      "exact_int (req_VCPUs req)" "exact_int (req_MemoryMiB req)" "exact_int (req_DiskBytes req)"
  shows "req_VCPUs req \<le> cpu \<and> req_MemoryMiB req \<le> mem \<and> (0 < req_DiskBytes req \<longrightarrow> req_DiskBytes req \<le> disk)"
proof -
  obtain r where r: "dec_Node d = row_Node r" "dec_PoolInstance d = row_Pool r"
    and fit: "candidateHasMetrics r req defaultResourcesConfig \<longrightarrow>
        fitsAllResources env r req defaultResourcesConfig = Some True"
    using assms(1) by (rule SchedulePlacement_chosenE) (auto simp: admissible_def admitted_def)
  have "candidateHasMetrics r req defaultResourcesConfig"
    using assms(2-7) eff r by (simp add: candidateHasMetrics_def Let_def)
  with fit have f: "fitsCPU r req defaultResourcesConfig = Some True"
    "fitsMemory env r req defaultResourcesConfig = Some True"
    "fitsDisk r req defaultResourcesConfig = Some True"
    by (simp_all add: fitsAllResources_def early_false_True)
  have one: "f64_mul (f64_of_int n) (Fin 1) = f64_of_int n" if "exact_int n" for n
    using that f64_of_rat_int [of n] by (simp add: exact_int_def f64_of_int_small)
  have zero: "f64_add (f64_of_int n) (f64_of_int 0) = f64_of_int n" if "exact_int n" for n
    using that f64_of_rat_int [of n] by (simp add: exact_int_def f64_of_int_small)
  have "req_VCPUs req \<le> cpu"
    using f(1) eff(1) r ex by (simp add: fitsCPU_def defaultResourcesConfig_def one not_less_exact Let_def)
  moreover have "req_MemoryMiB req \<le> mem"
    using f(2) eff(2) r ex
    by (simp add: fitsMemory_def defaultResourcesConfig_def MemOvercommitHeadroom_strict f64_le_def
        zero not_less_exact Let_def)
  moreover have "0 < req_DiskBytes req \<Longrightarrow> req_DiskBytes req \<le> disk"
    using f(3) eff(3) r ex by (simp add: fitsDisk_def defaultResourcesConfig_def one not_less_exact Let_def)
  ultimately show ?thesis by blast
qed

theorem default_config_no_overcommit_witness:
  "SchedulePlacement sampleEnv sampleQuerier sampleRequest
     \<lparr>pc_Algorithm = [], pc_Resources = defaultResourcesConfig\<rparr> = Inr sampleDecision \<and>
   (2 :: int) \<le> 4 \<and> (1024 :: int) \<le> 2048 \<and> (8 :: int) \<le> 12"
proof -
  have "req_VCPUs sampleRequest \<le> 4 \<and> req_MemoryMiB sampleRequest \<le> 2048 \<and>
      (0 < req_DiskBytes sampleRequest \<longrightarrow> req_DiskBytes sampleRequest \<le> 12)"
    by (rule default_config_no_overcommit [OF sample_decision [unfolded sampleConfig_def]])
      (simp_all add: sampleDecision_def sampleRow_def sampleRequest_def exact_int_def)
  then show ?thesis using sample_decision by (simp add: sampleRequest_def sampleConfig_def)
qed

end
