(* ===== verification/PlacementOptimal.thy ===== *)
theory PlacementOptimal
  imports PlacementProps
begin

text \<open>
  The score of the placement scheduler: scores are finite for every sane configuration, the
  winner is a minimum of the score with ties broken by lower-case node name, the decision does
  not depend on the order in which the store lists the candidates, and utilisation scores lie
  in the unit interval when no resource is overcommitted below its physical capacity.
\<close>

subsection \<open>Finite scores\<close>

definition fin_upto :: "nat \<Rightarrow> f64 \<Rightarrow> bool" where
  "fin_upto k v \<longleftrightarrow> (\<exists>y. v = Fin y \<and> \<bar>y\<bar> \<le> 2 ^ k)"

lemma fin_upto_not_nan: "fin_upto k v \<Longrightarrow> \<not> is_nan v"
  by (auto simp: fin_upto_def)

lemma fin_upto_mono: "fin_upto a v \<Longrightarrow> a \<le> b \<Longrightarrow> fin_upto b v"
  unfolding fin_upto_def
  using order_trans [OF _ power_increasing [of a b "2 :: rat"]] by fastforce

lemma round64_pow2: "k \<le> 1000 \<Longrightarrow> round64 (2 ^ k) = 2 ^ k"
  by (rule round64_exact [of _ 1 "int k"]) simp_all

lemma f64_of_rat_fin_upto:
  assumes "\<bar>x\<bar> \<le> 2 ^ k" "k \<le> 1000"
  shows "fin_upto k (f64_of_rat x)"
proof -
  have "(2 :: rat) ^ k \<le> 2 ^ 1023" using assms(2) by (intro power_increasing) simp_all
  then have "f64_of_rat x = Fin (round64 x)" using assms(1) by (intro f64_of_rat_Fin) linarith
  moreover have "round64 x \<le> 2 ^ k" "- round64 x \<le> 2 ^ k"
    using round64_mono [of x "2 ^ k"] round64_mono [of "- x" "2 ^ k"] assms
    by (simp_all add: round64_pow2 round64_minus)
  ultimately show ?thesis by (simp add: fin_upto_def abs_le_iff)
qed

lemma f64_of_int_fin_upto: "int64_range n \<Longrightarrow> fin_upto 63 (f64_of_int n)"
  unfolding f64_of_int_def
proof (rule f64_of_rat_fin_upto)
  assume "int64_range n"
  then have "\<bar>n\<bar> \<le> 2 ^ 63" by (auto simp: int64_range_def)
  then have "(of_int \<bar>n\<bar> :: rat) \<le> of_int (2 ^ 63)" by (rule of_int_le_iff [THEN iffD2])
  then show "\<bar>rat_of_int n\<bar> \<le> 2 ^ 63" by simp
qed simp

lemma f64_add_fin_upto:
  assumes "fin_upto k a" "fin_upto k b" "k < 1000"
  shows "fin_upto (Suc k) (f64_add a b)"
proof -
  obtain x y where "a = Fin x" "b = Fin y" "\<bar>x\<bar> \<le> 2 ^ k" "\<bar>y\<bar> \<le> 2 ^ k"
    using assms by (auto simp: fin_upto_def)
  moreover from this have "\<bar>x + y\<bar> \<le> 2 ^ Suc k"
    using abs_triangle_ineq [of x y] by simp
  ultimately show ?thesis using assms(3) by (simp add: f64_of_rat_fin_upto)
qed

lemma f64_div_fin_upto:
  assumes "fin_upto k a" "1 / 2 ^ j \<le> y" "k + j \<le> 1000"
  shows "fin_upto (k + j) (f64_div a (Fin y))"
proof -
  obtain x where x: "a = Fin x" "\<bar>x\<bar> \<le> 2 ^ k" using assms by (auto simp: fin_upto_def)
  have y: "0 < y" using assms(2) by (rule less_le_trans [rotated]) simp
  have "\<bar>x\<bar> * 1 \<le> 2 ^ k * (2 ^ j * y)"
    using x(2) assms(2) by (intro mult_mono) (simp_all add: field_simps)
  then have "\<bar>x / y\<bar> \<le> 2 ^ (k + j)"
    using y by (simp add: abs_divide power_add field_simps)
  with x y assms(3) show ?thesis by (simp add: f64_of_rat_fin_upto)
qed

text \<open>Ratios between \<open>2 ^ -500\<close> and \<open>2 ^ 500\<close>; every ratio an operator writes is near one.\<close>

definition sane_ratio :: "f64 \<Rightarrow> bool" where
  "sane_ratio v \<longleftrightarrow> (case v of Fin r \<Rightarrow> 1 / 2 ^ 500 \<le> r \<and> r \<le> 2 ^ 500 | _ \<Rightarrow> False)"

definition sane_config :: "ResourcesConfig \<Rightarrow> bool" where
  "sane_config cfg \<longleftrightarrow>
     sane_ratio (rc_OvercommitRatio (cfg_CPU cfg)) \<and> sane_ratio (rc_OvercommitRatio (cfg_Disk cfg))"

definition total_range :: "int option \<Rightarrow> bool" where
  "total_range t \<longleftrightarrow> (case t of None \<Rightarrow> True | Some n \<Rightarrow> int64_range n)"

definition row_in_range :: "PoolNodeRow \<Rightarrow> bool" where
  "row_in_range r \<longleftrightarrow> total_range (ne_CPUCoresTotal (row_Node r)) \<and> total_range (pe_CapacityBytes (row_Pool r))"

lemma computeUtil_fin:
  assumes "int64_range tot" "sane_ratio ratio"
  shows "fin_upto 563 (computeUtil tot eff need ratio)"
proof (cases "tot \<le> 0")
  case True
  then show ?thesis by (simp add: computeUtil_def fin_upto_def)
next
  case False
  obtain r where r: "ratio = Fin r" "1 / 2 ^ 500 \<le> r" "r \<le> 2 ^ 500"
    using assms(2) by (auto simp: sane_ratio_def split: f64.splits)
  obtain t where t: "f64_of_int tot = Fin t" "\<bar>t\<bar> \<le> 2 ^ 63"
    using f64_of_int_fin_upto [OF assms(1)] by (auto simp: fin_upto_def)
  have t1: "1 \<le> t"
    using t(1) False round64_ge_int [of 1 "of_int tot"]
    by (auto simp: f64_of_int_def f64_of_rat_def Let_def split: if_splits)
  have low: "1 / 2 ^ 500 \<le> t * r"
    using mult_mono [of 1 t "1 / 2 ^ 500" r] t1 r(2) by simp
  have "t * r \<le> 2 ^ 63 * 2 ^ 500"
    using t t1 r by (intro mult_mono) (auto intro: order_trans [rotated])
  then have up: "\<bar>t * r\<bar> \<le> 2 ^ 563"
    using low by (simp add: power_add [symmetric] abs_le_iff)
  have "f64_of_rat (t * r) = Fin (round64 (t * r))"
    using f64_of_rat_Fin [of "t * r"] up power_increasing [of 563 1023 "2 :: rat"] by simp
  moreover have "1 / 2 ^ 500 \<le> round64 (t * r)"
    using round64_mono [OF low] round64_exact [of "1 / 2 ^ 500" 1 "- 500"] by (simp add: pow2_def)
  ultimately show ?thesis
    using f64_div_fin_upto [OF f64_of_int_fin_upto [OF wrap64_range], of 500] t(1) r(1)
    by (auto simp: computeUtil_def fin_upto_def Let_def)
qed

lemma computeUtilCap_fin:
  assumes "int64_range capacity"
  shows "fin_upto 563 (computeUtilCap tot eff need capacity)"
proof (cases "capacity \<le> 0")
  case True
  then show ?thesis by (simp add: computeUtilCap_def fin_upto_def)
next
  case False
  obtain t where t: "f64_of_int capacity = Fin t"
    using f64_of_int_fin_upto [OF assms] by (auto simp: fin_upto_def)
  then have "1 / 2 ^ 0 \<le> t"
    using False round64_ge_int [of 1 "of_int capacity"]
    by (auto simp: f64_of_int_def f64_of_rat_def Let_def split: if_splits)
  then have "fin_upto 63 (f64_div (f64_of_int (wrap64 n)) (Fin t))" for n
    using f64_div_fin_upto [OF f64_of_int_fin_upto [OF wrap64_range], of 0 t] by simp
  then show ?thesis
    using t fin_upto_mono [of 63 _ 563] by (auto simp: computeUtilCap_def fin_upto_def Let_def)
qed

lemma addTerm_fin:
  "fin_upto k (fst acc) \<Longrightarrow> fin_upto k t \<Longrightarrow> k < 1000 \<Longrightarrow> fin_upto (Suc k) (fst (addTerm b t acc))"
  using f64_add_fin_upto [of k "fst acc" t] fin_upto_mono [of k _ "Suc k"]
  by (simp add: addTerm_def)

lemma utilizationScore_fin:
  assumes "row_in_range r" "sane_config cfg"
  shows "fin_upto 566 (fst (utilizationScore env r req cfg))"
proof -
  define c where "c = (case (ne_CPUCoresTotal (row_Node r), ne_CPUCoresEffective (row_Node r)) of
      (Some tot, Some eff) \<Rightarrow> addTerm (rc_Enabled (cfg_CPU cfg))
        (computeUtil tot eff (req_VCPUs req) (rc_OvercommitRatio (cfg_CPU cfg))) (Fin 0, 0)
    | _ \<Rightarrow> (Fin 0, 0))"
  define m where "m = (case (ne_MemoryTotalMib (row_Node r), ne_MemoryEffectiveMib (row_Node r)) of
      (Some tot, Some eff) \<Rightarrow> addTerm (mc_Enabled (cfg_Memory cfg))
        (computeUtilCap tot eff (req_MemoryMiB req)
          (wrap64 (tot + MemOvercommitHeadroom env (row_Node r) (cfg_Memory cfg)))) c
    | _ \<Rightarrow> c)"
  have z: "fin_upto k (Fin 0)" for k by (simp add: fin_upto_def)
  have cpu: "fin_upto 564 (fst c)"
    using assms addTerm_fin [of 563 "(Fin 0, 0)"] z
    by (auto simp: c_def row_in_range_def total_range_def sane_config_def computeUtil_fin split: option.split)
  have mem: "fin_upto 565 (fst m)"
    using cpu addTerm_fin [of 564 c] fin_upto_mono [of 563 _ 564] fin_upto_mono [of 564 _ 565]
    by (auto simp: m_def computeUtilCap_fin wrap64_range split: option.split)
  have eq: "utilizationScore env r req cfg =
      (case (pe_CapacityBytes (row_Pool r), pe_AvailableBytesEffective (row_Pool r)) of
         (Some tot, Some eff) \<Rightarrow> addTerm (rc_Enabled (cfg_Disk cfg) \<and> 0 < req_DiskBytes req)
           (computeUtil tot eff (req_DiskBytes req) (rc_OvercommitRatio (cfg_Disk cfg))) m
       | _ \<Rightarrow> m)"
    unfolding utilizationScore_def Let_def c_def m_def by (rule refl)
  show ?thesis
    using mem addTerm_fin [of 565 m] fin_upto_mono [of 563 _ 565] fin_upto_mono [of 565 _ 566] assms
    by (auto simp: eq computeUtil_fin row_in_range_def total_range_def sane_config_def split: option.split)
qed

lemma utilizationScore_factors: "snd (utilizationScore env r req cfg) \<in> {0, 1, 2, 3}"
  by (auto simp: utilizationScore_def addTerm_def Let_def split: option.split prod.split)

lemma scoreCandidates_fin:
  assumes "scoreCandidates env q fits req cfg alg = Inr scored" "sane_config (pc_Resources cfg)"
    and "\<forall>c\<in>set fits. row_in_range (cand_row c)"
    and cnt: "\<forall>i n. CountRunningVMsByNode q i = Inr n \<longrightarrow> int64_range n"
    and "s \<in> set scored"
  shows "\<not> is_nan (sc_score s)"
proof -
  have one: "fin_upto 63 (Fin 1)" by (simp add: fin_upto_def)
  have count: "\<not> is_nan (sc_score x)" if "countScore q c = Inr x" for c x
    using that cnt fin_upto_not_nan [OF f64_add_fin_upto [OF one f64_of_int_fin_upto]]
    by (auto simp: countScore_def and_then_Inr_iff)
  have util: "\<not> is_nan (f64_div (fst u) (f64_of_int (snd u)))"
    if "u = utilizationScore env r req (pc_Resources cfg)" "snd u \<noteq> 0" "row_in_range r" for u r
  proof -
    have "snd u \<in> {1, 2, 3}" using utilizationScore_factors [of env r req] that by auto
    then obtain y where y: "f64_of_int (snd u) = Fin y" "1 / 2 ^ 0 \<le> y" by (auto simp: f64_of_int_small)
    show ?thesis
      unfolding y(1)
      using utilizationScore_fin [OF that(3) assms(2)] y(2) that(1)
      by (intro fin_upto_not_nan [OF f64_div_fin_upto [of 566 _ 0]]) simp_all
  qed
  have aware: "\<not> is_nan (sc_score x)"
    if "scoreOneResourceAware env q req (pc_Resources cfg) c = Inr x" "c \<in> set fits" for c x
    using that assms(3) count util [OF refl, of "cand_row c"]
    by (auto simp: scoreOneResourceAware_def split: if_splits prod.splits)
  have step: "\<exists>c\<in>set fits. f c = Inr s" if "map_res f fits = Inr scored" for f
    using that assms(5) unfolding map_res_Inr by (induction rule: list_all2_induct) auto
  show ?thesis
  proof (cases "alg = AlgorithmResourceAware")
    case True
    with assms(1) obtain c where "c \<in> set fits" "scoreOneResourceAware env q req (pc_Resources cfg) c = Inr s"
      using step by (auto simp: scoreCandidates_def scoreResourceAware_def)
    then show ?thesis by (rule aware [rotated])
  next
    case False
    with assms(1) step obtain n where "int64_range n" "sc_score s = f64_of_int n"
      using cnt by (fastforce simp: scoreCandidates_def scoreLeastVMCount_def and_then_Inr_iff split: if_splits)
    then show ?thesis using fin_upto_not_nan [OF f64_of_int_fin_upto] by simp
  qed
qed

subsection \<open>The decision is optimal\<close>

definition in_range :: "Querier \<Rightarrow> PoolNodeRow list \<Rightarrow> bool" where
  "in_range q rows \<longleftrightarrow> (\<forall>r\<in>set rows. row_in_range r) \<and>
     (\<forall>i n. CountRunningVMsByNode q i = Inr n \<longrightarrow> int64_range n)"

lemma scored_not_nan:
  assumes "scoreCandidates env q (candidatesOf env q req (pc_Resources cfg) rows') req cfg alg = Inr scored"
    and "sane_config (pc_Resources cfg)" "in_range q rows" "set rows' \<subseteq> set rows" "s \<in> set scored"
  shows "\<not> is_nan (sc_score s)"
  using scoreCandidates_fin [OF assms(1,2) _ _ assms(5)] assms(3,4) by (auto simp: in_range_def)

text \<open>
  C4. Under a sane configuration the decision is the best admissible candidate: no scored
  candidate has a smaller score, and among those of equal score none has a lexicographically
  smaller lower-case name.
\<close>

theorem SchedulePlacement_optimal:
  assumes "SchedulePlacement env q req cfg = Inr d"
    and "ListEligiblePoolsByName q (req_PoolName req) = Inr rows"
    and "sane_config (pc_Resources cfg)" "in_range q rows"
  shows "\<exists>rows' scored w. narrowEligible env q req rows = Inr rows' \<and>
      scoreCandidates env q (candidatesOf env q req (pc_Resources cfg) rows') req cfg
        (effectiveAlgorithm cfg) = Inr scored \<and>
      w \<in> set scored \<and> dec_Node d = row_Node (cand_row (sc_candidate w)) \<and>
      dec_PoolInstance d = row_Pool (cand_row (sc_candidate w)) \<and>
      (\<forall>s\<in>set scored. f64_lt (sc_score w) (sc_score s) \<or>
        sc_score w = sc_score s \<and> to_lower (sc_name w) \<le> to_lower (sc_name s))"
proof -
  obtain rows1 rows' scored w where
    1: "ListEligiblePoolsByName q (req_PoolName req) = Inr rows1" "rows1 \<noteq> []"
       "narrowEligible env q req rows1 = Inr rows'" and
    2: "scoreCandidates env q (candidatesOf env q req (pc_Resources cfg) rows') req cfg
          (effectiveAlgorithm cfg) = Inr scored" "pickWinner scored = Some w"
       "dec_Node d = row_Node (cand_row (sc_candidate w))"
       "dec_PoolInstance d = row_Pool (cand_row (sc_candidate w))"
       "cand_row (sc_candidate w) \<in> set rows'"
       "admissible env q req (pc_Resources cfg) (cand_row (sc_candidate w))"
    using assms(1) by (rule SchedulePlacement_InrE)
  have rows: "rows1 = rows" using 1 assms(2) by simp
  have nn: "\<forall>s\<in>set scored. \<not> is_nan (sc_score s)"
    using scored_not_nan [OF 2(1) assms(3,4)] narrowEligible_Inr(2) [OF 1(3,2)] rows by blast
  have "f64_lt (sc_score w) (sc_score s) \<or>
      sc_score w = sc_score s \<and> to_lower (sc_name w) \<le> to_lower (sc_name s)"
    if "s \<in> set scored" for s
    using pickWinner_min [OF 2(2) nn that] nn that pickWinner_in [OF 2(2)]
      f64_lt_total [of "sc_score w" "sc_score s"]
    by (auto simp: winner_less_iff)
  then show ?thesis using 1 2 rows pickWinner_in [OF 2(2)] by blast
qed

lemma sample_sane: "sane_config (pc_Resources sampleConfig)" "in_range sampleQuerier sampleRows"
  by (simp_all add: sane_config_def sane_ratio_def sampleConfig_def defaultResourcesConfig_def
      in_range_def sampleQuerier_def sampleRows_def row_in_range_def total_range_def sampleRow_def
      int64_range_def)

lemma sample_rows: "ListEligiblePoolsByName sampleQuerier (req_PoolName sampleRequest) = Inr sampleRows"
  by (simp add: sampleQuerier_def)

theorem SchedulePlacement_optimal_witness:
  "\<exists>rows' scored w. narrowEligible sampleEnv sampleQuerier sampleRequest sampleRows = Inr rows' \<and>
      scoreCandidates sampleEnv sampleQuerier
        (candidatesOf sampleEnv sampleQuerier sampleRequest (pc_Resources sampleConfig) rows')
        sampleRequest sampleConfig (effectiveAlgorithm sampleConfig) = Inr scored \<and>
      w \<in> set scored \<and> dec_Node sampleDecision = row_Node (cand_row (sc_candidate w)) \<and>
      dec_PoolInstance sampleDecision = row_Pool (cand_row (sc_candidate w)) \<and>
      (\<forall>s\<in>set scored. f64_lt (sc_score w) (sc_score s) \<or>
        sc_score w = sc_score s \<and> to_lower (sc_name w) \<le> to_lower (sc_name s))"
  by (rule SchedulePlacement_optimal [OF sample_decision sample_rows sample_sane])

subsection \<open>The decision does not depend on the listing order\<close>

definition node_name :: "PoolNodeRow \<Rightarrow> string" where
  "node_name r = to_lower (ne_Name (row_Node r))"

lemma map_res_perm:
  assumes "mset xs = mset ys" "map_res f xs = Inr us"
  shows "\<exists>vs. map_res f ys = Inr vs \<and> mset vs = mset us"
proof -
  have "mset us = image_mset (\<lambda>x. projr (f x)) (mset xs)" "\<forall>x\<in>set xs. \<exists>y. f x = Inr y"
    using assms(2) unfolding map_res_Inr by (induction rule: list_all2_induct) auto
  moreover have "set xs = set ys" using assms(1) by (metis set_mset_mset)
  moreover have "\<forall>x\<in>set zs. \<exists>y. f x = Inr y \<Longrightarrow> map_res f zs = Inr (map (\<lambda>x. projr (f x)) zs)" for zs
    by (induction zs) auto
  ultimately show ?thesis using assms(1) by simp
qed

lemma find_unique:
  assumes "mset xs = mset ys" "distinct (map g xs)" "\<And>x y. P x \<Longrightarrow> P y \<Longrightarrow> g x = g y"
  shows "find P xs = find P ys"
proof -
  have set: "set xs = set ys" using assms(1) by (metis set_mset_mset)
  have inj: "x = y" if "x \<in> set xs" "y \<in> set xs" "P x" "P y" for x y
    using assms(2,3) that by (metis distinct_map inj_onD)
  show ?thesis
  proof (cases "find P xs")
    case None
    then show ?thesis using set by (metis find_None_iff)
  next
    case (Some x)
    then have "x \<in> set xs" "P x" by (auto simp: find_Some_iff in_set_conv_nth)
    then obtain y where "find P ys = Some y" using set by (metis find_None_iff not_None_eq)
    moreover from this have "y \<in> set xs" "P y" using set by (auto simp: find_Some_iff in_set_conv_nth)
    ultimately show ?thesis using inj Some \<open>x \<in> set xs\<close> \<open>P x\<close> by metis
  qed
qed

lemma excludeNode_mset: "mset xs = mset ys \<Longrightarrow> mset (excludeNode xs i) = mset (excludeNode ys i)"
  by (simp add: excludeNode_def)

lemma narrowEligible_perm:
  assumes "mset rows = mset rows2" "distinct (map node_name rows)"
    and "narrowEligible env q req rows = Inr rows'"
  shows "\<exists>rows2'. narrowEligible env q2 req rows2 = Inr rows2' \<and> mset rows' = mset rows2'"
proof -
  let ?hint = "\<lambda>xs. case req_NodeHint req of None \<Rightarrow> Inr xs | Some h \<Rightarrow> filterByNodeHint env xs h"
  obtain xs where xs: "?hint rows = Inr xs" using assms(3) by (auto simp: narrowEligible_def and_then_Inr_iff)
  have "filterByNodeHint env rows h = filterByNodeHint env rows2 h" for h
    using find_unique [OF assms(1,2), of "\<lambda>r. equal_fold (ne_Name (row_Node r)) h"]
    by (simp add: filterByNodeHint_def equal_fold_def node_name_def)
  with xs assms(1) obtain ys where ys: "?hint rows2 = Inr ys" "mset xs = mset ys"
    by (cases "req_NodeHint req") auto
  have ex: "mset (excludeNode xs i) = mset (excludeNode ys i)" for i using ys(2) by (rule excludeNode_mset)
  then have "excludeNode xs i = [] \<longleftrightarrow> excludeNode ys i = []" for i by (metis mset_zero_iff)
  with assms(3) xs ys ex show ?thesis
    by (cases "req_ExcludeNodeID req") (auto simp: narrowEligible_def Let_def split: if_splits)
qed

lemma scoreCandidates_perm:
  assumes "mset fits = mset fits2" "scoreCandidates env q fits req cfg alg = Inr scored"
  shows "\<exists>scored2. scoreCandidates env q fits2 req cfg alg = Inr scored2 \<and> mset scored2 = mset scored"
proof -
  consider (aware) "alg = AlgorithmResourceAware" | (count) "alg \<noteq> AlgorithmResourceAware" "alg = AlgorithmLeastVMCount"
    using assms(2) by (auto simp: scoreCandidates_def split: if_splits)
  then show ?thesis
  proof cases
    case aware
    with assms(2) show ?thesis
      unfolding scoreCandidates_def scoreResourceAware_def by (simp add: map_res_perm [OF assms(1)])
  next
    case count
    with assms(2) show ?thesis
      unfolding scoreCandidates_def scoreLeastVMCount_def by (simp add: map_res_perm [OF assms(1)])
  qed
qed

lemma winner_total:
  assumes "\<forall>s\<in>S. \<not> is_nan (sc_score s)" "inj_on (\<lambda>s. to_lower (sc_name s)) S"
  shows "strict_total_order winner_less S"
proof -
  have w: "strict_weak_order winner_less S"
  proof unfold_locales
    fix x y z
    show "x \<in> S \<Longrightarrow> \<not> winner_less x x" using winner.less_irrefl [of x] assms(1) by simp
    show "x \<in> S \<Longrightarrow> y \<in> S \<Longrightarrow> z \<in> S \<Longrightarrow> winner_less x y \<Longrightarrow> winner_less y z \<Longrightarrow> winner_less x z"
      using winner.less_trans [of x y z] assms(1) by simp
    show "x \<in> S \<Longrightarrow> y \<in> S \<Longrightarrow> z \<in> S \<Longrightarrow> winner_less x z \<Longrightarrow> winner_less x y \<or> winner_less y z"
      using winner.less_cotrans [of x y z] assms(1) by simp
  qed
  have "winner_less x y \<or> winner_less y x" if "x \<in> S" "y \<in> S" "x \<noteq> y" for x y
    using that assms f64_lt_total [of "sc_score x" "sc_score y"] inj_onD [OF assms(2), of x y]
    by (auto simp: winner_less_iff not_less_iff_gr_or_eq)
  with w show ?thesis by (simp add: strict_total_order_def strict_total_order_axioms_def)
qed

lemma pickWinner_perm:
  assumes "mset scored2 = mset scored" "\<forall>s\<in>set scored. \<not> is_nan (sc_score s)"
    and "inj_on (\<lambda>s. to_lower (sc_name s)) (set scored)"
  shows "pickWinner scored2 = pickWinner scored"
  using strict_total_order.sort_stable_perm [OF winner_total [OF assms(2,3)], of scored scored2] assms(1)
  by (simp add: pickWinner_def)

lemma scored_names_inj:
  assumes "scoreCandidates env q (candidatesOf env q req (pc_Resources cfg) rows') req cfg alg = Inr scored"
    and "distinct (map node_name rows')"
  shows "inj_on (\<lambda>s. to_lower (sc_name s)) (set scored)"
proof -
  have "map (\<lambda>s. cand_row (sc_candidate s)) scored = filter (admissible env q req (pc_Resources cfg)) rows'"
    using arg_cong [OF scoreCandidates_candidates [OF assms(1)], of "map cand_row"] by (simp add: o_def)
  then have "map (\<lambda>s. to_lower (sc_name s)) scored =
      map node_name (filter (admissible env q req (pc_Resources cfg)) rows')"
    by (metis (no_types, lifting) list.map_comp map_eq_conv node_name_def o_apply)
  then have "distinct (map (\<lambda>s. to_lower (sc_name s)) scored)"
    using assms(2) by (metis distinct_map_filter)
  then show ?thesis by (simp add: distinct_map)
qed

lemma narrowEligible_distinct:
  assumes "narrowEligible env q req rows = Inr rows'" "distinct (map node_name rows)"
  shows "distinct (map node_name rows')"
proof -
  obtain xs where xs: "(case req_NodeHint req of None \<Rightarrow> Inr rows
      | Some h \<Rightarrow> filterByNodeHint env rows h) = Inr xs"
    and x: "rows' = xs \<or> (\<exists>i. rows' = excludeNode xs i)"
    using assms(1) unfolding narrowEligible_def and_then_Inr_iff
    by (auto simp: Let_def split: option.splits if_splits)
  have "distinct (map node_name xs)"
    using xs assms(2) by (cases "req_NodeHint req") (auto dest!: filterByNodeHint_Inr)
  with x show ?thesis by (auto simp: excludeNode_def distinct_map_filter)
qed

lemma filterByNetworkReadiness_ok:
  "(\<exists>x. filterByNetworkReadiness q cs ids = Inr x) \<longleftrightarrow>
     (\<forall>c\<in>set cs. \<exists>sts. ListNetworkNodeStatusByNode q (ne_ID (row_Node (cand_row c))) = Inr sts)"
proof (induction cs)
  case (Cons c cs)
  have *: "(\<exists>x. (if b then Inr (f y) else Inr (g y)) = Inr x)" for b f g y by simp
  show ?case
    using Cons.IH
    by (cases "ListNetworkNodeStatusByNode q (ne_ID (row_Node (cand_row c)))";
        cases "filterByNetworkReadiness q cs ids") (auto simp: Let_def split: prod.split)
qed simp

lemma applyNetworkFilter_perm:
  assumes "mset fits = mset fits2" "applyNetworkFilter q fits req = Inr f"
  shows "\<exists>f2. applyNetworkFilter q fits2 req = Inr f2 \<and> mset f = mset f2"
proof (cases "req_NetworkIDs req = []")
  case True
  with assms show ?thesis by (simp add: applyNetworkFilter_def)
next
  case False
  let ?ready = "filter (\<lambda>c. networksReady q (req_NetworkIDs req) (cand_row c))"
  have f: "f = ?ready fits" "f \<noteq> []"
    using assms(2) False applyNetworkFilter_Inr(1) [OF assms(2)]
    by (auto simp: applyNetworkFilter_def and_then_Inr_iff split: if_splits)
  have "set fits = set fits2" using assms(1) by (metis set_mset_mset)
  then obtain sv det where r: "filterByNetworkReadiness q fits2 (req_NetworkIDs req) = Inr (sv, det)"
    using filterByNetworkReadiness_ok [of q] assms(2) False
    by (auto simp: applyNetworkFilter_def and_then_Inr_iff) (metis surj_pair)
  have m: "mset (?ready fits) = mset (?ready fits2)" using assms(1) by simp
  with f have "?ready fits2 \<noteq> []" by (metis mset_zero_iff)
  with r m f False show ?thesis
    using filterByNetworkReadiness_survivors [OF r] by (simp add: applyNetworkFilter_def)
qed

lemma placeAmong_perm:
  assumes "placeAmong env q req cfg alg rows = Inr d" "mset rows = mset rows2"
    and nn: "\<And>scored s. scoreCandidates env q (candidatesOf env q req (pc_Resources cfg) rows) req cfg alg
      = Inr scored \<Longrightarrow> s \<in> set scored \<Longrightarrow> \<not> is_nan (sc_score s)"
    and dist: "distinct (map node_name rows)"
  shows "placeAmong env q req cfg alg rows2 = Inr d"
proof -
  let ?fits = "\<lambda>xs. map (mkCandidate req (pc_Resources cfg)) (filter (admitted env req (pc_Resources cfg)) xs)"
  obtain f scored w where f: "applyNetworkFilter q (?fits rows) req = Inr f" "?fits rows \<noteq> []"
    and s: "scoreCandidates env q f req cfg alg = Inr scored"
    and w: "pickWinner scored = Some w" "d = \<lparr>dec_Node = row_Node (cand_row (sc_candidate w)),
        dec_PoolInstance = row_Pool (cand_row (sc_candidate w))\<rparr>"
    using assms(1)
    by (auto simp: placeAmong_def filterByResources_eq and_then_Inr_iff split: if_splits option.splits)
  have fe: "f = candidatesOf env q req (pc_Resources cfg) rows"
    using applyNetworkFilter_Inr(1) [OF f(1)]
    by (auto simp: admissible_def filter_map o_def conj_commute cong: filter_cong split: if_splits)
  have m: "mset (?fits rows) = mset (?fits rows2)" using assms(2) by simp
  obtain f2 where f2: "applyNetworkFilter q (?fits rows2) req = Inr f2" "mset f = mset f2"
    using applyNetworkFilter_perm [OF m f(1)] by blast
  obtain scored2 where s2: "scoreCandidates env q f2 req cfg alg = Inr scored2" "mset scored2 = mset scored"
    using scoreCandidates_perm [OF f2(2) s] by blast
  have "pickWinner scored2 = Some w"
    using pickWinner_perm [OF s2(2)] nn scored_names_inj [OF s [unfolded fe] dist] s fe w(1) by auto
  moreover have "?fits rows2 \<noteq> []" using m f(2) by (metis mset_zero_iff)
  ultimately show ?thesis
    using f2 s2 w by (simp add: placeAmong_def filterByResources_eq)
qed

lemma placeAmong_querier:
  "placeAmong env (q\<lparr>ListEligiblePoolsByName := l\<rparr>) req cfg alg rows = placeAmong env q req cfg alg rows"
proof -
  have n: "filterByNetworkReadiness (q\<lparr>ListEligiblePoolsByName := l\<rparr>) cs ids = filterByNetworkReadiness q cs ids"
    for cs ids by (induction cs) simp_all
  have c: "countScore (q\<lparr>ListEligiblePoolsByName := l\<rparr>) = countScore q"
    by (rule ext) (simp add: countScore_def)
  have o1: "scoreOneResourceAware env (q\<lparr>ListEligiblePoolsByName := l\<rparr>) = scoreOneResourceAware env q"
    by (intro ext) (simp add: scoreOneResourceAware_def c split: prod.split)
  have a: "applyNetworkFilter (q\<lparr>ListEligiblePoolsByName := l\<rparr>) = applyNetworkFilter q"
    by (intro ext) (simp add: applyNetworkFilter_def n)
  have s: "scoreCandidates env (q\<lparr>ListEligiblePoolsByName := l\<rparr>) = scoreCandidates env q"
    by (intro ext) (simp add: scoreCandidates_def scoreResourceAware_def scoreLeastVMCount_def o1)
  show ?thesis unfolding placeAmong_def a s by (rule refl)
qed

text \<open>
  C23. The decision does not depend on the order in which the store lists the candidates: when
  node names are distinct up to case, a query that returns the same rows in another order
  leads to the same decision.
\<close>

theorem SchedulePlacement_order_independent:
  assumes "SchedulePlacement env q req cfg = Inr d"
    and "ListEligiblePoolsByName q (req_PoolName req) = Inr rows"
    and "sane_config (pc_Resources cfg)" "in_range q rows" "distinct (map node_name rows)"
    and "mset rows = mset rows2"
  shows "SchedulePlacement env (q\<lparr>ListEligiblePoolsByName := \<lambda>_. Inr rows2\<rparr>) req cfg = Inr d"
proof -
  let ?q = "q\<lparr>ListEligiblePoolsByName := \<lambda>_. Inr rows2\<rparr>"
  obtain rows' where 1: "req_PoolName req \<noteq> []" "rows \<noteq> []" "narrowEligible env q req rows = Inr rows'"
    and p: "placeAmong env q req cfg (effectiveAlgorithm cfg) rows' = Inr d"
    using assms(1,2)
    by (auto simp: SchedulePlacement_def and_then_Inr_iff effectiveAlgorithm_def Let_def split: if_splits)
  obtain rows2' where 2: "narrowEligible env ?q req rows2 = Inr rows2'" "mset rows' = mset rows2'"
    using narrowEligible_perm [OF assms(6,5) 1(3)] by blast
  have "placeAmong env q req cfg (effectiveAlgorithm cfg) rows2' = Inr d"
    using p 2(2)
  proof (rule placeAmong_perm)
    show "distinct (map node_name rows')" using narrowEligible_distinct [OF 1(3) assms(5)] .
    show "\<not> is_nan (sc_score s)"
      if "scoreCandidates env q (candidatesOf env q req (pc_Resources cfg) rows') req cfg
            (effectiveAlgorithm cfg) = Inr scored" "s \<in> set scored" for scored s
      using scored_not_nan [OF that(1) assms(3,4) _ that(2)] narrowEligible_Inr(2) [OF 1(3,2)] by blast
  qed
  moreover have "rows2 \<noteq> []" using 1(2) assms(6) by (metis mset_zero_iff)
  ultimately show ?thesis
    using 1(1) 2(1) by (simp add: SchedulePlacement_def effectiveAlgorithm_def placeAmong_querier)
qed

theorem SchedulePlacement_order_independent_witness:
  "SchedulePlacement sampleEnv (sampleQuerier\<lparr>ListEligiblePoolsByName := \<lambda>_. Inr (rev sampleRows)\<rparr>)
     sampleRequest sampleConfig = Inr sampleDecision"
proof (rule SchedulePlacement_order_independent [OF sample_decision sample_rows sample_sane])
  show "distinct (map node_name sampleRows)" by code_simp
qed simp

end
