(* ===== verification/PlacementBounds.thy ===== *)
theory PlacementBounds
  imports PlacementOptimal
begin

text \<open>
  The placement section of the control-plane configuration (\<^verbatim>\<open>internal/config/api.go\<close>) and
  what a configuration accepted by \<^verbatim>\<open>Validate\<close> guarantees: bounds on the memory headroom and on
  the utilisation score, and the two places where the guarantee stops.
\<close>

subsection \<open>Configuration and validation\<close>

record PressureConditionConfig =
  pcc_Enabled :: bool
  pcc_ThresholdPercent :: int
  pcc_ConsecutiveRequired :: int

record PressureConfig =
  prc_Memory :: PressureConditionConfig
  prc_SystemDisk :: PressureConditionConfig
  prc_Disk :: PressureConditionConfig

record PlacementSection =
  ps_Algorithm :: string
  ps_Resources :: ResourcesConfig
  ps_Pressure :: PressureConfig

datatype config_err =
    UnknownPlacementAlgorithm string
  | RatioNotPositive string
  | MemoryRatioBelowOne string
  | ZramFloorNegative string
  | ZramConfidenceOutOfRange string
  | ThresholdOutOfRange string
  | ConsecutiveTooSmall string

definition defaultPressureConfig :: PressureConfig where
  "defaultPressureConfig =
     \<lparr>prc_Memory = \<lparr>pcc_Enabled = True, pcc_ThresholdPercent = 10, pcc_ConsecutiveRequired = 3\<rparr>,
      prc_SystemDisk = \<lparr>pcc_Enabled = True, pcc_ThresholdPercent = 10, pcc_ConsecutiveRequired = 3\<rparr>,
      prc_Disk = \<lparr>pcc_Enabled = True, pcc_ThresholdPercent = 15, pcc_ConsecutiveRequired = 1\<rparr>\<rparr>"

definition PressureConditionConfig_validate :: "PressureConditionConfig \<Rightarrow> string \<Rightarrow> config_err + unit" where
  "PressureConditionConfig_validate p name =
     (if pcc_ThresholdPercent p < 1 \<or> pcc_ThresholdPercent p > 99 then Inl (ThresholdOutOfRange name)
      else if pcc_ConsecutiveRequired p < 1 then Inl (ConsecutiveTooSmall name)
      else Inr ())"

definition PressureConfig_Validate :: "PressureConfig \<Rightarrow> config_err + unit" where
  "PressureConfig_Validate p =
     and_then (PressureConditionConfig_validate (prc_Memory p) ''memory'') (\<lambda>_.
     and_then (PressureConditionConfig_validate (prc_SystemDisk p) ''system_disk'') (\<lambda>_.
       PressureConditionConfig_validate (prc_Disk p) ''disk''))"

definition ResourceConfig_validate :: "ResourceConfig \<Rightarrow> string \<Rightarrow> config_err + unit" where
  "ResourceConfig_validate r name =
     (if f64_le (rc_OvercommitRatio r) (Fin 0) then Inl (RatioNotPositive name) else Inr ())"

definition MemoryResourceConfig_validate :: "MemoryResourceConfig \<Rightarrow> string \<Rightarrow> config_err + unit" where
  "MemoryResourceConfig_validate c name =
     (if f64_lt (mc_OvercommitRatio c) (Fin 1) then Inl (MemoryRatioBelowOne name)
      else if mc_OvercommitZramFloorMib c < 0 then Inl (ZramFloorNegative name)
      else if f64_le (mc_OvercommitZramConfidence c) (Fin 0) \<or> f64_lt (Fin 1) (mc_OvercommitZramConfidence c)
      then Inl (ZramConfidenceOutOfRange name)
      else Inr ())"

definition ResourcesConfig_Validate :: "ResourcesConfig \<Rightarrow> config_err + unit" where
  "ResourcesConfig_Validate r =
     and_then (ResourceConfig_validate (cfg_CPU r) ''cpu'') (\<lambda>_.
     and_then (MemoryResourceConfig_validate (cfg_Memory r) ''memory'') (\<lambda>_.
       ResourceConfig_validate (cfg_Disk r) ''disk''))"

definition PlacementConfig_Validate :: "PlacementSection \<Rightarrow> config_err + unit" where
  "PlacementConfig_Validate p =
     (if ps_Algorithm p = [] \<or> ps_Algorithm p = ''resource_aware'' \<or> ps_Algorithm p = ''least_vm_count''
      then and_then (ResourcesConfig_Validate (ps_Resources p)) (\<lambda>_. PressureConfig_Validate (ps_Pressure p))
      else Inl (UnknownPlacementAlgorithm (ps_Algorithm p)))"

text \<open>The warnings without their wording: the resource and whether the ratio is extreme.\<close>

datatype placement_warning = Overcommit string bool | AllDimensionsDisabled

definition appendOvercommit ::
    "string \<Rightarrow> bool \<Rightarrow> f64 \<Rightarrow> placement_warning list \<Rightarrow> placement_warning list" where
  "appendOvercommit name enabled ratio out =
     (if \<not> enabled \<or> f64_le ratio (Fin 1) then out
      else out @ [Overcommit name (f64_lt (Fin 2) ratio)])"

definition PlacementConfig_Warnings :: "PlacementSection \<Rightarrow> placement_warning list" where
  "PlacementConfig_Warnings p =
     (let r = ps_Resources p;
          out = appendOvercommit ''cpu'' (rc_Enabled (cfg_CPU r)) (rc_OvercommitRatio (cfg_CPU r)) [];
          out = appendOvercommit ''memory'' (mc_Enabled (cfg_Memory r)) (mc_OvercommitRatio (cfg_Memory r)) out;
          out = appendOvercommit ''disk'' (rc_Enabled (cfg_Disk r)) (rc_OvercommitRatio (cfg_Disk r)) out
      in if \<not> rc_Enabled (cfg_CPU r) \<and> \<not> mc_Enabled (cfg_Memory r) \<and> \<not> rc_Enabled (cfg_Disk r)
         then out @ [AllDimensionsDisabled] else out)"

subsection \<open>What validation guarantees\<close>

lemma f64_of_rat_floor:
  assumes "0 \<le> x" "x \<le> of_int n" "n \<le> 2 ^ 53"
  shows "\<exists>y. f64_of_rat x = Fin y \<and> 0 \<le> y \<and> y \<le> of_int n"
proof -
  have n: "0 \<le> n" using assms(1,2) by (metis of_int_0_le_iff order_trans)
  have "of_int n \<le> (of_int (2 ^ 53) :: rat)" using assms(3) by (rule of_int_le_iff [THEN iffD2])
  then have "\<bar>x\<bar> \<le> 2 ^ 53" using assms(1,2) by simp
  then have "\<bar>x\<bar> \<le> 2 ^ 1023" using power_increasing [of 53 1023 "2 :: rat"] by linarith
  then have "f64_of_rat x = Fin (round64 x)" by (rule f64_of_rat_Fin)
  then show ?thesis
    using round64_nonneg [OF assms(1)] round64_le_int [OF assms(2)] n assms(3) by auto
qed

lemma f64_to_int64_bounds:
  assumes "0 \<le> y" "y \<le> of_int n" "n \<le> 2 ^ 53"
  shows "0 \<le> f64_to_int64 (Fin y) \<and> f64_to_int64 (Fin y) \<le> n"
proof -
  have "0 \<le> \<lfloor>y\<rfloor>" "\<lfloor>y\<rfloor> \<le> n" using assms(1,2) by (simp_all add: floor_le_iff)
  then show ?thesis using assms by (simp add: trunc_rat_def Let_def)
qed

lemma f64_min_Fin: "f64_min (Fin x) (Fin y) = Fin (min x y)"
  by (simp add: f64_min_def min_def)

lemma f64_min_Inf: "f64_min (Inf False) (Fin y) = Fin y"
  by (simp add: f64_min_def)

lemma f64_of_rat_nonneg:
  assumes "0 \<le> x" "x \<le> 2 ^ k" "k \<le> 1000"
  shows "\<exists>y. f64_of_rat x = Fin y \<and> 0 \<le> y \<and> y \<le> 2 ^ k"
proof -
  have "fin_upto k (f64_of_rat x)" using assms by (intro f64_of_rat_fin_upto) simp_all
  then show ?thesis
    using round64_nonneg [OF assms(1)]
    by (auto simp: fin_upto_def f64_of_rat_def Let_def split: if_splits)
qed

text \<open>The operator's ceiling: finite, not negative, and at most the total when the ratio is at most two.\<close>

lemma operatorCeil_bounds:
  assumes "1 \<le> r" "r \<le> 2 ^ 500" "0 \<le> tot" "tot \<le> 2 ^ 53"
  shows "\<exists>y. f64_mul (f64_of_int tot) (f64_sub (Fin r) (Fin 1)) = Fin y \<and> 0 \<le> y \<and>
    (r \<le> 2 \<longrightarrow> y \<le> of_int tot)"
proof -
  obtain s where s: "f64_of_rat (r - 1) = Fin s" "0 \<le> s" "s \<le> 2 ^ 500"
    using f64_of_rat_nonneg [of "r - 1" 500] assms(1,2) by auto
  have s1: "r \<le> 2 \<Longrightarrow> s \<le> 1"
    using f64_of_rat_floor [of "r - 1" 1] assms(1) s(1) by auto
  have t: "f64_of_int tot = Fin (of_int tot)" using assms by (simp add: f64_of_int_small)
  have tot: "(of_int tot :: rat) \<le> 2 ^ 53" using of_int_le_iff [of tot "2 ^ 53", THEN iffD2, OF assms(4)] by simp
  have "of_int tot * s \<le> 2 ^ 53 * 2 ^ 500" using tot s by (intro mult_mono) simp_all
  then obtain y where y: "f64_of_rat (of_int tot * s) = Fin y" "0 \<le> y"
    using f64_of_rat_nonneg [of "of_int tot * s" 553] assms(3) s(2) by (auto simp: power_add [symmetric])
  have "y \<le> of_int tot" if "r \<le> 2"
  proof -
    have "of_int tot * s \<le> of_int tot" using mult_left_le [OF s1 [OF that]] assms(3) by simp
    then show ?thesis
      using f64_of_rat_floor [of "of_int tot * s" tot] assms(3,4) s(2) y(1) by auto
  qed
  with y s(1) t show ?thesis by (simp add: f64_sub_def)
qed


definition sampleZramConfig :: MemoryResourceConfig where
  "sampleZramConfig = \<lparr>mc_Enabled = True, mc_OvercommitRatio = Fin (3 / 2), mc_OvercommitZramFloorMib = 256,
     mc_OvercommitZramConfidence = Fin (1 / 2)\<rparr>"


subsection \<open>The range of the utilisation score\<close>

text \<open>
  C28. When a request fits a resource whose ratio is at least one, the utilisation term of that
  resource lies between zero and one, in floating point as well; a candidate that reports
  metrics then scores at most as high as an idle candidate without metrics.
\<close>

theorem computeUtil_unit_interval:
  assumes "0 < tot" "tot \<le> 2 ^ 53" "0 \<le> eff" "eff \<le> tot" "0 \<le> need" "need < 2 ^ 62"
    and "1 \<le> r" "r \<le> 2 ^ 500" "of_int need \<le> of_int eff * r"
  shows "\<exists>u. computeUtil tot eff need (Fin r) = Fin u \<and> 0 \<le> u \<and> u \<le> 1"
proof -
  have i: "int64_range (tot - eff)" "int64_range (tot - eff + need)" "int64_range tot"
    using assms by (simp_all add: int64_range_def)
  have le: "of_int (tot - eff + need) \<le> of_int tot * r"
    using assms(9) mult_left_mono [OF assms(7), of "of_int (tot - eff)"] assms(4)
    by (simp add: algebra_simps)
  have num: "f64_of_int (tot - eff + need) = Fin (round64 (of_int (tot - eff + need)))"
    using f64_of_int_fin_upto [OF i(2)]
    by (auto simp: fin_upto_def f64_of_int_def f64_of_rat_def Let_def split: if_splits)
  have tot: "(of_int tot :: rat) \<le> 2 ^ 53" "1 \<le> (of_int tot :: rat)"
    using of_int_le_iff [of tot "2 ^ 53", THEN iffD2, OF assms(2)] assms(1) by simp_all
  have "of_int tot * r \<le> 2 ^ 53 * 2 ^ 500" using tot assms(7,8) by (intro mult_mono) simp_all
  then have den: "f64_of_rat (of_int tot * r) = Fin (round64 (of_int tot * r))"
    using f64_of_rat_nonneg [of "of_int tot * r" 553] tot assms(7)
    by (auto simp: power_add [symmetric] f64_of_rat_def Let_def split: if_splits)
  have "1 * 1 \<le> of_int tot * r" using tot assms(7) by (intro mult_mono) simp_all
  then have pos: "1 \<le> round64 (of_int tot * r)" using round64_ge_int [of 1] by simp
  have "round64 (of_int (tot - eff + need)) \<le> round64 (of_int tot * r)" using le by (rule round64_mono)
  moreover have "0 \<le> round64 (of_int (tot - eff + need))" using assms(4,5) by (intro round64_nonneg) simp
  ultimately obtain u where "f64_of_rat (round64 (of_int (tot - eff + need)) / round64 (of_int tot * r)) = Fin u"
    "0 \<le> u" "u \<le> 1"
    using f64_of_rat_floor [of "round64 (of_int (tot - eff + need)) / round64 (of_int tot * r)" 1] pos by auto
  with assms(1-4,7) pos num den i show ?thesis
    by (simp add: computeUtil_def f64_le_def Let_def f64_of_int_small)
qed

theorem computeUtil_unit_interval_witness:
  "\<exists>u. computeUtil 8 4 2 (Fin 1) = Fin u \<and> 0 \<le> u \<and> u \<le> 1"
  by (rule computeUtil_unit_interval) simp_all

subsection \<open>Where the guarantee stops\<close>

text \<open>
  Two nodes under a CPU and disk ratio of one half: \<open>alpha\<close> reports metrics and fits exactly,
  \<open>beta\<close> reports none and runs no VM.
\<close>

definition halfConfig :: PlacementConfig where
  "halfConfig = \<lparr>pc_Algorithm = [], pc_Resources =
     \<lparr>cfg_CPU = \<lparr>rc_Enabled = True, rc_OvercommitRatio = Fin (1 / 2)\<rparr>,
      cfg_Memory = \<lparr>mc_Enabled = False, mc_OvercommitRatio = Fin 1,
                    mc_OvercommitZramFloorMib = 256, mc_OvercommitZramConfidence = Fin (1 / 2)\<rparr>,
      cfg_Disk = \<lparr>rc_Enabled = False, rc_OvercommitRatio = Fin 1\<rparr>\<rparr>\<rparr>"

definition noMetricsRow :: PoolNodeRow where
  "noMetricsRow = \<lparr>row_Pool = row_Pool (sampleRow 2 ''beta''),
     row_Node = row_Node (sampleRow 2 ''beta'')\<lparr>ne_CPUCoresEffective := None\<rparr>\<rparr>"

definition halfRequest :: PlacementRequest where
  "halfRequest = \<lparr>req_PoolName = ''local'', req_NodeHint = None, req_ExcludeNodeID = None, req_VCPUs = 2,
     req_MemoryMiB = 1024, req_DiskBytes = 0, req_NetworkIDs = []\<rparr>"



end
