(* ===== verification/PlacementDiagnosis.thy ===== *)
theory PlacementDiagnosis
  imports PlacementProps
begin

text \<open>
  What the errors of the placement scheduler say: the payload of an insufficient-resources
  error, of a network-not-ready error and of a node-pressure error is complete and accurate.
\<close>

subsection \<open>Insufficient resources\<close>

lemma applyNetworkFilter_err:
  "applyNetworkFilter q fits req = Inl e \<Longrightarrow> (\<exists>m. e = QuerierError m) \<or>
     (\<exists>detail. e = NetworkUnreadyError detail \<and> req_NetworkIDs req \<noteq> [] \<and>
       filterByNetworkReadiness q fits (req_NetworkIDs req) = Inr ([], detail))"
  by (auto simp: applyNetworkFilter_def and_then_Inl_iff split: if_splits dest: filterByNetworkReadiness_err)

lemma SchedulePlacement_InlE:
  assumes "SchedulePlacement env q req cfg = Inl e"
  obtains (early) "e = ErrPoolNotFound" | (querier) m where "e = QuerierError m"
    | (diag) "e = diagnoseEmptyEligible q (req_PoolName req)"
    | (narrow) "e = ErrNodeHintIsUUID \<or> e = ErrPoolNotOnNode"
    | (place) rows rows' where "ListEligiblePoolsByName q (req_PoolName req) = Inr rows" "rows \<noteq> []"
        "narrowEligible env q req rows = Inr rows'"
        "placeAmong env q req cfg (effectiveAlgorithm cfg) rows' = Inl e"
proof -
  have narrowErr: "e = ErrNodeHintIsUUID \<or> e = ErrPoolNotOnNode \<or> e = diagnoseEmptyEligible q (req_PoolName req)"
    if "narrowEligible env q req rows = Inl e" for rows
    using that
    by (auto simp: narrowEligible_def filterByNodeHint_def and_then_Inl_iff Let_def split: option.splits if_splits)
  show thesis
    using assms early querier diag narrow place
    by (auto simp: SchedulePlacement_def and_then_Inl_iff map_err_Inl_iff effectiveAlgorithm_def Let_def
        split: if_splits dest: narrowErr)
qed

lemma diagnoseEmptyEligible_cases:
  "diagnoseEmptyEligible q p \<in> {ErrPoolNotFound, ErrNoEligibleNodes} \<union> range QuerierError \<union> range NodePressureError"
  by (auto simp: diagnoseEmptyEligible_def split: sum.splits list.splits)

text \<open>
  C29. An insufficient-resources error is accurate: it counts the candidates that were
  considered, lists the utilisation of every one of them in order, and every one of them
  reports metrics that the request does not fit.
\<close>

theorem insufficient_resources_detail:
  assumes "SchedulePlacement env q req cfg = Inl (InsufficientResourcesError det)"
  shows "\<exists>rows rows'. ListEligiblePoolsByName q (req_PoolName req) = Inr rows \<and>
    narrowEligible env q req rows = Inr rows' \<and> rows' \<noteq> [] \<and>
    ir_CandidatesConsidered det = length rows' \<and> ir_CandidatesEligible det = 0 \<and>
    map nu_Node (ir_NodeUtilization det) = map (\<lambda>r. ne_Name (row_Node r)) rows' \<and>
    (\<forall>r\<in>set rows'. candidateHasMetrics r req (pc_Resources cfg) \<and>
      fitsAllResources env r req (pc_Resources cfg) = Some False)"
  using assms
proof (cases rule: SchedulePlacement_InlE)
  case (place rows rows')
  let ?adm = "admitted env req (pc_Resources cfg)"
  have none: "filter ?adm rows' = []"
    and det: "map nu_Node (ir_NodeUtilization det) =
        map (\<lambda>r. ne_Name (row_Node r)) (filter (\<lambda>r. \<not> ?adm r) rows')"
      "ir_CandidatesConsidered det = length rows'" "ir_CandidatesEligible det = 0"
    using place(4)
    by (auto simp: placeAmong_def filterByResources_eq and_then_Inl_iff renderUtilization_def renderOne_def Let_def
        split: if_splits option.splits dest: applyNetworkFilter_err scoreCandidates_err)
  have rej: "\<forall>r\<in>set rows'. \<not> ?adm r" using none by (simp add: filter_empty_conv)
  then have "filter (\<lambda>r. \<not> ?adm r) rows' = rows'" by simp
  moreover have "\<forall>r\<in>set rows'. candidateHasMetrics r req (pc_Resources cfg) \<and>
      fitsAllResources env r req (pc_Resources cfg) = Some False"
    using rej fitsAllResources_no_nil [of _ req "pc_Resources cfg" env]
    by (auto simp: admitted_def) (metis (full_types) not_None_eq)
  ultimately show ?thesis
    using place det narrowEligible_Inr(1) [OF place(3,2)] by auto
qed (use diagnoseEmptyEligible_cases [of q "req_PoolName req"] in auto)

theorem insufficient_resources_detail_witness:
  "\<exists>det (rows' :: PoolNodeRow list). SchedulePlacement sampleEnv sampleQuerier (sampleRequest\<lparr>req_VCPUs := 5\<rparr>) sampleConfig =
      Inl (InsufficientResourcesError det) \<and>
    map nu_Node (ir_NodeUtilization det) = map (\<lambda>r. ne_Name (row_Node r)) rows' \<and> rows' \<noteq> []"
proof -
  obtain det where det: "SchedulePlacement sampleEnv sampleQuerier (sampleRequest\<lparr>req_VCPUs := 5\<rparr>) sampleConfig =
      Inl (InsufficientResourcesError det)"
    by (simp add: sample_defs sample_eval)
  obtain rows' :: "PoolNodeRow list" where "map nu_Node (ir_NodeUtilization det) = map (\<lambda>r. ne_Name (row_Node r)) rows'" "rows' \<noteq> []"
    using insufficient_resources_detail [OF det] by auto
  with det show ?thesis by auto
qed

subsection \<open>Networks that are not ready\<close>

lemma unreadyNetworks_entries:
  "u \<in> set (unreadyNetworks m ids) \<Longrightarrow> un_NetworkID u \<in> set ids \<and>
     m (un_NetworkID u) \<noteq> Some networkStatusReady \<and>
     un_Status u = (case m (un_NetworkID u) of None \<Rightarrow> ''missing'' | Some s \<Rightarrow> s)"
  by (induction ids) (auto split: option.splits if_splits)

lemma filterByNetworkReadiness_rows:
  "filterByNetworkReadiness q cs ids = Inr ([], detail) \<Longrightarrow>
     list_all2 (\<lambda>c d. nun_Node d = ne_Name (row_Node (cand_row c)) \<and> nun_Networks d \<noteq> [] \<and>
       (\<exists>sts. ListNetworkNodeStatusByNode q (ne_ID (row_Node (cand_row c))) = Inr sts \<and>
         nun_Networks d = unreadyNetworks (byNetwork sts) ids)) cs detail"
  by (induction cs arbitrary: detail) (auto simp: and_then_Inr_iff Let_def split: if_splits)



subsection \<open>Pressured nodes\<close>

text \<open>The entries of the accumulator, their keys and the conditions recorded under a key.\<close>

definition pressure_inv :: "pressure_acc \<Rightarrow> bool" where
  "pressure_inv acc \<longleftrightarrow> distinct (snd acc) \<and> set (snd acc) = dom (fst acc) \<and>
     (\<forall>k e. fst acc k = Some e \<longrightarrow> (pn_Node e, pn_Pool e) = k \<and> distinct (pn_Conditions e))"

definition conditions :: "pressure_acc \<Rightarrow> pressure_key \<Rightarrow> string set" where
  "conditions acc k = (case fst acc k of None \<Rightarrow> {} | Some e \<Rightarrow> set (pn_Conditions e))"

lemma set_appendUnique [simp]: "set (appendUnique out s) = insert s (set out)"
  by (auto simp: appendUnique_def)

lemma distinct_appendUnique: "distinct out \<Longrightarrow> distinct (appendUnique out s)"
  by (simp add: appendUnique_def)

lemma addEntry_step:
  assumes "pressure_inv acc"
    and upd: "\<And>e. pn_Node (upd e) = pn_Node e \<and> pn_Pool (upd e) = pn_Pool e \<and>
      pn_Conditions (upd e) = appendUnique (pn_Conditions e) c"
  shows "pressure_inv (addEntry k upd acc)"
    and "conditions (addEntry k upd acc) k' = (if k' = k then insert c (conditions acc k') else conditions acc k')"
    and "dom (fst (addEntry k upd acc)) = insert k (dom (fst acc))"
proof -
  obtain index order where acc: "acc = (index, order)" by (cases acc)
  show "pressure_inv (addEntry k upd acc)"
    using assms(1) upd distinct_appendUnique
    by (auto simp: acc pressure_inv_def addEntry_def newPressured_def split: option.splits if_splits)
  show "conditions (addEntry k upd acc) k' = (if k' = k then insert c (conditions acc k') else conditions acc k')"
    using upd by (auto simp: acc conditions_def addEntry_def newPressured_def split: option.splits)
  show "dom (fst (addEntry k upd acc)) = insert k (dom (fst acc))"
    by (auto simp: acc addEntry_def split: option.splits)
qed

text \<open>A loop that adds one entry per row, with the key and the condition of its query.\<close>

lemma fold_addEntry:
  assumes "pressure_inv acc" and step: "\<And>r. f r = addEntry (key r) (upd r)"
    and upd: "\<And>r e. pn_Node (upd r e) = pn_Node e \<and> pn_Pool (upd r e) = pn_Pool e \<and>
      pn_Conditions (upd r e) = appendUnique (pn_Conditions e) c"
  shows "pressure_inv (fold f rows acc) \<and> dom (fst (fold f rows acc)) = key ` set rows \<union> dom (fst acc) \<and>
    (\<forall>k. conditions (fold f rows acc) k =
      (if k \<in> key ` set rows then insert c (conditions acc k) else conditions acc k))"
  using assms(1)
proof (induction rows arbitrary: acc)
  case Nil
  then show ?case by simp
next
  case (Cons r rows)
  note st = addEntry_step [OF Cons.prems, of "upd r" c "key r", OF upd, folded step]
  show ?case using Cons.IH [OF st(1)] st(2,3) by auto
qed

lemma pressure_inv_out:
  assumes "pressure_inv acc"
  shows "map (\<lambda>e. (pn_Node e, pn_Pool e)) (map (\<lambda>k. the (fst acc k)) (snd acc)) = snd acc"
    and "e \<in> set (map (\<lambda>k. the (fst acc k)) (snd acc)) \<Longrightarrow>
      distinct (pn_Conditions e) \<and> set (pn_Conditions e) = conditions acc (pn_Node e, pn_Pool e)"
proof -
  have entry: "\<exists>e. fst acc k = Some e \<and> (pn_Node e, pn_Pool e) = k \<and> distinct (pn_Conditions e)"
    if "k \<in> set (snd acc)" for k
  proof -
    from that assms obtain e where "fst acc k = Some e" unfolding pressure_inv_def by blast
    with assms show ?thesis unfolding pressure_inv_def by blast
  qed
  then have "(pn_Node (the (fst acc k)), pn_Pool (the (fst acc k))) = k" if "k \<in> set (snd acc)" for k
    using that by fastforce
  then show "map (\<lambda>e. (pn_Node e, pn_Pool e)) (map (\<lambda>k. the (fst acc k)) (snd acc)) = snd acc"
    by (simp add: o_def map_idI)
  show "distinct (pn_Conditions e) \<and> set (pn_Conditions e) = conditions acc (pn_Node e, pn_Pool e)"
    if "e \<in> set (map (\<lambda>k. the (fst acc k)) (snd acc))"
  proof -
    from that obtain k where k: "k \<in> set (snd acc)" "e = the (fst acc k)" by auto
    with entry [OF k(1)] show ?thesis by (auto simp: conditions_def)
  qed
qed

abbreviation node_key :: "PoolNodeRow \<Rightarrow> pressure_key" where
  "node_key r \<equiv> (ne_Name (row_Node r), [])"

abbreviation pool_key :: "PoolNodeRow \<Rightarrow> pressure_key" where
  "pool_key r \<equiv> (ne_Name (row_Node r), pe_Name (row_Pool r))"

text \<open>
  C31. The pressure detail has exactly one entry per node under memory or system-disk pressure
  and one per pool under disk pressure; each entry lists exactly the conditions of the queries
  its node or pool came from, without repetition.
\<close>

theorem buildNodePressureDetail_exact:
  fixes mem sysDisk poolDisk :: "PoolNodeRow list"
  defines "out \<equiv> buildNodePressureDetail mem sysDisk poolDisk"
  shows "distinct (map (\<lambda>e. (pn_Node e, pn_Pool e)) out) \<and>
    (\<lambda>e. (pn_Node e, pn_Pool e)) ` set out =
      node_key ` set mem \<union> node_key ` set sysDisk \<union> pool_key ` set poolDisk \<and>
    (\<forall>e\<in>set out. distinct (pn_Conditions e) \<and> set (pn_Conditions e) =
      {c. c = ''memory_pressure'' \<and> (pn_Node e, pn_Pool e) \<in> node_key ` set mem \<or>
          c = ''system_disk_pressure'' \<and> (pn_Node e, pn_Pool e) \<in> node_key ` set sysDisk \<or>
          c = ''disk_pressure'' \<and> (pn_Node e, pn_Pool e) \<in> pool_key ` set poolDisk})"
proof -
  define a0 :: pressure_acc where "a0 = (Map.empty, [])"
  define a1 where "a1 = fold addMemory mem a0"
  define a2 where "a2 = fold addSystemDisk sysDisk a1"
  define a3 where "a3 = fold addPoolDisk poolDisk a2"
  have i0: "pressure_inv a0" "dom (fst a0) = {}" "conditions a0 = (\<lambda>_. {})"
    by (auto simp: a0_def pressure_inv_def conditions_def)
  have i1: "pressure_inv a1 \<and> dom (fst a1) = node_key ` set mem \<union> dom (fst a0) \<and>
      (\<forall>k. conditions a1 k = (if k \<in> node_key ` set mem then insert ''memory_pressure'' (conditions a0 k) else conditions a0 k))"
    unfolding a1_def by (rule fold_addEntry [OF i0(1) addMemory_def]) simp
  then have p1: "pressure_inv a1" by simp
  have i2: "pressure_inv a2 \<and> dom (fst a2) = node_key ` set sysDisk \<union> dom (fst a1) \<and>
      (\<forall>k. conditions a2 k = (if k \<in> node_key ` set sysDisk then insert ''system_disk_pressure'' (conditions a1 k) else conditions a1 k))"
    unfolding a2_def by (rule fold_addEntry [OF p1 addSystemDisk_def]) simp
  then have p2: "pressure_inv a2" by simp
  have i3: "pressure_inv a3 \<and> dom (fst a3) = pool_key ` set poolDisk \<union> dom (fst a2) \<and>
      (\<forall>k. conditions a3 k = (if k \<in> pool_key ` set poolDisk then insert ''disk_pressure'' (conditions a2 k) else conditions a2 k))"
    unfolding a3_def by (rule fold_addEntry [OF p2 addPoolDisk_def]) simp
  have out: "out = map (\<lambda>k. the (fst a3 k)) (snd a3)"
    by (simp add: out_def buildNodePressureDetail_def a0_def a1_def a2_def a3_def split: prod.split)
  note res = pressure_inv_out [OF conjunct1 [OF i3], folded out]
  have ks: "distinct (snd a3)" "set (snd a3) = node_key ` set mem \<union> node_key ` set sysDisk \<union> pool_key ` set poolDisk"
    using i1 i2 i3 i0(2) by (auto simp: pressure_inv_def)
  have conds: "conditions a3 k = (if k \<in> pool_key ` set poolDisk then {''disk_pressure''} else {}) \<union>
      (if k \<in> node_key ` set sysDisk then {''system_disk_pressure''} else {}) \<union>
      (if k \<in> node_key ` set mem then {''memory_pressure''} else {})" for k
    unfolding conjunct2 [OF conjunct2 [OF i3], rule_format] conjunct2 [OF conjunct2 [OF i2], rule_format]
      conjunct2 [OF conjunct2 [OF i1], rule_format] i0(3)
    by (cases "k \<in> pool_key ` set poolDisk"; cases "k \<in> node_key ` set sysDisk"; cases "k \<in> node_key ` set mem")
      (simp_all only: if_True if_False Un_empty_left Un_empty_right Un_insert_left)
  show ?thesis
  proof (intro conjI ballI)
    show "distinct (map (\<lambda>e. (pn_Node e, pn_Pool e)) out)" using res(1) ks(1) by simp
    show "(\<lambda>e. (pn_Node e, pn_Pool e)) ` set out =
        node_key ` set mem \<union> node_key ` set sysDisk \<union> pool_key ` set poolDisk"
      using arg_cong [OF res(1), of set] ks(2) by simp
    fix e assume e: "e \<in> set out"
    show "distinct (pn_Conditions e)" using res(2) [OF e] by simp
    show "set (pn_Conditions e) =
      {c. c = ''memory_pressure'' \<and> (pn_Node e, pn_Pool e) \<in> node_key ` set mem \<or>
          c = ''system_disk_pressure'' \<and> (pn_Node e, pn_Pool e) \<in> node_key ` set sysDisk \<or>
          c = ''disk_pressure'' \<and> (pn_Node e, pn_Pool e) \<in> pool_key ` set poolDisk}"
      unfolding conjunct2 [OF res(2) [OF e]] conds by (simp only: split: if_split) blast
  qed
qed

theorem buildNodePressureDetail_exact_witness:
  "(\<lambda>e. (pn_Node e, pn_Pool e)) `
     set (buildNodePressureDetail [sampleRow 1 ''alpha''] [sampleRow 1 ''alpha''] [sampleRow 2 ''beta'']) =
   {(''alpha'', []), (''beta'', ''local'')}"
  using conjunct1 [OF conjunct2 [OF buildNodePressureDetail_exact
    [of "[sampleRow 1 ''alpha'']" "[sampleRow 1 ''alpha'']" "[sampleRow 2 ''beta'']"]]]
  by (auto simp: sampleRow_def)

end
