(* ===== verification/SerialProps.thy ===== *)
theory SerialProps
  imports SerialBytes
begin

text \<open>
  Correctness of the byte-level parts of the serial multiplexer: the ring buffer holds the most
  recent bytes, the tail is the suffix with the requested number of lines, and the sanitizer
  does not depend on how the socket reads cut the stream and lets only harmless bytes and
  complete CSI sequences through.
\<close>

subsection \<open>The ring buffer holds the most recent bytes\<close>

definition suffix_of_length :: "nat \<Rightarrow> 'a list \<Rightarrow> 'a list" where
  "suffix_of_length n xs = drop (length xs - n) xs"

lemma suffix_of_length_append: "suffix_of_length n (suffix_of_length n xs @ ys) = suffix_of_length n (xs @ ys)"
proof (cases "length xs \<le> n")
  case False
  then have "length xs + length ys - n = length xs - n + length ys" by simp
  with False show ?thesis by (simp add: suffix_of_length_def add.commute)
qed (simp add: suffix_of_length_def)

lemma RingBuffer_Write_data:
  assumes "0 \<le> rb_maxBytes r"
  shows "rb_data (RingBuffer_Write bs r) = suffix_of_length (nat (rb_maxBytes r)) (rb_data r @ bs) \<or>
    bs = [] \<and> RingBuffer_Write bs r = r \<or> rb_maxBytes r = 0 \<and> RingBuffer_Write bs r = r"
    and "rb_maxBytes (RingBuffer_Write bs r) = rb_maxBytes r"
  using assms by (auto simp: RingBuffer_Write_def suffix_of_length_def Let_def)

text \<open>
  C34. After any sequence of writes the buffer holds exactly the last \<open>maxBytes\<close> bytes of
  everything written (nothing when the capacity is not positive).
\<close>

theorem RingBuffer_holds_recent:
  "Snapshot (fold RingBuffer_Write ws (NewRingBuffer maxBytes)) =
     suffix_of_length (nat maxBytes) (concat ws)"
proof -
  have "rb_data (fold RingBuffer_Write ws r) = suffix_of_length (nat (rb_maxBytes r)) (xs @ concat ws)"
    if "0 \<le> rb_maxBytes r" "rb_data r = suffix_of_length (nat (rb_maxBytes r)) xs" for xs r
    using that
  proof (induction ws arbitrary: xs r)
    case Nil
    then show ?case by simp
  next
    case (Cons w ws)
    have "rb_data (RingBuffer_Write w r) = suffix_of_length (nat (rb_maxBytes r)) (xs @ w)"
      using RingBuffer_Write_data(1) [OF Cons.prems(1), of w] Cons.prems(2)
      by (auto simp: suffix_of_length_append) (simp add: suffix_of_length_def)
    then show ?case
      using Cons.IH [of "RingBuffer_Write w r" "xs @ w"] Cons.prems(1) RingBuffer_Write_data(2) [OF Cons.prems(1)]
      by simp
  qed
  from this [of "NewRingBuffer maxBytes" "[]"] show ?thesis
    by (auto simp: Snapshot_def NewRingBuffer_def suffix_of_length_def)
qed

subsection \<open>The last lines\<close>

definition line_count :: "byte list \<Rightarrow> nat" where
  "line_count d = length (filter (\<lambda>b. b = newline) d) + (if d \<noteq> [] \<and> last d \<noteq> newline then 1 else 0)"

lemma SplitAfter_not_Nil [simp]: "SplitAfter d \<noteq> []"
  by (cases d) (auto split: list.splits)

lemma concat_SplitAfter: "concat (SplitAfter d) = d"
  by (induction d) (auto split: list.splits)

abbreviation full_line :: "byte list \<Rightarrow> bool" where
  "full_line l \<equiv> l \<noteq> [] \<and> last l = newline \<and> newline \<notin> set (butlast l)"

lemma SplitAfter_lines:
  "(\<forall>l\<in>set (butlast (SplitAfter d)). full_line l) \<and> newline \<notin> set (last (SplitAfter d))"
proof (induction d)
  case (Cons b d)
  obtain l ls where "SplitAfter d = l # ls" using SplitAfter_not_Nil by (cases "SplitAfter d") auto
  with Cons show ?case by (auto split: if_splits)
qed (simp add: newline_def)

text \<open>The lines that \<^verbatim>\<open>lastNBytes\<close> counts: the pieces without a trailing empty one.\<close>

definition lines_of :: "byte list \<Rightarrow> byte list list" where
  "lines_of d = (if last (SplitAfter d) = [] then butlast (SplitAfter d) else SplitAfter d)"

lemma concat_lines_of: "concat (lines_of d) = d"
proof (cases "last (SplitAfter d) = []")
  case True
  then have "concat (SplitAfter d) = concat (butlast (SplitAfter d))"
    by (metis SplitAfter_not_Nil append_Nil2 append_butlast_last_id concat.simps concat_append)
  with True show ?thesis by (simp add: lines_of_def concat_SplitAfter)
qed (simp add: lines_of_def concat_SplitAfter)

lemma full_lineE:
  assumes "full_line l"
  obtains m where "l = m @ [newline]" "newline \<notin> set m"
  using that [of "butlast l"] assms append_butlast_last_id [of l] by simp

lemma filter_newline_Nil: "newline \<notin> set m \<Longrightarrow> filter (\<lambda>b. b = newline) m = []"
  by (auto simp: filter_empty_conv)

lemma line_count_full: "full_line l \<Longrightarrow> line_count l = 1"
  by (elim full_lineE) (simp add: line_count_def filter_newline_Nil)

lemma line_count_append:
  "full_line l \<Longrightarrow> line_count (l @ d) = Suc (line_count d)"
  by (elim full_lineE) (simp add: line_count_def filter_newline_Nil)

lemma line_count_one:
  assumes "l \<noteq> []" "full_line l \<or> newline \<notin> set l"
  shows "line_count l = 1"
proof (cases "full_line l")
  case True
  then show ?thesis by (rule line_count_full)
next
  case False
  with assms have "newline \<notin> set l" by blast
  then have "last l \<noteq> newline" using last_in_set [OF assms(1)] by metis
  with \<open>newline \<notin> set l\<close> assms(1) show ?thesis by (simp add: line_count_def filter_newline_Nil)
qed

lemma line_count_concat:
  "\<forall>l\<in>set (butlast ls). full_line l \<Longrightarrow> ls \<noteq> [] \<Longrightarrow> last ls \<noteq> [] \<Longrightarrow>
     full_line (last ls) \<or> newline \<notin> set (last ls) \<Longrightarrow> line_count (concat ls) = length ls"
proof (induction ls)
  case Nil
  then show ?case by simp
next
  case (Cons l ls)
  show ?case
  proof (cases "ls = []")
    case True
    then show ?thesis using line_count_one [of l] Cons.prems by simp
  next
    case False
    then have l: "full_line l" and IH: "line_count (concat ls) = length ls"
      using Cons.prems by (simp, intro Cons.IH, simp_all)
    show ?thesis using line_count_append [OF l, of "concat ls"] IH by simp
  qed
qed

lemma lines_of_ok: "\<forall>l\<in>set (butlast (lines_of d)). full_line l"
    "lines_of d \<noteq> [] \<Longrightarrow> last (lines_of d) \<noteq> [] \<and> (full_line (last (lines_of d)) \<or> newline \<notin> set (last (lines_of d)))"
proof -
  have full: "\<forall>l\<in>set (butlast (SplitAfter d)). full_line l" and fin: "newline \<notin> set (last (SplitAfter d))"
    using SplitAfter_lines by blast+
  show "\<forall>l\<in>set (butlast (lines_of d)). full_line l"
    using full by (simp add: lines_of_def) (meson in_set_butlastD)
  assume ne: "lines_of d \<noteq> []"
  show "last (lines_of d) \<noteq> [] \<and> (full_line (last (lines_of d)) \<or> newline \<notin> set (last (lines_of d)))"
  proof (cases "last (SplitAfter d) = []")
    case True
    then have "lines_of d = butlast (SplitAfter d)" by (simp add: lines_of_def)
    with full ne have "full_line (last (lines_of d))" using last_in_set by metis
    then show ?thesis by blast
  next
    case False
    then have "last (lines_of d) = last (SplitAfter d)" by (simp add: lines_of_def)
    with False fin show ?thesis by simp
  qed
qed

lemma line_count_lines_of: "length (lines_of d) = line_count d"
proof (cases "lines_of d = []")
  case True
  then have "d = []" using concat_lines_of [of d] by simp
  with True show ?thesis by (simp add: line_count_def)
next
  case False
  then show ?thesis using line_count_concat [OF lines_of_ok(1) False] lines_of_ok(2) [OF False] concat_lines_of by metis
qed

lemma lastNBytes_lines:
  "lastNBytes d n = (if n \<le> 0 \<or> d = [] then [] else concat (drop (length (lines_of d) - nat n) (lines_of d)))"
proof -
  have "length (lines_of d) - nat n = 0" if "int (length (lines_of d)) \<le> n" using that by linarith
  then show ?thesis
    by (auto simp: lastNBytes_def lines_of_def [symmetric] Let_def concat_lines_of)
qed

lemma last_concat_ne: "xs \<noteq> [] \<Longrightarrow> last xs \<noteq> [] \<Longrightarrow> last (concat xs) = last (last xs)"
proof -
  assume xs: "xs \<noteq> []" "last xs \<noteq> []"
  from xs(1) obtain ys y where "xs = ys @ [y]" by (cases xs rule: rev_cases) auto
  with xs(2) show ?thesis by simp
qed

lemma concat_boundary: "ts = [] \<or> full_line (last ts) \<Longrightarrow> concat ts = [] \<or> last (concat ts) = newline"
  by (cases "ts = []") (simp_all add: last_concat_ne del: concat_eq_Nil_conv)

text \<open>
  C33. For a positive \<open>n\<close> the tail is a suffix of the data that starts at a line boundary and
  has exactly \<open>n\<close> lines, or all of them when there are fewer.
\<close>

theorem lastNBytes_tail:
  assumes "0 < n"
  shows "line_count (lastNBytes d n) = min (nat n) (line_count d) \<and>
    (\<exists>p. d = p @ lastNBytes d n \<and> (p = [] \<or> last p = newline))"
proof (cases "d = []")
  case True
  then show ?thesis by (simp add: lastNBytes_def line_count_def)
next
  case False
  let ?ls = "lines_of d" and ?k = "length (lines_of d) - nat n"
  have ne: "?ls \<noteq> []" using False concat_lines_of [of d] by auto
  have tail: "lastNBytes d n = concat (drop ?k ?ls)" using assms False by (simp add: lastNBytes_lines)
  have kl: "?k < length ?ls" using assms ne by (simp add: diff_less)
  then have dne: "drop ?k ?ls \<noteq> []" by simp
  have "butlast (drop ?k ?ls) = drop ?k (butlast ?ls)" by (simp add: butlast_drop)
  then have "\<forall>l\<in>set (butlast (drop ?k ?ls)). full_line l"
    using lines_of_ok(1) by (metis in_set_dropD)
  then have "line_count (concat (drop ?k ?ls)) = length (drop ?k ?ls)"
    using lines_of_ok(2) [OF ne] dne kl by (intro line_count_concat) (auto simp: last_drop)
  moreover have "length (drop ?k ?ls) = min (nat n) (length ?ls)" by simp
  ultimately have count: "line_count (lastNBytes d n) = min (nat n) (line_count d)"
    by (simp add: tail line_count_lines_of)
  have "d = concat (take ?k ?ls) @ lastNBytes d n"
    unfolding tail by (metis append_take_drop_id concat_append concat_lines_of)
  moreover have "take ?k ?ls = [] \<or> full_line (last (take ?k ?ls))"
  proof (cases "?k = 0")
    case False
    then have "last (take ?k ?ls) \<in> set (take ?k ?ls)" using ne by (intro last_in_set) simp
    moreover have "take ?k ?ls = take ?k (butlast ?ls)" using kl by (simp add: take_butlast)
    ultimately show ?thesis using lines_of_ok(1) by (metis in_set_takeD)
  qed simp
  then have "concat (take ?k ?ls) = [] \<or> last (concat (take ?k ?ls)) = newline" by (rule concat_boundary)
  ultimately show ?thesis unfolding count by (intro conjI refl exI)
qed

theorem lastNBytes_tail_witness:
  "line_count (lastNBytes [0x61, 0x0A, 0x62, 0x0A, 0x63] 2) = min (nat 2) (line_count [0x61, 0x0A, 0x62, 0x0A, 0x63])"
  using lastNBytes_tail [of 2 "[0x61, 0x0A, 0x62, 0x0A, 0x63]"] by simp

subsection \<open>A recursive scanner equal to the sanitizer\<close>

text \<open>The length of a complete CSI tail (parameters, intermediates, final byte) at the head of the list.\<close>

definition csi_len :: "byte list \<Rightarrow> nat option" where
  "csi_len xs =
     (let a = takeWhile csi_param xs;
          b = takeWhile csi_intermediate (drop (length a) xs)
      in case drop (length a + length b) xs of
           [] \<Rightarrow> None
         | f # _ \<Rightarrow> if csi_final f then Some (length a + length b + 1) else None)"

function scan :: "byte list \<Rightarrow> byte list \<times> byte list" where
  "scan [] = ([], [])"
| "scan (b # bs) =
     (if b = ESC then
        case bs of
          [] \<Rightarrow> ([], b # bs)
        | c # cs \<Rightarrow>
            if c = 0x5B then
              case csi_len cs of
                None \<Rightarrow> ([], b # bs)
              | Some k \<Rightarrow> apfst ((@) (b # c # take k cs)) (scan (drop k cs))
            else if isThreeByteEscIntroducer c then
              if cs = [] then ([], b # bs) else scan (tl cs)
            else scan cs
      else if passes b then apfst ((@) [b]) (scan bs)
      else scan bs)"
  by pat_completeness auto
termination by (relation "measure length") auto

lemma scan_plain: "b \<noteq> ESC \<Longrightarrow>
    scan (b # bs) = (if passes b then (b # fst (scan bs), snd (scan bs)) else scan bs)"
  by (simp add: apfst_def map_prod_def split: prod.split)

lemma scan_end: "scan [ESC] = ([], [ESC])"
  by simp

lemma scan_csi: "csi_len cs = Some k \<Longrightarrow>
    scan (ESC # 0x5B # cs) = (ESC # 0x5B # take k cs @ fst (scan (drop k cs)), snd (scan (drop k cs)))"
  by (simp add: apfst_def map_prod_def split: prod.split)

lemma scan_csi_None: "csi_len cs = None \<Longrightarrow> scan (ESC # 0x5B # cs) = ([], ESC # 0x5B # cs)"
  by simp

lemma scan_other: "c \<noteq> 0x5B \<Longrightarrow> scan (ESC # c # cs) =
    (if isThreeByteEscIntroducer c then if cs = [] then ([], ESC # c # cs) else scan (tl cs) else scan cs)"
  by simp

declare scan.simps(2) [simp del]

lemmas scan_cases = scan_plain scan_end scan_csi scan_csi_None scan_other

lemma skipWhile_takeWhile: "skipWhile p d k = k + length (takeWhile p (drop k d))"
proof (induction p d k rule: skipWhile.induct)
  case (1 p d k)
  show ?case
  proof (cases "k < length d \<and> p (d ! k)")
    case True
    then have "drop k d = d ! k # drop (k + 1) d" by (simp add: Cons_nth_drop_Suc)
    with True 1 show ?thesis by (subst skipWhile.simps) simp
  next
    case False
    have "takeWhile p (drop k d) = []"
    proof (cases "drop k d")
      case (Cons x xs)
      then have "k < length d" "d ! k = x" by (metis drop_all list.distinct(1) not_less, rule nth_via_drop)
      with False Cons show ?thesis by simp
    qed simp
    with False show ?thesis by (subst skipWhile.simps) auto
  qed
qed

lemma scanCSI_bracket:
  assumes d: "d = p @ b # 0x5B # cs" "length p = i"
  shows "scanCSI d i = (case csi_len cs of None \<Rightarrow> ([], length d - i, True)
    | Some k \<Rightarrow> (b # 0x5B # take k cs, k + 2, False))"
proof -
  define a where "a = length (takeWhile csi_param cs)"
  define e where "e = a + length (takeWhile csi_intermediate (drop a cs))"
  have cs: "drop (i + 2) d = cs" using d by simp
  have "skipWhile csi_param d (i + 2) = i + 2 + a" by (simp only: skipWhile_takeWhile cs a_def)
  moreover have "drop (i + 2 + a) d = drop a cs" using cs by (metis add.commute drop_drop)
  ultimately have k: "skipWhile csi_intermediate d (skipWhile csi_param d (i + 2)) = i + 2 + e"
    by (simp add: skipWhile_takeWhile e_def)
  have len: "csi_len cs = (case drop e cs of [] \<Rightarrow> None | f # _ \<Rightarrow> if csi_final f then Some (e + 1) else None)"
    unfolding csi_len_def Let_def a_def [symmetric] e_def [symmetric] by (rule refl)
  have at: "i + 2 + e < length d \<longleftrightarrow> e < length cs" "e < length cs \<Longrightarrow> d ! (i + 2 + e) = cs ! e"
    using d by (simp_all add: nth_append)
  have tk: "take (i + 2 + e + 1 - i) (drop i d) = b # 0x5B # take (e + 1) cs"
    using d by (simp add: eval_nat_numeral)
  have br: "\<not> length d \<le> i + 1" "d ! (i + 1) = 0x5B" using d by (simp_all add: nth_append)
  show ?thesis
  proof (cases "e < length cs")
    case True
    then have "drop e cs = cs ! e # drop (Suc e) cs" by (simp add: Cons_nth_drop_Suc)
    with True br at tk show ?thesis unfolding scanCSI_def Let_def k len by simp
  next
    case False
    with br at show ?thesis unfolding scanCSI_def Let_def k len by simp
  qed
qed

lemma scanCSI_other:
  assumes d: "d = p @ b # c # cs" "length p = i" "c \<noteq> 0x5B"
  shows "scanCSI d i = (if isThreeByteEscIntroducer c then
      if cs = [] then ([], length d - i, True) else ([], 3, False) else ([], 2, False))"
proof -
  have "d ! (i + 1) = c" "\<not> length d \<le> i + 1" "length d \<le> i + 2 \<longleftrightarrow> cs = []"
    using d(1,2) by (auto simp: nth_append)
  with d(3) show ?thesis by (simp add: scanCSI_def Let_def)
qed

lemma scanCSI_end: "d = p @ [b] \<Longrightarrow> length p = i \<Longrightarrow> scanCSI d i = ([], 1, True)"
  by (simp add: scanCSI_def Let_def)

lemma sanitizeFrom_scan:
  "sanitizeFrom d i out = (out @ fst (scan (drop i d)), snd (scan (drop i d)))"
proof (induction d i out rule: sanitizeFrom.induct)
  case (1 d i out)
  show ?case
  proof (cases "i < length d")
    case False
    then show ?thesis by (subst sanitizeFrom.simps) simp
  next
    case True
    define p where "p = take i d"
    obtain b bs where bs: "drop i d = b # bs" "d ! i = b"
      using True by (metis Cons_nth_drop_Suc)
    then have d: "d = p @ b # bs" "length p = i" using True p_def by (metis append_take_drop_id, simp)
    have suc: "drop (i + 1) d = bs" using d by simp
    show ?thesis
    proof (cases "b = ESC")
      case False
      with 1(2,3) [OF True] True bs suc show ?thesis
        by (subst sanitizeFrom.simps) (simp add: scan_cases)
    next
      case esc: True
      have IH: "sanitizeFrom d (i + sk) (out @ em) =
          ((out @ em) @ fst (scan (drop (i + sk) d)), snd (scan (drop (i + sk) d)))"
        if "scanCSI d i = (em, sk, False)" for em sk
        using 1(1) [OF True, of em "(sk, False)" sk False] esc bs that by simp
      note unf = sanitizeFrom.simps [of d i out]
      consider (fin) "bs = []" | (csi) cs where "bs = 0x5B # cs"
        | (other) c cs where "bs = c # cs" "c \<noteq> 0x5B" by (cases bs) auto
      then show ?thesis
      proof cases
        case fin
        with d have "scanCSI d i = ([], 1, True)" by (intro scanCSI_end) simp_all
        with fin esc bs True show ?thesis unfolding unf by (simp add: scan_cases)
      next
        case csi
        have sc: "scanCSI d i = (case csi_len cs of None \<Rightarrow> ([], length d - i, True)
            | Some k \<Rightarrow> (b # 0x5B # take k cs, k + 2, False))"
          by (rule scanCSI_bracket [of d p]) (use d csi in simp_all)
        show ?thesis
        proof (cases "csi_len cs")
          case None
          with sc True bs esc csi show ?thesis by (simp add: unf scan_cases)
        next
          case (Some k)
          have dr: "drop (i + (k + 2)) d = drop k cs" using d csi by simp
          from Some sc True bs esc csi IH [of "b # 0x5B # take k cs" "k + 2"] dr
          show ?thesis by (simp add: unf scan_cases)
        qed
      next
        case (other c cs)
        have sc: "scanCSI d i = (if isThreeByteEscIntroducer c then
            if cs = [] then ([], length d - i, True) else ([], 3, False) else ([], 2, False))"
          by (intro scanCSI_other [of d p b]) (use d other in simp_all)
        have dr: "drop (i + 2) d = cs" "drop (i + 3) d = tl cs" using d other by (simp_all add: tl_drop drop_Suc)
        from other sc True bs esc dr IH [of "[]" 3] IH [of "[]" 2]
        show ?thesis by (simp add: unf scan_cases)
      qed
    qed
  qed
qed

text \<open>
  C32. The index-based loop of \<^verbatim>\<open>sanitizeWithCarry\<close> computes the same output and the same
  carry as the recursive scanner.
\<close>

theorem sanitizeWithCarry_scan: "sanitizeWithCarry d = scan d"
  by (simp add: sanitizeWithCarry_def sanitizeFrom_scan)

subsection \<open>Independence of the chunk boundaries\<close>

lemma csi_final_class: "csi_final f \<Longrightarrow> \<not> csi_param f \<and> \<not> csi_intermediate f"
  by (auto simp: csi_final_def csi_param_def csi_intermediate_def word_le_nat_alt)

lemma csi_intermediate_class: "csi_intermediate f \<Longrightarrow> \<not> csi_param f"
  by (auto simp: csi_param_def csi_intermediate_def word_le_nat_alt)

text \<open>The grammar of a complete tail.\<close>

lemma csi_len_iff:
  "csi_len xs = Some k \<longleftrightarrow>
     (\<exists>a b f r. xs = a @ b @ f # r \<and> (\<forall>x\<in>set a. csi_param x) \<and> (\<forall>x\<in>set b. csi_intermediate x) \<and>
       csi_final f \<and> k = length a + length b + 1)"
proof
  assume "csi_len xs = Some k"
  define a where "a = takeWhile csi_param xs"
  define b where "b = takeWhile csi_intermediate (drop (length a) xs)"
  have x1: "xs = a @ dropWhile csi_param xs" by (simp add: a_def)
  have x2: "drop (length a) xs = b @ dropWhile csi_intermediate (drop (length a) xs)" by (simp add: b_def)
  obtain f r where f: "drop (length a + length b) xs = f # r" "csi_final f" "k = length a + length b + 1"
    using \<open>csi_len xs = Some k\<close>
    by (auto simp: csi_len_def Let_def a_def [symmetric] b_def [symmetric] split: list.splits if_splits)
  have "xs = a @ drop (length a) xs" using x1 by (metis append_eq_conv_conj)
  moreover have "drop (length a) xs = b @ f # r"
    using x2 f(1) by (metis append_eq_conv_conj drop_drop add.commute)
  moreover have "\<forall>x\<in>set a. csi_param x" "\<forall>x\<in>set b. csi_intermediate x"
    by (auto simp: a_def b_def dest: set_takeWhileD)
  ultimately show "\<exists>a b f r. xs = a @ b @ f # r \<and> (\<forall>x\<in>set a. csi_param x) \<and>
      (\<forall>x\<in>set b. csi_intermediate x) \<and> csi_final f \<and> k = length a + length b + 1"
    using f by (intro exI [of _ a] exI [of _ b] exI [of _ f] exI [of _ r]) simp
next
  assume "\<exists>a b f r. xs = a @ b @ f # r \<and> (\<forall>x\<in>set a. csi_param x) \<and>
      (\<forall>x\<in>set b. csi_intermediate x) \<and> csi_final f \<and> k = length a + length b + 1"
  then obtain a b f r where x: "xs = a @ b @ f # r" "\<forall>x\<in>set a. csi_param x"
    "\<forall>x\<in>set b. csi_intermediate x" "csi_final f" "k = length a + length b + 1" by blast
  have nb: "takeWhile csi_param (b @ f # r) = []"
    using x(3,4) csi_final_class csi_intermediate_class by (cases b) auto
  have "takeWhile csi_param xs = a" using x(1,2) nb by (simp add: takeWhile_append2)
  moreover have "takeWhile csi_intermediate (b @ f # r) = b"
    using x(3,4) csi_final_class by (simp add: takeWhile_append2)
  ultimately show "csi_len xs = Some k" using x by (simp add: csi_len_def Let_def)
qed

lemma csi_len_le: "csi_len xs = Some k \<Longrightarrow> k \<le> length xs"
  unfolding csi_len_iff by auto

lemma csi_len_append: "csi_len xs = Some k \<Longrightarrow> csi_len (take k xs @ ys) = Some k"
  unfolding csi_len_iff by (elim exE conjE) (rule exI, rule exI, rule exI, rule exI [of _ ys], auto)

lemma csi_len_extend: "csi_len xs = Some k \<Longrightarrow> csi_len (xs @ ys) = Some k"
  using csi_len_append [of xs k "drop k xs @ ys"] by (simp add: append_assoc [symmetric] del: append_assoc)

text \<open>Scanning a stream in two pieces: the carry of the first is put in front of the second.\<close>

lemma scan_append:
  "scan (a @ b) = (fst (scan a) @ fst (scan (snd (scan a) @ b)), snd (scan (snd (scan a) @ b)))"
proof (induction a rule: scan.induct)
  case 1
  then show ?case by simp
next
  case (2 x xs)
  show ?case
  proof (cases "x = ESC")
    case False
    with 2(4,5) show ?thesis by (simp add: scan_cases)
  next
    case esc: True
    consider (fin) "xs = []" | (csi) cs where "xs = 0x5B # cs" | (other) c cs where "xs = c # cs" "c \<noteq> 0x5B"
      by (cases xs) auto
    then show ?thesis
    proof cases
      case fin
      with esc have "scan (x # xs) = ([], x # xs)" by (simp add: scan_cases)
      then show ?thesis by simp
    next
      case csi
      show ?thesis
      proof (cases "csi_len cs")
        case None
        then have "scan (x # xs) = ([], x # xs)" using esc csi by (simp add: scan_cases)
        then show ?thesis by simp
      next
        case (Some k)
        have tk: "take k (cs @ b) = take k cs" "drop k (cs @ b) = drop k cs @ b"
          using csi_len_le [OF Some] by simp_all
        from 2(1) [OF esc csi refl Some] esc csi Some csi_len_extend [OF Some, of b] tk show ?thesis
          by (simp add: scan_cases)
      qed
    next
      case (other c cs)
      show ?thesis
      proof (cases "isThreeByteEscIntroducer c \<and> cs = []")
        case True
        then have "scan (x # xs) = ([], x # xs)" using esc other by (simp add: scan_cases)
        then show ?thesis by simp
      next
        case False
        with 2(2,3) [OF esc other] esc other show ?thesis
          by (cases cs) (auto simp: scan_cases)
      qed
    qed
  qed
qed

text \<open>Feeding a list of chunks through one sanitizer.\<close>

fun ProcessAll :: "byte list list \<Rightarrow> Sanitizer \<Rightarrow> byte list \<times> Sanitizer" where
  "ProcessAll [] s = ([], s)"
| "ProcessAll (c # cs) s =
     (let (out, s) = Process c s; (rest, s) = ProcessAll cs s in (out @ rest, s))"

lemma Process_scan:
  assumes "length (snd (scan (sz_pending s @ chunk))) \<le> maxPendingCarry"
  shows "Process chunk s = (fst (scan (sz_pending s @ chunk)), s\<lparr>sz_pending := snd (scan (sz_pending s @ chunk))\<rparr>)"
  using assms
  by (auto simp: Process_def sanitizeFrom_scan sanitizeWithCarry_def Let_def split: prod.split)


definition splitColour :: "byte list list" where
  "splitColour = [[0x61, 0x1B, 0x5B], [0x31, 0x6D, 0x62]]"


subsection \<open>What reaches the terminal\<close>

text \<open>Backspace, tab, the two line ends, and every byte from space on but DEL.\<close>

definition text_byte :: "byte \<Rightarrow> bool" where
  "text_byte b \<longleftrightarrow> b \<in> {0x08, 0x09, 0x0A, 0x0D} \<or> 0x20 \<le> b \<and> b \<noteq> 0x7F"

lemma passes_text: "passes b \<longleftrightarrow> text_byte b"
  by (auto simp: passes_def whitelisted_def text_byte_def not_le)

text \<open>Text bytes and complete CSI sequences.\<close>

function clean :: "byte list \<Rightarrow> bool" where
  "clean [] = True"
| "clean (b # bs) =
     (if b = ESC then
        case bs of
          [] \<Rightarrow> False
        | c # cs \<Rightarrow> c = 0x5B \<and> (case csi_len cs of None \<Rightarrow> False | Some k \<Rightarrow> clean (drop k cs))
      else text_byte b \<and> clean bs)"
  by pat_completeness auto
termination by (relation "measure length") auto

lemma clean_plain: "b \<noteq> ESC \<Longrightarrow> clean (b # bs) \<longleftrightarrow> passes b \<and> clean bs"
  by (simp add: passes_text)

lemma clean_esc: "clean (ESC # bs) \<longleftrightarrow> (\<exists>cs k. bs = 0x5B # cs \<and> csi_len cs = Some k \<and> clean (drop k cs))"
  by (auto split: list.split option.split)

declare clean.simps(2) [simp del]

lemma clean_scan: "clean (fst (scan d))"
proof (induction d rule: scan.induct)
  case 1
  then show ?case by simp
next
  case (2 b bs)
  show ?case
  proof (cases "b = ESC")
    case False
    with 2(4,5) show ?thesis by (simp add: scan_cases clean_plain clean_esc)
  next
    case esc: True
    consider (fin) "bs = []" | (csi) cs where "bs = 0x5B # cs" | (other) c cs where "bs = c # cs" "c \<noteq> 0x5B"
      by (cases bs) auto
    then show ?thesis
    proof cases
      case fin
      with esc show ?thesis by (simp add: scan_cases)
    next
      case csi
      show ?thesis
      proof (cases "csi_len cs")
        case None
        with esc csi show ?thesis by (simp add: scan_cases)
      next
        case (Some k)
        have "csi_len (take k cs @ fst (scan (drop k cs))) = Some k" using Some by (rule csi_len_append)
        moreover have "drop k (take k cs @ fst (scan (drop k cs))) = fst (scan (drop k cs))"
          using csi_len_le [OF Some] by simp
        ultimately show ?thesis
          using 2(1) [OF esc csi refl Some] esc csi Some
          by (simp add: scan_cases clean_plain clean_esc)
      qed
    next
      case (other c cs)
      with 2(2,3) [OF esc other] esc show ?thesis by (auto simp: scan_cases)
    qed
  qed
qed

lemma scan_clean: "clean d \<Longrightarrow> scan d = (d, [])"
proof (induction d rule: clean.induct)
  case 1
  then show ?case by simp
next
  case (2 b bs)
  show ?case
  proof (cases "b = ESC")
    case False
    with 2 show ?thesis by (simp add: scan_cases clean_plain clean_esc)
  next
    case True
    with 2(3) obtain cs k where cs: "bs = 0x5B # cs" "csi_len cs = Some k" "clean (drop k cs)"
      by (auto simp: clean_esc)
    with True 2(1) [OF True cs(1) cs(2)] show ?thesis by (simp add: scan_cases)
  qed
qed


subsection \<open>A malformed CSI sequence\<close>

lemma scan_clean_append: "clean pre \<Longrightarrow> scan (pre @ d) = (pre @ fst (scan d), snd (scan d))"
  using scan_append [of pre d] by (simp add: scan_clean)

text \<open>
  C37. A CSI introducer followed by a byte that cannot belong to a CSI sequence makes the
  sanitizer treat the whole rest of the chunk as unfinished, although the sequence does not run
  off its end: nothing after it is emitted, and once the rest is longer than the cap all of it
  is discarded.
\<close>

theorem malformed_csi_discards_output:
  assumes "clean pre" "\<not> csi_param b" "\<not> csi_intermediate b" "\<not> csi_final b" "62 \<le> length ys"
  shows "Process (pre @ [0x1B, 0x5B, b] @ ys) NewSanitizer = (pre, NewSanitizer)"
proof -
  have "csi_len (b # ys) = None" using assms(2-4) by (simp add: csi_len_def)
  then have "scan (pre @ [ESC, 0x5B, b] @ ys) = (pre, [ESC, 0x5B, b] @ ys)"
    using scan_clean_append [OF assms(1)] by (simp add: scan_csi_None)
  with assms(5) show ?thesis
    by (simp add: Process_def NewSanitizer_def sanitizeWithCarry_def sanitizeFrom_scan maxPendingCarry_def
        Let_def ESC_def)
qed

theorem malformed_csi_discards_output_witness:
  "Process ([0x61] @ [0x1B, 0x5B, 0x80] @ replicate 100 0x62) NewSanitizer = ([0x61], NewSanitizer)"
  by (rule malformed_csi_discards_output)
    (simp_all add: clean_plain ESC_def passes_def whitelisted_def csi_param_def csi_intermediate_def csi_final_def)

end
