(* ===== verification/SerialMux.thy ===== *)
theory SerialMux
  imports SerialBytes
begin

text \<open>
  The serial multiplexer as a state machine (\<^verbatim>\<open>multiplexer.go\<close>, \<^verbatim>\<open>subscriber.go\<close>,
  \<^verbatim>\<open>rotation.go\<close>). A state holds the fields of the \<^verbatim>\<open>Multiplexer\<close> struct, the two log files,
  a heap of subscriber objects (a subscriber is shared between the multiplexer and the handler
  that reads from it) and the program point of each goroutine: the pump, the rotation loop and
  the history streams. One step is one critical section of the code, so that the interleavings
  the locks allow are the interleavings of the steps. Results of system calls are inputs of
  the steps.
\<close>

subsection \<open>Subscribers\<close>

datatype deliver_result = Delivered | errSubscriberClosed | errSubscriberFull

record ConsoleSubscriber =
  con_ch :: "byte list list"
  con_cap :: nat
  con_closed :: bool

definition newConsoleSubscriber :: "int \<Rightarrow> ConsoleSubscriber" where
  "newConsoleSubscriber capacity =
     \<lparr>con_ch = [], con_cap = (if capacity \<le> 0 then 1 else nat capacity), con_closed = False\<rparr>"

definition Console_Close :: "ConsoleSubscriber \<Rightarrow> ConsoleSubscriber" where
  "Console_Close s = s\<lparr>con_closed := True\<rparr>"

definition Console_tryDeliver :: "byte list \<Rightarrow> ConsoleSubscriber \<Rightarrow> deliver_result \<times> ConsoleSubscriber" where
  "Console_tryDeliver d s =
     (if con_closed s then (errSubscriberClosed, s)
      else if length (con_ch s) < con_cap s then (Delivered, s\<lparr>con_ch := con_ch s @ [d]\<rparr>)
      else (errSubscriberFull, s))"

text \<open>A receive from the channel by the handler.\<close>

definition Console_receive :: "ConsoleSubscriber \<Rightarrow> ConsoleSubscriber" where
  "Console_receive s = s\<lparr>con_ch := tl (con_ch s)\<rparr>"

record LogsSubscriber =
  ls_ch :: "byte list list"
  ls_cap :: nat
  ls_ready :: bool
  ls_closed :: bool
  ls_dropped :: "64 word"
  ls_follow :: bool

definition newLogsSubscriber :: "bool \<Rightarrow> int \<Rightarrow> LogsSubscriber" where
  "newLogsSubscriber follow capacity =
     \<lparr>ls_ch = [], ls_cap = (if capacity \<le> 0 then 1 else nat capacity), ls_ready = False,
      ls_closed = False, ls_dropped = 0, ls_follow = follow\<rparr>"

definition markReady :: "LogsSubscriber \<Rightarrow> LogsSubscriber" where
  "markReady s = s\<lparr>ls_ready := True\<rparr>"

definition AddDropped :: "64 word \<Rightarrow> LogsSubscriber \<Rightarrow> LogsSubscriber" where
  "AddDropped n s = s\<lparr>ls_dropped := ls_dropped s + n\<rparr>"

definition SwapDropped :: "LogsSubscriber \<Rightarrow> 64 word \<times> LogsSubscriber" where
  "SwapDropped s = (ls_dropped s, s\<lparr>ls_dropped := 0\<rparr>)"

definition Logs_Close :: "LogsSubscriber \<Rightarrow> LogsSubscriber" where
  "Logs_Close s = s\<lparr>ls_closed := True\<rparr>"

definition Logs_tryDeliver :: "byte list \<Rightarrow> LogsSubscriber \<Rightarrow> deliver_result \<times> LogsSubscriber" where
  "Logs_tryDeliver d s =
     (if ls_closed s then (errSubscriberClosed, s)
      else if length (ls_ch s) < ls_cap s then (Delivered, s\<lparr>ls_ch := ls_ch s @ [d]\<rparr>)
      else (errSubscriberFull, s))"

definition Logs_receive :: "LogsSubscriber \<Rightarrow> LogsSubscriber" where
  "Logs_receive s = s\<lparr>ls_ch := tl (ls_ch s)\<rparr>"

subsection \<open>Delivery with drop accounting\<close>

fun decimal :: "nat \<Rightarrow> byte list" where
  "decimal n = (if n < 10 then [0x30 + of_nat n] else decimal (n div 10) @ [0x30 + of_nat (n mod 10)])"

declare decimal.simps [simp del]

definition bytes_of :: "string \<Rightarrow> byte list" where
  "bytes_of s = map (\<lambda>c. of_nat (of_char c)) s"

text \<open>The marker \<^verbatim>\<open>"\r\n[otherix: %d bytes dropped]\r\n"\<close>.\<close>

definition dropMarker :: "64 word \<Rightarrow> byte list" where
  "dropMarker drops =
     [0x0D, 0x0A] @ bytes_of ''[otherix: '' @ decimal (unat drops) @ bytes_of '' bytes dropped]'' @ [0x0D, 0x0A]"

text \<open>The body of the loop of \<^verbatim>\<open>deliverToSubscribers\<close> for one live logs subscriber.\<close>

definition deliverOne :: "byte list \<Rightarrow> LogsSubscriber \<Rightarrow> LogsSubscriber" where
  "deliverOne payload sub =
     (let (drops, sub) = SwapDropped sub;
          toSend = (if drops > 0 then dropMarker drops @ payload else payload);
          (res, sub) = Logs_tryDeliver toSend sub
      in if res = errSubscriberFull then AddDropped (drops + of_nat (length payload)) sub else sub)"

subsection \<open>The multiplexer\<close>

datatype mux_err =
    ErrVMNameRequired | ErrLogDirRequired | ErrDialRequired | ErrMkdir | ErrDial | ErrOpenLog | ErrStatLog
  | ErrConsoleInUse | errMultiplexerClosed | ErrConnectionUnavailable | ErrWriteOnClosedSubscriber

text \<open>
  Program points of the pump: at the top of its loop, blocked in a read on a connection, and
  before the ring write, the disk write and the delivery of a sanitized chunk; the flag says
  that the read also returned an error.
\<close>

datatype pump_pc =
    PumpDone | PumpTop | PumpReading nat
  | PumpRing "byte list" bool | PumpDisk "byte list" bool | PumpDeliver "byte list" bool

text \<open>Program points of \<^verbatim>\<open>streamHistoryThenAttach\<close>: before the two file reads and before the attach.\<close>

datatype stream_pc =
    StreamReadRotated int | StreamReadCurrent int "string + byte list" | StreamAttach "byte list"

datatype transition = Idle | Reconnecting | Closing | Closed

record Multiplexer =
  mx_rotationThreshold :: int
  mx_closed :: bool
  mx_transition :: transition
  mx_consoleSub :: "nat option"
  mx_logsSubs :: "nat list"
  mx_conn :: "nat option"
  mx_ring :: RingBuffer
  mx_sanitizer :: Sanitizer
  mx_logFile :: bool
  mx_bytesWritten :: int
  mx_rotationCh :: bool
  mx_rotationLoop :: bool
  mx_pump :: pump_pc
  mx_streams :: "nat \<Rightarrow> stream_pc option"
  mx_consoles :: "nat \<Rightarrow> ConsoleSubscriber option"
  mx_logs :: "nat \<Rightarrow> LogsSubscriber option"
  mx_current :: "byte list option"
  mx_rotated :: "byte list option"

definition rotationThresholdBytes :: int where
  "rotationThresholdBytes = 10 * 1024 * 1024"

definition defaultSubscriberCapacity :: int where
  "defaultSubscriberCapacity = 32"

definition ringBufferBytes :: int where
  "ringBufferBytes = 8 * 1024"

definition consoleHistoryLines :: int where
  "consoleHistoryLines = 20"

text \<open>
  The outcomes of the system calls of the constructor: creating the directory, dialling,
  opening the log for append (which creates it), and its size.
\<close>

definition newMuxWithThreshold ::
    "string \<Rightarrow> string \<Rightarrow> bool \<Rightarrow> bool \<Rightarrow> nat option \<Rightarrow> bool \<Rightarrow> bool \<Rightarrow> byte list option \<Rightarrow> byte list option \<Rightarrow> int \<Rightarrow>
      mux_err + Multiplexer" where
  "newMuxWithThreshold vmName logDir hasDial mkdirOK dialed openOK statOK current rotated threshold =
     (if vmName = [] then Inl ErrVMNameRequired
      else if logDir = [] then Inl ErrLogDirRequired
      else if \<not> hasDial then Inl ErrDialRequired
      else
        let threshold = (if threshold \<le> 0 then rotationThresholdBytes else threshold)
        in if \<not> mkdirOK then Inl ErrMkdir
           else case dialed of
             None \<Rightarrow> Inl ErrDial
           | Some c \<Rightarrow>
               if \<not> openOK then Inl ErrOpenLog
               else if \<not> statOK then Inl ErrStatLog
               else
                 let file = (case current of None \<Rightarrow> [] | Some d \<Rightarrow> d)
                 in Inr \<lparr>mx_rotationThreshold = threshold, mx_closed = False, mx_transition = Idle,
                      mx_consoleSub = None, mx_logsSubs = [], mx_conn = Some c,
                      mx_ring = NewRingBuffer ringBufferBytes, mx_sanitizer = NewSanitizer,
                      mx_logFile = True, mx_bytesWritten = int (length file), mx_rotationCh = False,
                      mx_rotationLoop = True, mx_pump = PumpTop, mx_streams = (\<lambda>_. None),
                      mx_consoles = (\<lambda>_. None), mx_logs = (\<lambda>_. None),
                      mx_current = Some file, mx_rotated = rotated\<rparr>)"

definition console_live :: "Multiplexer \<Rightarrow> bool" where
  "console_live m \<longleftrightarrow>
     (case mx_consoleSub m of
        None \<Rightarrow> False
      | Some i \<Rightarrow> (case mx_consoles m i of None \<Rightarrow> False | Some s \<Rightarrow> \<not> con_closed s))"

text \<open>Allocating the subscriber object at the fresh address \<open>i\<close>.\<close>

definition SubscribeConsole :: "nat \<Rightarrow> Multiplexer \<Rightarrow> mux_err + Multiplexer" where
  "SubscribeConsole i m =
     (if console_live m then Inl ErrConsoleInUse
      else
        let sub = newConsoleSubscriber defaultSubscriberCapacity;
            history = LastNLines consoleHistoryLines (mx_ring m);
            sub = (if history \<noteq> [] then snd (Console_tryDeliver history sub) else sub)
        in Inr (m\<lparr>mx_consoleSub := Some i, mx_consoles := (mx_consoles m)(i \<mapsto> sub)\<rparr>))"

definition SubscribeLogs :: "nat \<Rightarrow> int \<Rightarrow> bool \<Rightarrow> Multiplexer \<Rightarrow> Multiplexer" where
  "SubscribeLogs i tailLines follow m =
     m\<lparr>mx_logs := (mx_logs m)(i \<mapsto> newLogsSubscriber follow defaultSubscriberCapacity),
       mx_streams := (mx_streams m)(i \<mapsto>
         (if tailLines \<noteq> 0 then StreamReadRotated tailLines else StreamAttach []))\<rparr>"

text \<open>\<^verbatim>\<open>readTailLines\<close> reads the rotated file, then the current one; either read may fail.\<close>

definition stream_read_rotated :: "nat \<Rightarrow> string option \<Rightarrow> Multiplexer \<Rightarrow> Multiplexer" where
  "stream_read_rotated i err m =
     (case mx_streams m i of
        Some (StreamReadRotated n) \<Rightarrow>
          (case readFileIfExists (case err of Some e \<Rightarrow> Inl e | None \<Rightarrow> Inr (mx_rotated m)) of
             Inl e \<Rightarrow> m\<lparr>mx_streams := (mx_streams m)(i \<mapsto> StreamAttach [])\<rparr>
           | Inr d \<Rightarrow> m\<lparr>mx_streams := (mx_streams m)(i \<mapsto> StreamReadCurrent n (Inr d))\<rparr>)
      | _ \<Rightarrow> m)"

definition stream_read_current :: "nat \<Rightarrow> string option \<Rightarrow> Multiplexer \<Rightarrow> Multiplexer" where
  "stream_read_current i err m =
     (case mx_streams m i of
        Some (StreamReadCurrent n rotated) \<Rightarrow>
          (case readTailLines (map_sum id Some rotated) (case err of Some e \<Rightarrow> Inl e | None \<Rightarrow> Inr (mx_current m)) n of
             Inl e \<Rightarrow> m\<lparr>mx_streams := (mx_streams m)(i \<mapsto> StreamAttach [])\<rparr>
           | Inr tail \<Rightarrow> m\<lparr>mx_streams := (mx_streams m)(i \<mapsto> StreamAttach tail)\<rparr>)
      | _ \<Rightarrow> m)"

text \<open>The last part of \<^verbatim>\<open>streamHistoryThenAttach\<close>: deliver the tail, then close or attach, then ready.\<close>

definition stream_attach :: "nat \<Rightarrow> Multiplexer \<Rightarrow> Multiplexer" where
  "stream_attach i m =
     (case (mx_streams m i, mx_logs m i) of
        (Some (StreamAttach tail), Some sub) \<Rightarrow>
          let sub = (if tail \<noteq> [] then snd (Logs_tryDeliver tail sub) else sub);
              m = m\<lparr>mx_streams := (mx_streams m)(i := None)\<rparr>
          in if \<not> ls_follow sub
             then m\<lparr>mx_logs := (mx_logs m)(i \<mapsto> markReady (Logs_Close sub))\<rparr>
             else m\<lparr>mx_logs := (mx_logs m)(i \<mapsto> markReady sub), mx_logsSubs := mx_logsSubs m @ [i]\<rparr>
      | _ \<Rightarrow> m)"

subsection \<open>The pump\<close>

definition pump_top :: "Multiplexer \<Rightarrow> Multiplexer" where
  "pump_top m =
     (case mx_conn m of
        None \<Rightarrow> m\<lparr>mx_pump := PumpDone\<rparr>
      | Some c \<Rightarrow> m\<lparr>mx_pump := PumpReading c\<rparr>)"

definition pump_next :: "bool \<Rightarrow> pump_pc" where
  "pump_next err = (if err then PumpDone else PumpTop)"

definition pump_read :: "byte list \<Rightarrow> bool \<Rightarrow> Multiplexer \<Rightarrow> Multiplexer" where
  "pump_read chunk err m =
     (if chunk \<noteq> [] then
        let (out, s) = Process chunk (mx_sanitizer m);
            m = m\<lparr>mx_sanitizer := s\<rparr>
        in if out \<noteq> [] then m\<lparr>mx_pump := PumpRing out err\<rparr> else m\<lparr>mx_pump := pump_next err\<rparr>
      else m\<lparr>mx_pump := pump_next err\<rparr>)"

definition pump_ring :: "byte list \<Rightarrow> bool \<Rightarrow> Multiplexer \<Rightarrow> Multiplexer" where
  "pump_ring d err m = m\<lparr>mx_ring := RingBuffer_Write d (mx_ring m), mx_pump := PumpDisk d err\<rparr>"

definition writeToDisk :: "byte list \<Rightarrow> bool \<Rightarrow> Multiplexer \<Rightarrow> Multiplexer" where
  "writeToDisk d writeOK m =
     (if \<not> mx_logFile m then m
      else if \<not> writeOK then m
      else
        let m = m\<lparr>mx_current := Some ((case mx_current m of None \<Rightarrow> [] | Some f \<Rightarrow> f) @ d),
                  mx_bytesWritten := mx_bytesWritten m + int (length d)\<rparr>
        in if mx_bytesWritten m \<ge> mx_rotationThreshold m then m\<lparr>mx_rotationCh := True\<rparr> else m)"

definition pump_disk :: "byte list \<Rightarrow> bool \<Rightarrow> bool \<Rightarrow> Multiplexer \<Rightarrow> Multiplexer" where
  "pump_disk d err writeOK m = (writeToDisk d writeOK m)\<lparr>mx_pump := PumpDeliver d err\<rparr>"

definition log_open :: "Multiplexer \<Rightarrow> nat \<Rightarrow> bool" where
  "log_open m i \<longleftrightarrow> (case mx_logs m i of None \<Rightarrow> False | Some s \<Rightarrow> \<not> ls_closed s)"

definition deliverToSubscribers :: "byte list \<Rightarrow> Multiplexer \<Rightarrow> Multiplexer" where
  "deliverToSubscribers d m =
     (let m = (case mx_consoleSub m of
                 None \<Rightarrow> m
               | Some i \<Rightarrow>
                   (case mx_consoles m i of
                      None \<Rightarrow> m
                    | Some s \<Rightarrow>
                        if con_closed s then m
                        else m\<lparr>mx_consoles := (mx_consoles m)(i \<mapsto> snd (Console_tryDeliver d s))\<rparr>));
          alive = filter (log_open m) (mx_logsSubs m);
          logs = fold (\<lambda>i h. h(i := map_option (deliverOne d) (h i))) alive (mx_logs m)
      in m\<lparr>mx_logs := logs, mx_logsSubs := alive\<rparr>)"

definition pump_deliver :: "byte list \<Rightarrow> bool \<Rightarrow> Multiplexer \<Rightarrow> Multiplexer" where
  "pump_deliver d err m = (deliverToSubscribers d m)\<lparr>mx_pump := pump_next err\<rparr>"

subsection \<open>Rotation\<close>

text \<open>
  \<^verbatim>\<open>rotateLogFile\<close> on the two files: whether the rename (of an existing file) and the open
  succeed. The result says whether a handle was obtained.
\<close>

definition rotateLogFile ::
    "bool \<Rightarrow> bool \<Rightarrow> byte list option \<times> byte list option \<Rightarrow> bool \<times> byte list option \<times> byte list option" where
  "rotateLogFile renameOK openOK files =
     (let (current, rotated) = files
      in if current \<noteq> None \<and> \<not> renameOK then (False, current, rotated)
         else
           let (current, rotated) = (case current of None \<Rightarrow> (None, rotated) | Some d \<Rightarrow> (None, Some d))
           in if openOK then (True, Some [], rotated) else (False, current, rotated))"

definition runRotation :: "bool \<Rightarrow> bool \<Rightarrow> bool \<Rightarrow> Multiplexer \<Rightarrow> Multiplexer" where
  "runRotation renameOK openOK reopenOK m =
     (let m = m\<lparr>mx_rotationCh := False\<rparr>
      in if \<not> mx_logFile m then m
         else
           let (ok, current, rotated) = rotateLogFile renameOK openOK (mx_current m, mx_rotated m);
               m = m\<lparr>mx_logFile := False, mx_current := current, mx_rotated := rotated\<rparr>
           in if ok then m\<lparr>mx_logFile := True, mx_bytesWritten := 0\<rparr>
              else if \<not> reopenOK then m
              else m\<lparr>mx_logFile := True, mx_bytesWritten := 0,
                     mx_current := Some (case mx_current m of None \<Rightarrow> [] | Some d \<Rightarrow> d)\<rparr>)"

subsection \<open>Reconnect and Close\<close>

text \<open>Each is split where it waits for the other goroutines; \<^verbatim>\<open>transitionMu\<close> is held in between.\<close>

definition reconnect_begin :: "Multiplexer \<Rightarrow> mux_err + Multiplexer" where
  "reconnect_begin m =
     (if mx_closed m then Inl errMultiplexerClosed
      else Inr (m\<lparr>mx_conn := None, mx_transition := Reconnecting\<rparr>))"

definition reconnect_end :: "nat option \<Rightarrow> Multiplexer \<Rightarrow> Multiplexer \<times> mux_err option" where
  "reconnect_end dialed m =
     (let m = m\<lparr>mx_transition := Idle\<rparr>
      in case dialed of
           None \<Rightarrow> (m, Some ErrDial)
         | Some c \<Rightarrow> (m\<lparr>mx_conn := Some c, mx_pump := PumpTop\<rparr>, None))"

definition close_begin :: "Multiplexer \<Rightarrow> Multiplexer" where
  "close_begin m =
     (if mx_closed m then m
      else m\<lparr>mx_closed := True, mx_conn := None, mx_transition := Closing\<rparr>)"

definition close_end :: "Multiplexer \<Rightarrow> Multiplexer" where
  "close_end m =
     (let m = m\<lparr>mx_logFile := False\<rparr>;
          m = (case mx_consoleSub m of
                 None \<Rightarrow> m
               | Some i \<Rightarrow> m\<lparr>mx_consoles := (mx_consoles m)(i := map_option Console_Close (mx_consoles m i)),
                             mx_consoleSub := None\<rparr>)
      in m\<lparr>mx_logs := fold (\<lambda>i h. h(i := map_option Logs_Close (h i))) (mx_logsSubs m) (mx_logs m),
           mx_logsSubs := [], mx_transition := Closed\<rparr>)"

definition writeToQEMU :: "byte list \<Rightarrow> Multiplexer \<Rightarrow> mux_err + nat \<times> byte list" where
  "writeToQEMU d m = (case mx_conn m of None \<Rightarrow> Inl ErrConnectionUnavailable | Some c \<Rightarrow> Inr (c, d))"

definition Console_Write :: "byte list \<Rightarrow> ConsoleSubscriber \<Rightarrow> Multiplexer \<Rightarrow> mux_err + nat \<times> byte list" where
  "Console_Write d s m = (if con_closed s then Inl ErrWriteOnClosedSubscriber else writeToQEMU d m)"

subsection \<open>Steps\<close>

text \<open>
  The label of a step is what it appends to the log file. A goroutine steps only at its program
  point, \<^verbatim>\<open>transitionMu\<close> admits one transition at a time, and the two waits of \<^verbatim>\<open>Reconnect\<close> and
  \<^verbatim>\<open>Close\<close> are guards.
\<close>

inductive mux_step :: "Multiplexer \<Rightarrow> byte list \<Rightarrow> Multiplexer \<Rightarrow> bool" where
  step_top: "mx_pump m = PumpTop \<Longrightarrow> mux_step m [] (pump_top m)"
| step_read: "mx_pump m = PumpReading c \<Longrightarrow> mux_step m [] (pump_read chunk err m)"
| step_ring: "mx_pump m = PumpRing d err \<Longrightarrow> mux_step m [] (pump_ring d err m)"
| step_disk: "mx_pump m = PumpDisk d err \<Longrightarrow>
    mux_step m (if mx_logFile m \<and> ok then d else []) (pump_disk d err ok m)"
| step_deliver: "mx_pump m = PumpDeliver d err \<Longrightarrow> mux_step m [] (pump_deliver d err m)"
| step_rotate: "mx_rotationLoop m \<Longrightarrow> mx_rotationCh m \<Longrightarrow> mux_step m [] (runRotation rn op re m)"
| step_rotation_exit: "mx_rotationLoop m \<Longrightarrow> mx_closed m \<Longrightarrow> mux_step m [] (m\<lparr>mx_rotationLoop := False\<rparr>)"
| step_console: "mx_consoles m i = None \<Longrightarrow> SubscribeConsole i m = Inr m' \<Longrightarrow> mux_step m [] m'"
| step_console_close: "mx_consoles m i = Some s \<Longrightarrow>
    mux_step m [] (m\<lparr>mx_consoles := (mx_consoles m)(i \<mapsto> Console_Close s)\<rparr>)"
| step_console_receive: "mx_consoles m i = Some s \<Longrightarrow> con_ch s \<noteq> [] \<Longrightarrow>
    mux_step m [] (m\<lparr>mx_consoles := (mx_consoles m)(i \<mapsto> Console_receive s)\<rparr>)"
| step_logs: "mx_logs m i = None \<Longrightarrow> mux_step m [] (SubscribeLogs i n follow m)"
| step_stream_rotated: "mx_streams m i = Some (StreamReadRotated n) \<Longrightarrow>
    mux_step m [] (stream_read_rotated i e m)"
| step_stream_current: "mx_streams m i = Some (StreamReadCurrent n r) \<Longrightarrow>
    mux_step m [] (stream_read_current i e m)"
| step_stream_attach: "mx_streams m i = Some (StreamAttach t) \<Longrightarrow> mux_step m [] (stream_attach i m)"
| step_logs_close: "mx_logs m i = Some l \<Longrightarrow>
    mux_step m [] (m\<lparr>mx_logs := (mx_logs m)(i \<mapsto> Logs_Close l)\<rparr>)"
| step_logs_receive: "mx_logs m i = Some l \<Longrightarrow> ls_ch l \<noteq> [] \<Longrightarrow>
    mux_step m [] (m\<lparr>mx_logs := (mx_logs m)(i \<mapsto> Logs_receive l)\<rparr>)"
| step_reconnect_begin: "mx_transition m = Idle \<Longrightarrow> reconnect_begin m = Inr m' \<Longrightarrow> mux_step m [] m'"
| step_reconnect_end: "mx_transition m = Reconnecting \<Longrightarrow> mx_pump m = PumpDone \<Longrightarrow>
    mux_step m [] (fst (reconnect_end dialed m))"
| step_close_begin: "mx_transition m = Idle \<Longrightarrow> mux_step m [] (close_begin m)"
| step_close_end: "mx_transition m = Closing \<Longrightarrow> mx_pump m = PumpDone \<Longrightarrow> \<not> mx_rotationLoop m \<Longrightarrow>
    \<forall>i. mx_streams m i = None \<Longrightarrow> mux_step m [] (close_end m)"

text \<open>Reachability from a fresh multiplexer, with everything that was on disk or was appended since.\<close>

inductive mux_reach :: "Multiplexer \<Rightarrow> byte list \<Rightarrow> bool" where
  reach_new: "newMuxWithThreshold vmName logDir True True (Some c) True True current rotated threshold = Inr m \<Longrightarrow>
    mux_reach m ((case mx_rotated m of None \<Rightarrow> [] | Some d \<Rightarrow> d) @ (case mx_current m of None \<Rightarrow> [] | Some d \<Rightarrow> d))"
| reach_step: "mux_reach m logged \<Longrightarrow> mux_step m l m' \<Longrightarrow> mux_reach m' (logged @ l)"

inductive_cases mux_stepE: "mux_step m l m'"

end
