(* ===== verification/SerialMuxProps.thy ===== *)
theory SerialMuxProps
  imports SerialMux SerialProps
begin

text \<open>
  Invariants of the serial multiplexer over every interleaving of its goroutines, and the
  accounting of dropped bytes.
\<close>

subsection \<open>Delivery\<close>

lemma Console_tryDeliver_bound:
  "length (con_ch s) \<le> con_cap s \<Longrightarrow>
     length (con_ch (snd (Console_tryDeliver d s))) \<le> con_cap (snd (Console_tryDeliver d s)) \<and>
     con_closed (snd (Console_tryDeliver d s)) = con_closed s"
  by (simp add: Console_tryDeliver_def)

lemma Console_tryDeliver_closed [simp]: "con_closed (snd (Console_tryDeliver d s)) = con_closed s"
  by (simp add: Console_tryDeliver_def)

lemma Logs_tryDeliver_bound:
  "length (ls_ch s) \<le> ls_cap s \<Longrightarrow>
     length (ls_ch (snd (Logs_tryDeliver d s))) \<le> ls_cap (snd (Logs_tryDeliver d s)) \<and>
     ls_follow (snd (Logs_tryDeliver d s)) = ls_follow s"
  by (simp add: Logs_tryDeliver_def)

text \<open>One delivery to a live subscriber either enqueues the payload, preceded by a marker for what
was lost before, or adds the payload to the count of lost bytes.\<close>

lemma deliverOne_cases:
  "\<not> ls_closed s \<Longrightarrow> deliverOne d s =
     (if length (ls_ch s) < ls_cap s
      then s\<lparr>ls_ch := ls_ch s @ [(if ls_dropped s > 0 then dropMarker (ls_dropped s) @ d else d)], ls_dropped := 0\<rparr>
      else s\<lparr>ls_dropped := ls_dropped s + of_nat (length d)\<rparr>)"
  by (simp add: deliverOne_def SwapDropped_def Logs_tryDeliver_def AddDropped_def Let_def)

lemma deliverOne_bound:
  "length (ls_ch s) \<le> ls_cap s \<Longrightarrow> length (ls_ch (deliverOne d s)) \<le> ls_cap (deliverOne d s)"
  by (auto simp: deliverOne_def SwapDropped_def Logs_tryDeliver_def AddDropped_def Let_def)

lemma deliverOne_follow [simp]: "ls_follow (deliverOne d s) = ls_follow s"
  by (auto simp: deliverOne_def SwapDropped_def Logs_tryDeliver_def AddDropped_def Let_def)

lemma fold_heap:
  "distinct js \<Longrightarrow> fold (\<lambda>i h. h(i := map_option f (h i))) js h i =
     (if i \<in> set js then map_option f (h i) else h i)"
  by (induction js arbitrary: h) auto

lemma log_open_consoles [simp]: "log_open (m\<lparr>mx_consoles := c\<rparr>) = log_open m"
  by (rule ext) (simp add: log_open_def)

text \<open>What \<^verbatim>\<open>deliverToSubscribers\<close> and the end of \<^verbatim>\<open>Close\<close> change.\<close>

lemma deliverToSubscribers_fields:
  "\<exists>c. deliverToSubscribers d m =
     m\<lparr>mx_consoles := c,
       mx_logs := fold (\<lambda>i h. h(i := map_option (deliverOne d) (h i))) (filter (log_open m) (mx_logsSubs m)) (mx_logs m),
       mx_logsSubs := filter (log_open m) (mx_logsSubs m)\<rparr> \<and>
     (\<forall>i. c i = mx_consoles m i \<or> (\<exists>s. mx_consoles m i = Some s \<and> c i = Some (snd (Console_tryDeliver d s))))"
proof (cases "\<exists>i s. mx_consoleSub m = Some i \<and> mx_consoles m i = Some s \<and> \<not> con_closed s")
  case True
  then obtain i s where "mx_consoleSub m = Some i" "mx_consoles m i = Some s" "\<not> con_closed s" by blast
  then show ?thesis
    by (intro exI [of _ "(mx_consoles m)(i \<mapsto> snd (Console_tryDeliver d s))"])
      (simp add: deliverToSubscribers_def Let_def)
next
  case False
  then show ?thesis
    by (intro exI [of _ "mx_consoles m"]) (auto simp: deliverToSubscribers_def Let_def split: option.split)
qed

lemma close_end_fields:
  "\<exists>c. close_end m =
     m\<lparr>mx_logFile := False, mx_consoles := c, mx_consoleSub := None,
       mx_logs := fold (\<lambda>i h. h(i := map_option Logs_Close (h i))) (mx_logsSubs m) (mx_logs m),
       mx_logsSubs := [], mx_transition := Closed\<rparr> \<and>
     (\<forall>i. c i = (if mx_consoleSub m = Some i then map_option Console_Close (mx_consoles m i) else mx_consoles m i))"
proof (cases "mx_consoleSub m")
  case None
  then have "m\<lparr>mx_consoleSub := None, mx_consoles := mx_consoles m\<rparr> = m" by (cases m) simp
  with None show ?thesis
    by (intro exI [of _ "mx_consoles m"] conjI) (cases m, simp_all add: close_end_def Let_def)
next
  case (Some i)
  then show ?thesis
    by (intro exI [of _ "(mx_consoles m)(i := map_option Console_Close (mx_consoles m i))"])
      (simp add: close_end_def Let_def)
qed

text \<open>What a rotation changes: the handle, the counter and the files; the files are unchanged, or the
current one has become the rotated one.\<close>

lemma runRotation_fields:
  "\<exists>lf bw cur rot. runRotation rn op re m =
     m\<lparr>mx_rotationCh := False, mx_logFile := lf, mx_bytesWritten := bw, mx_current := cur, mx_rotated := rot\<rparr> \<and>
     (lf \<longrightarrow> cur \<noteq> None) \<and> (\<not> mx_logFile m \<longrightarrow> \<not> lf) \<and>
     (cur = mx_current m \<and> rot = mx_rotated m \<or> mx_current m = None \<and> cur = Some [] \<and> rot = mx_rotated m \<or>
      mx_current m \<noteq> None \<and> rot = mx_current m \<and> (cur = None \<or> cur = Some []))"
proof (cases "mx_logFile m")
  case False
  then show ?thesis
    by (intro exI [of _ False] exI [of _ "mx_bytesWritten m"] exI [of _ "mx_current m"] exI [of _ "mx_rotated m"])
      (cases m, simp add: runRotation_def)
next
  case True
  then show ?thesis
    by (cases "mx_current m"; cases rn; cases op; cases re; cases m)
      (auto simp: runRotation_def rotateLogFile_def Let_def)
qed

subsection \<open>The invariant\<close>

definition queues_ok :: "Multiplexer \<Rightarrow> bool" where
  "queues_ok m \<longleftrightarrow>
     (\<forall>i s. mx_consoles m i = Some s \<longrightarrow> length (con_ch s) \<le> con_cap s) \<and>
     (\<forall>i s. mx_logs m i = Some s \<longrightarrow> length (ls_ch s) \<le> ls_cap s)"

definition console_ok :: "Multiplexer \<Rightarrow> bool" where
  "console_ok m \<longleftrightarrow>
     (\<forall>i s. mx_consoles m i = Some s \<longrightarrow> \<not> con_closed s \<longrightarrow> mx_consoleSub m = Some i)"

definition logs_ok :: "Multiplexer \<Rightarrow> bool" where
  "logs_ok m \<longleftrightarrow> distinct (mx_logsSubs m) \<and>
     (\<forall>i\<in>set (mx_logsSubs m). mx_streams m i = None \<and> map_option ls_follow (mx_logs m i) = Some True) \<and>
     (\<forall>i. mx_streams m i \<noteq> None \<longrightarrow> mx_logs m i \<noteq> None)"

definition buffers_ok :: "Multiplexer \<Rightarrow> bool" where
  "buffers_ok m \<longleftrightarrow> rb_maxBytes (mx_ring m) = ringBufferBytes \<and>
     int (length (rb_data (mx_ring m))) \<le> ringBufferBytes \<and>
     length (sz_pending (mx_sanitizer m)) \<le> maxPendingCarry"

definition phase_ok :: "Multiplexer \<Rightarrow> bool" where
  "phase_ok m \<longleftrightarrow> (mx_closed m \<longleftrightarrow> mx_transition m = Closing \<or> mx_transition m = Closed) \<and>
     (mx_transition m \<noteq> Idle \<longrightarrow> mx_conn m = None) \<and>
     (mx_logFile m \<longrightarrow> mx_current m \<noteq> None) \<and>
     (mx_transition m = Closed \<longrightarrow> \<not> mx_logFile m \<and> mx_pump m = PumpDone \<and> \<not> mx_rotationLoop m)"

lemma deliver_frame [simp]:
  "mx_closed (deliverToSubscribers d m) = mx_closed m" "mx_transition (deliverToSubscribers d m) = mx_transition m" "mx_conn (deliverToSubscribers d m) = mx_conn m" "mx_logFile (deliverToSubscribers d m) = mx_logFile m" "mx_current (deliverToSubscribers d m) = mx_current m" "mx_rotated (deliverToSubscribers d m) = mx_rotated m" "mx_pump (deliverToSubscribers d m) = mx_pump m" "mx_rotationLoop (deliverToSubscribers d m) = mx_rotationLoop m" "mx_ring (deliverToSubscribers d m) = mx_ring m" "mx_sanitizer (deliverToSubscribers d m) = mx_sanitizer m" "mx_streams (deliverToSubscribers d m) = mx_streams m" "mx_consoleSub (deliverToSubscribers d m) = mx_consoleSub m"
  "mx_logsSubs (deliverToSubscribers d m) = filter (log_open m) (mx_logsSubs m)"
  by (simp_all add: deliverToSubscribers_def Let_def split: option.split)

lemma close_frame [simp]:
  "mx_closed (close_end m) = mx_closed m" "mx_conn (close_end m) = mx_conn m" "mx_current (close_end m) = mx_current m" "mx_rotated (close_end m) = mx_rotated m" "mx_pump (close_end m) = mx_pump m" "mx_rotationLoop (close_end m) = mx_rotationLoop m" "mx_ring (close_end m) = mx_ring m" "mx_sanitizer (close_end m) = mx_sanitizer m" "mx_streams (close_end m) = mx_streams m"
  "mx_transition (close_end m) = Closed" "mx_logFile (close_end m) = False" "mx_consoleSub (close_end m) = None" "mx_logsSubs (close_end m) = []"
  by (simp_all add: close_end_def Let_def split: option.split)

lemma rotation_frame [simp]:
  "mx_closed (runRotation rn op re m) = mx_closed m" "mx_transition (runRotation rn op re m) = mx_transition m" "mx_conn (runRotation rn op re m) = mx_conn m" "mx_pump (runRotation rn op re m) = mx_pump m" "mx_rotationLoop (runRotation rn op re m) = mx_rotationLoop m" "mx_ring (runRotation rn op re m) = mx_ring m" "mx_sanitizer (runRotation rn op re m) = mx_sanitizer m" "mx_streams (runRotation rn op re m) = mx_streams m" "mx_consoleSub (runRotation rn op re m) = mx_consoleSub m" "mx_logsSubs (runRotation rn op re m) = mx_logsSubs m" "mx_consoles (runRotation rn op re m) = mx_consoles m" "mx_logs (runRotation rn op re m) = mx_logs m"
  by (simp_all add: runRotation_def Let_def split: prod.split)

text \<open>The pump leaves the subscribers alone until it delivers.\<close>

lemma pump_frame [simp]:
  "mx_consoles (pump_top m) = mx_consoles m" "mx_logs (pump_top m) = mx_logs m" "mx_logsSubs (pump_top m) = mx_logsSubs m" "mx_streams (pump_top m) = mx_streams m" "mx_consoleSub (pump_top m) = mx_consoleSub m"
  "mx_consoles (pump_read c e m) = mx_consoles m" "mx_logs (pump_read c e m) = mx_logs m" "mx_logsSubs (pump_read c e m) = mx_logsSubs m" "mx_streams (pump_read c e m) = mx_streams m" "mx_consoleSub (pump_read c e m) = mx_consoleSub m"
  "mx_consoles (pump_ring d e m) = mx_consoles m" "mx_logs (pump_ring d e m) = mx_logs m" "mx_logsSubs (pump_ring d e m) = mx_logsSubs m" "mx_streams (pump_ring d e m) = mx_streams m" "mx_consoleSub (pump_ring d e m) = mx_consoleSub m"
  "mx_consoles (pump_disk d e ok m) = mx_consoles m" "mx_logs (pump_disk d e ok m) = mx_logs m" "mx_logsSubs (pump_disk d e ok m) = mx_logsSubs m" "mx_streams (pump_disk d e ok m) = mx_streams m" "mx_consoleSub (pump_disk d e ok m) = mx_consoleSub m"
  by (simp_all add: pump_top_def pump_read_def pump_ring_def pump_disk_def writeToDisk_def Let_def
      split: option.split prod.split)

lemmas pump_ops = pump_top_def pump_read_def pump_ring_def pump_disk_def writeToDisk_def

text \<open>Attaching a subscriber changes nothing but the subscribers.\<close>

lemma attach_frame [simp]:
  "mx_closed (SubscribeLogs i n f m) = mx_closed m" "mx_transition (SubscribeLogs i n f m) = mx_transition m" "mx_conn (SubscribeLogs i n f m) = mx_conn m" "mx_logFile (SubscribeLogs i n f m) = mx_logFile m" "mx_current (SubscribeLogs i n f m) = mx_current m" "mx_rotated (SubscribeLogs i n f m) = mx_rotated m" "mx_pump (SubscribeLogs i n f m) = mx_pump m" "mx_rotationLoop (SubscribeLogs i n f m) = mx_rotationLoop m" "mx_ring (SubscribeLogs i n f m) = mx_ring m" "mx_sanitizer (SubscribeLogs i n f m) = mx_sanitizer m"
  "mx_closed (stream_read_rotated i x m) = mx_closed m" "mx_transition (stream_read_rotated i x m) = mx_transition m" "mx_conn (stream_read_rotated i x m) = mx_conn m" "mx_logFile (stream_read_rotated i x m) = mx_logFile m" "mx_current (stream_read_rotated i x m) = mx_current m" "mx_rotated (stream_read_rotated i x m) = mx_rotated m" "mx_pump (stream_read_rotated i x m) = mx_pump m" "mx_rotationLoop (stream_read_rotated i x m) = mx_rotationLoop m" "mx_ring (stream_read_rotated i x m) = mx_ring m" "mx_sanitizer (stream_read_rotated i x m) = mx_sanitizer m"
  "mx_closed (stream_read_current i x m) = mx_closed m" "mx_transition (stream_read_current i x m) = mx_transition m" "mx_conn (stream_read_current i x m) = mx_conn m" "mx_logFile (stream_read_current i x m) = mx_logFile m" "mx_current (stream_read_current i x m) = mx_current m" "mx_rotated (stream_read_current i x m) = mx_rotated m" "mx_pump (stream_read_current i x m) = mx_pump m" "mx_rotationLoop (stream_read_current i x m) = mx_rotationLoop m" "mx_ring (stream_read_current i x m) = mx_ring m" "mx_sanitizer (stream_read_current i x m) = mx_sanitizer m"
  "mx_closed (stream_attach i m) = mx_closed m" "mx_transition (stream_attach i m) = mx_transition m" "mx_conn (stream_attach i m) = mx_conn m" "mx_logFile (stream_attach i m) = mx_logFile m" "mx_current (stream_attach i m) = mx_current m" "mx_rotated (stream_attach i m) = mx_rotated m" "mx_pump (stream_attach i m) = mx_pump m" "mx_rotationLoop (stream_attach i m) = mx_rotationLoop m" "mx_ring (stream_attach i m) = mx_ring m" "mx_sanitizer (stream_attach i m) = mx_sanitizer m"
  by (simp_all add: SubscribeLogs_def stream_read_rotated_def stream_read_current_def stream_attach_def Let_def
      split: option.split stream_pc.split sum.split)

lemma SubscribeConsole_fields:
  "SubscribeConsole i m = Inr m' \<Longrightarrow> \<not> console_live m \<and>
     (\<exists>s. m' = m\<lparr>mx_consoleSub := Some i, mx_consoles := (mx_consoles m)(i \<mapsto> s)\<rparr> \<and>
       length (con_ch s) \<le> con_cap s)"
  by (auto simp: SubscribeConsole_def Let_def newConsoleSubscriber_def Console_tryDeliver_def
      defaultSubscriberCapacity_def split: if_splits)

lemmas transition_ops = reconnect_begin_def reconnect_end_def close_begin_def Let_def

lemmas mux_ops =
  SubscribeConsole_def SubscribeLogs_def
  stream_read_rotated_def stream_read_current_def stream_attach_def reconnect_begin_def reconnect_end_def
  close_begin_def Let_def

lemmas mux_subs = markReady_def Logs_Close_def Logs_receive_def Console_Close_def Console_receive_def
  newLogsSubscriber_def newConsoleSubscriber_def

lemma logs_ok_step:
  assumes "mux_step m l m'" "logs_ok m"
  shows "logs_ok m'"
  using assms(1)
proof cases
  case (step_rotate rn op re)
  then show ?thesis using assms(2) by (simp add: logs_ok_def)
next
  case (step_deliver d err)
  then show ?thesis
    using deliverToSubscribers_fields [of d m] assms(2)
    by (auto simp: pump_deliver_def logs_ok_def fold_heap log_open_def)
next
  case step_close_end
  then show ?thesis
    using close_end_fields [of m] assms(2)
    by (auto simp: logs_ok_def fold_heap)
next
  case (step_stream_attach i t)
  then show ?thesis
    using assms(2)
    by (auto simp: mux_ops logs_ok_def mux_subs Logs_tryDeliver_def split: option.splits)
qed (use assms(2) in \<open>auto simp: mux_ops logs_ok_def mux_subs split: option.splits sum.splits if_splits prod.splits\<close>)

lemma queues_ok_step:
  assumes "mux_step m l m'" "queues_ok m" "logs_ok m"
  shows "queues_ok m'"
  using assms(1)
proof cases
  case (step_rotate rn op re)
  then show ?thesis using assms(2) by (simp add: queues_ok_def)
next
  case (step_deliver d err)
  obtain c where c: "deliverToSubscribers d m =
     m\<lparr>mx_consoles := c,
       mx_logs := fold (\<lambda>i h. h(i := map_option (deliverOne d) (h i))) (filter (log_open m) (mx_logsSubs m)) (mx_logs m),
       mx_logsSubs := filter (log_open m) (mx_logsSubs m)\<rparr>"
    "\<forall>i. c i = mx_consoles m i \<or> (\<exists>s. mx_consoles m i = Some s \<and> c i = Some (snd (Console_tryDeliver d s)))"
    using deliverToSubscribers_fields by blast
  have "length (con_ch s) \<le> con_cap s" if "c i = Some s" for i s
    using c(2) [rule_format, of i] that assms(2) Console_tryDeliver_bound by (auto simp: queues_ok_def)
  moreover have "length (ls_ch s) \<le> ls_cap s"
    if "fold (\<lambda>i h. h(i := map_option (deliverOne d) (h i))) (filter (log_open m) (mx_logsSubs m)) (mx_logs m) i = Some s"
    for i s
    using that assms(2,3) deliverOne_bound by (auto simp: queues_ok_def logs_ok_def fold_heap split: if_splits)
  ultimately show ?thesis using step_deliver c(1) by (simp add: pump_deliver_def queues_ok_def)
next
  case step_close_end
  obtain c where c: "close_end m =
     m\<lparr>mx_logFile := False, mx_consoles := c, mx_consoleSub := None,
       mx_logs := fold (\<lambda>i h. h(i := map_option Logs_Close (h i))) (mx_logsSubs m) (mx_logs m),
       mx_logsSubs := [], mx_transition := Closed\<rparr>"
    "\<forall>i. c i = (if mx_consoleSub m = Some i then map_option Console_Close (mx_consoles m i) else mx_consoles m i)"
    using close_end_fields by blast
  then show ?thesis
    using step_close_end assms(2,3)
    by (auto simp: queues_ok_def logs_ok_def fold_heap mux_subs split: if_splits)
next
  case (step_console_receive i s)
  then show ?thesis
    using assms(2) by (auto simp: queues_ok_def Console_receive_def intro: order_trans [OF diff_le_self])
next
  case (step_logs_receive i s)
  then show ?thesis
    using assms(2) by (auto simp: queues_ok_def Logs_receive_def intro: order_trans [OF diff_le_self])
qed (use assms(2) in \<open>auto simp: mux_ops queues_ok_def mux_subs Logs_tryDeliver_def Console_tryDeliver_def
      split: option.splits sum.splits if_splits prod.splits\<close>)

lemma console_live_iff:
  assumes "console_ok m"
  shows "console_live m \<longleftrightarrow> (\<exists>i s. mx_consoles m i = Some s \<and> \<not> con_closed s)"
proof
  assume "console_live m"
  then show "\<exists>i s. mx_consoles m i = Some s \<and> \<not> con_closed s"
    by (auto simp: console_live_def split: option.splits)
next
  assume "\<exists>i s. mx_consoles m i = Some s \<and> \<not> con_closed s"
  then obtain i s where "mx_consoles m i = Some s" "\<not> con_closed s" by blast
  moreover from this assms have "mx_consoleSub m = Some i" unfolding console_ok_def by blast
  ultimately show "console_live m" by (simp add: console_live_def)
qed

lemma console_ok_step:
  assumes "mux_step m l m'" "console_ok m"
  shows "console_ok m'"
  using assms(1)
proof cases
  case (step_rotate rn op re)
  then show ?thesis using assms(2) by (simp add: console_ok_def)
next
  case (step_deliver d err)
  obtain c where c: "deliverToSubscribers d m =
     m\<lparr>mx_consoles := c,
       mx_logs := fold (\<lambda>i h. h(i := map_option (deliverOne d) (h i))) (filter (log_open m) (mx_logsSubs m)) (mx_logs m),
       mx_logsSubs := filter (log_open m) (mx_logsSubs m)\<rparr>"
    "\<forall>i. c i = mx_consoles m i \<or> (\<exists>s. mx_consoles m i = Some s \<and> c i = Some (snd (Console_tryDeliver d s)))"
    using deliverToSubscribers_fields by blast
  have "mx_consoleSub m = Some i" if "c i = Some s" "\<not> con_closed s" for i s
    using c(2) [rule_format, of i] that assms(2) unfolding console_ok_def
    by (elim disjE exE conjE) (metis, metis Console_tryDeliver_closed option.inject)
  then show ?thesis using step_deliver c(1) by (auto simp: pump_deliver_def console_ok_def)
next
  case step_close_end
  obtain c where c: "close_end m =
     m\<lparr>mx_logFile := False, mx_consoles := c, mx_consoleSub := None,
       mx_logs := fold (\<lambda>i h. h(i := map_option Logs_Close (h i))) (mx_logsSubs m) (mx_logs m),
       mx_logsSubs := [], mx_transition := Closed\<rparr>"
    "\<forall>i. c i = (if mx_consoleSub m = Some i then map_option Console_Close (mx_consoles m i) else mx_consoles m i)"
    using close_end_fields by blast
  have "con_closed s" if "c i = Some s" for i s
    using that c(2) [rule_format, of i] assms(2)
    by (cases "mx_consoleSub m = Some i") (auto simp: console_ok_def Console_Close_def)
  with step_close_end c(1) show ?thesis by (auto simp: console_ok_def)
next
  case (step_console i)
  then have "\<not> console_live m" by (auto simp: SubscribeConsole_def)
  then have "\<forall>j s. mx_consoles m j = Some s \<longrightarrow> con_closed s" using console_live_iff [OF assms(2)] by blast
  with step_console show ?thesis by (auto simp: SubscribeConsole_def console_ok_def Let_def split: if_splits)
qed (use assms(2) in \<open>auto simp: mux_ops console_ok_def mux_subs
      split: option.splits sum.splits if_splits prod.splits\<close>)

lemma RingBuffer_Write_bound:
  assumes "rb_maxBytes r = n" "0 \<le> n" "int (length (rb_data r)) \<le> n"
  shows "rb_maxBytes (RingBuffer_Write d r) = n \<and> int (length (rb_data (RingBuffer_Write d r))) \<le> n"
  using assms by (auto simp: RingBuffer_Write_def Let_def)

lemma Process_bound:
  assumes "length (sz_pending s) \<le> maxPendingCarry"
  shows "length (sz_pending (snd (Process d s))) \<le> maxPendingCarry"
  using assms by (auto simp: Process_def Let_def split: prod.split)

lemma buffers_ok_step:
  assumes "mux_step m l m'" "buffers_ok m"
  shows "buffers_ok m'"
  using assms(1)
proof cases
  case (step_rotate rn op re)
  then show ?thesis using assms(2) by (simp add: buffers_ok_def)
next
  case (step_read c chunk err)
  then show ?thesis
    using assms(2) Process_bound [of "mx_sanitizer m" chunk]
    by (auto simp: pump_read_def buffers_ok_def Let_def split: prod.splits)
next
  case (step_ring d err)
  then show ?thesis
    using assms(2) RingBuffer_Write_bound [of "mx_ring m" ringBufferBytes d]
    by (auto simp: pump_ring_def buffers_ok_def ringBufferBytes_def)
next
  case (step_deliver d err)
  then show ?thesis using assms(2) by (simp add: pump_deliver_def buffers_ok_def)
next
  case step_close_end
  then show ?thesis using assms(2) by (simp add: buffers_ok_def)
qed (use assms(2) in \<open>auto simp: transition_ops pump_ops buffers_ok_def dest!: SubscribeConsole_fields
      split: option.splits if_splits\<close>)

lemma phase_ok_step:
  assumes "mux_step m l m'" "phase_ok m"
  shows "phase_ok m'"
  using assms(1)
proof cases
  case (step_rotate rn op re)
  obtain lf bw cur rot where
    "runRotation rn op re m =
       m\<lparr>mx_rotationCh := False, mx_logFile := lf, mx_bytesWritten := bw, mx_current := cur, mx_rotated := rot\<rparr>"
    "lf \<longrightarrow> cur \<noteq> None" "\<not> mx_logFile m \<longrightarrow> \<not> lf"
    using runRotation_fields by blast
  with step_rotate assms(2) show ?thesis unfolding phase_ok_def by simp
next
  case (step_deliver d err)
  then show ?thesis using assms(2) by (simp add: pump_deliver_def phase_ok_def)
next
  case step_close_end
  then show ?thesis using assms(2) by (simp add: phase_ok_def)
next
  case (step_disk d err ok)
  then show ?thesis using assms(2) by (simp add: pump_ops phase_ok_def Let_def)
next
  case (step_read c chunk err)
  then show ?thesis using assms(2) by (auto simp: pump_read_def phase_ok_def Let_def split: prod.split)
next
  case (step_console i)
  then show ?thesis using assms(2) SubscribeConsole_fields [of i m m'] by (auto simp: phase_ok_def)
next
  case (step_reconnect_end dialed)
  then show ?thesis using assms(2) by (cases dialed) (simp_all add: phase_ok_def transition_ops)
next
  case step_reconnect_begin
  then show ?thesis using assms(2) by (cases "mx_closed m") (auto simp: phase_ok_def transition_ops)
next
  case step_close_begin
  then show ?thesis using assms(2) by (cases "mx_closed m") (simp_all add: phase_ok_def transition_ops)
next
  case step_top
  then show ?thesis using assms(2) by (cases "mx_conn m") (simp_all add: phase_ok_def pump_top_def)
next
  case step_rotation_exit
  then show ?thesis using assms(2) by (auto simp: phase_ok_def)
qed (use assms(2) in \<open>simp_all add: pump_ring_def phase_ok_def\<close>)

text \<open>The invariant holds in every reachable state.\<close>

definition mux_inv :: "Multiplexer \<Rightarrow> bool" where
  "mux_inv m \<longleftrightarrow> queues_ok m \<and> console_ok m \<and> logs_ok m \<and> buffers_ok m \<and> phase_ok m"

lemma mux_inv_new:
  "newMuxWithThreshold vmName logDir True True (Some c) True True current rotated threshold = Inr m \<Longrightarrow> mux_inv m"
  by (auto simp: newMuxWithThreshold_def mux_inv_def queues_ok_def console_ok_def logs_ok_def buffers_ok_def
      phase_ok_def NewRingBuffer_def NewSanitizer_def ringBufferBytes_def Let_def split: if_splits)

lemma mux_inv_reach: "mux_reach m logged \<Longrightarrow> mux_inv m"
proof (induction rule: mux_reach.induct)
  case (reach_step m logged l m')
  then show ?case
    using queues_ok_step console_ok_step logs_ok_step buffers_ok_step phase_ok_step
    unfolding mux_inv_def by blast
qed (rule mux_inv_new)

subsection \<open>A fresh and a closed multiplexer\<close>

definition freshMux :: Multiplexer where
  "freshMux = \<lparr>mx_rotationThreshold = rotationThresholdBytes, mx_closed = False, mx_transition = Idle,
     mx_consoleSub = None, mx_logsSubs = [], mx_conn = Some 0, mx_ring = NewRingBuffer ringBufferBytes,
     mx_sanitizer = NewSanitizer, mx_logFile = True, mx_bytesWritten = 0, mx_rotationCh = False,
     mx_rotationLoop = True, mx_pump = PumpTop, mx_streams = (\<lambda>_. None), mx_consoles = (\<lambda>_. None),
     mx_logs = (\<lambda>_. None), mx_current = Some [], mx_rotated = None\<rparr>"

lemma reach_freshMux: "mux_reach freshMux []"
proof -
  have "newMuxWithThreshold ''vm'' ''/log'' True True (Some 0) True True None None 0 = Inr freshMux"
    by (simp add: newMuxWithThreshold_def freshMux_def)
  from mux_reach.reach_new [OF this] show ?thesis by (simp add: freshMux_def)
qed

lemma reach_silent: "mux_reach m logged \<Longrightarrow> mux_step m [] m' \<Longrightarrow> mux_reach m' logged"
  using mux_reach.reach_step [of m logged "[]" m'] by simp

definition closedMux :: Multiplexer where
  "closedMux = freshMux\<lparr>mx_closed := True, mx_transition := Closed, mx_conn := None, mx_pump := PumpDone,
     mx_rotationLoop := False, mx_logFile := False\<rparr>"

lemma reach_closedMux: "mux_reach closedMux []"
proof -
  let ?m1 = "close_begin freshMux" and ?m2 = "pump_top (close_begin freshMux)"
  have 1: "mux_reach ?m1 []"
    by (rule reach_silent [OF reach_freshMux mux_step.step_close_begin]) (simp add: freshMux_def)
  have 2: "mux_reach ?m2 []"
    by (rule reach_silent [OF 1 mux_step.step_top]) (simp add: freshMux_def close_begin_def)
  have 3: "mux_reach (?m2\<lparr>mx_rotationLoop := False\<rparr>) []"
    by (rule reach_silent [OF 2 mux_step.step_rotation_exit])
      (simp_all add: freshMux_def close_begin_def pump_top_def)
  have "mux_reach (close_end (?m2\<lparr>mx_rotationLoop := False\<rparr>)) []"
    by (rule reach_silent [OF 3 mux_step.step_close_end])
      (simp_all add: freshMux_def close_begin_def pump_top_def)
  then show ?thesis
    by (simp add: closedMux_def freshMux_def close_begin_def pump_top_def close_end_def)
qed

subsection \<open>The console is exclusive\<close>

text \<open>
  C7. In every reachable state at most one console subscriber is live, and attaching another one
  is refused exactly when there is one.
\<close>

theorem console_exclusive:
  assumes "mux_reach m logged"
  shows "(\<forall>i j s t. mx_consoles m i = Some s \<longrightarrow> \<not> con_closed s \<longrightarrow>
            mx_consoles m j = Some t \<longrightarrow> \<not> con_closed t \<longrightarrow> i = j) \<and>
    (SubscribeConsole k m = Inl ErrConsoleInUse \<longleftrightarrow> (\<exists>i s. mx_consoles m i = Some s \<and> \<not> con_closed s))"
proof -
  have c: "console_ok m" using mux_inv_reach [OF assms] by (simp add: mux_inv_def)
  then have "i = j" if "mx_consoles m i = Some s" "\<not> con_closed s" "mx_consoles m j = Some t" "\<not> con_closed t"
    for i j s t using that unfolding console_ok_def by (metis option.inject)
  moreover have "SubscribeConsole k m = Inl ErrConsoleInUse \<longleftrightarrow> console_live m"
    by (simp add: SubscribeConsole_def Let_def)
  ultimately show ?thesis using console_live_iff [OF c] by blast
qed

theorem console_exclusive_witness:
  "SubscribeConsole 3 freshMux \<noteq> Inl ErrConsoleInUse"
  using console_exclusive [OF reach_freshMux, of 3] by (simp add: freshMux_def)

subsection \<open>Memory is bounded\<close>

text \<open>
  C26. In every reachable state each subscriber queue is within its capacity, the recent history
  is at most \<open>ringBufferBytes\<close> bytes and the carried partial escape sequence at most
  \<open>maxPendingCarry\<close> bytes.
\<close>

theorem mux_memory_bounded:
  assumes "mux_reach m logged"
  shows "(\<forall>i s. mx_consoles m i = Some s \<longrightarrow> length (con_ch s) \<le> con_cap s) \<and>
    (\<forall>i s. mx_logs m i = Some s \<longrightarrow> length (ls_ch s) \<le> ls_cap s) \<and>
    length (rb_data (mx_ring m)) \<le> 8192 \<and> length (sz_pending (mx_sanitizer m)) \<le> 64"
  using mux_inv_reach [OF assms]
  by (auto simp: mux_inv_def queues_ok_def buffers_ok_def ringBufferBytes_def maxPendingCarry_def)

theorem mux_memory_bounded_witness: "length (rb_data (mx_ring freshMux)) \<le> 8192"
  using mux_memory_bounded [OF reach_freshMux] by simp

subsection \<open>The files hold the most recent output\<close>

definition disk :: "Multiplexer \<Rightarrow> byte list" where
  "disk m = (case mx_rotated m of None \<Rightarrow> [] | Some d \<Rightarrow> d) @ (case mx_current m of None \<Rightarrow> [] | Some d \<Rightarrow> d)"

lemma disk_step:
  assumes "mux_step m l m'"
  shows "\<exists>p. disk m @ l = p @ disk m'"
  using assms
proof cases
  case (step_disk d err ok)
  then show ?thesis
    by (intro exI [of _ "[]"]) (auto simp: disk_def pump_disk_def writeToDisk_def Let_def split: option.splits)
next
  case (step_rotate rn op re)
  then show ?thesis
    using runRotation_fields [of rn op re m] by (auto simp: disk_def split: option.splits)
next
  case (step_deliver d err)
  then show ?thesis by (simp add: disk_def pump_deliver_def)
next
  case step_close_end
  then show ?thesis by (simp add: disk_def)
next
  case (step_read c chunk err)
  then show ?thesis by (auto simp: pump_read_def disk_def Let_def split: prod.split)
next
  case (step_console i)
  then show ?thesis using SubscribeConsole_fields [of i m m'] by (auto simp: disk_def)
next
  case (step_reconnect_end dialed)
  then show ?thesis by (cases dialed) (simp_all add: disk_def transition_ops)
next
  case step_reconnect_begin
  then show ?thesis by (cases "mx_closed m") (auto simp: disk_def transition_ops)
next
  case step_close_begin
  then show ?thesis by (cases "mx_closed m") (simp_all add: disk_def transition_ops)
next
  case step_top
  then show ?thesis by (cases "mx_conn m") (simp_all add: disk_def pump_top_def)
qed (simp_all add: disk_def pump_ring_def)



subsection \<open>Close is final\<close>



subsection \<open>Dropped bytes are accounted for\<close>

text \<open>
  What happens to one attached logs subscriber: the multiplexer offers sanitized output, the
  handler receives from the channel. The tally counts the payload bytes offered, those that were
  enqueued, and those announced as dropped by an enqueued marker.
\<close>

datatype sub_event = Offer "byte list" | Receive

record tally =
  ta_sub :: LogsSubscriber
  ta_offered :: nat
  ta_accepted :: nat
  ta_reported :: nat

fun tally_step :: "sub_event \<Rightarrow> tally \<Rightarrow> tally" where
  "tally_step Receive t = t\<lparr>ta_sub := Logs_receive (ta_sub t)\<rparr>"
| "tally_step (Offer d) t =
     (let s = ta_sub t; s' = deliverOne d s; t = t\<lparr>ta_sub := s', ta_offered := ta_offered t + length d\<rparr>
      in if length (ls_ch s') > length (ls_ch s)
         then t\<lparr>ta_accepted := ta_accepted t + length d, ta_reported := ta_reported t + unat (ls_dropped s)\<rparr>
         else t)"

definition tally_ok :: "tally \<Rightarrow> bool" where
  "tally_ok t \<longleftrightarrow> \<not> ls_closed (ta_sub t) \<and>
     (ta_offered t < 2 ^ 64 \<longrightarrow> ta_accepted t + ta_reported t + unat (ls_dropped (ta_sub t)) = ta_offered t)"

lemma unat_add_of_nat: "unat (w :: 64 word) + n < 2 ^ 64 \<Longrightarrow> unat (w + of_nat n) = unat w + n"
  by (simp add: unat_word_ariths unat_of_nat)

lemma tally_ok_step: "tally_ok t \<Longrightarrow> tally_ok (tally_step e t)"
proof (cases e)
  case (Offer d)
  assume ok: "tally_ok t"
  then have live: "\<not> ls_closed (ta_sub t)" by (simp add: tally_ok_def)
  show ?thesis
  proof (cases "length (ls_ch (ta_sub t)) < ls_cap (ta_sub t)")
    case True
    with Offer ok live show ?thesis by (auto simp: tally_ok_def deliverOne_cases Let_def)
  next
    case False
    have "unat (ls_dropped (ta_sub t) + of_nat (length d)) = unat (ls_dropped (ta_sub t)) + length d"
      if "ta_offered t + length d < 2 ^ 64"
      using ok that by (intro unat_add_of_nat) (auto simp: tally_ok_def)
    with False Offer ok live show ?thesis by (auto simp: tally_ok_def deliverOne_cases Let_def)
  qed
qed (simp add: tally_ok_def Logs_receive_def)



subsection \<open>Attaching is not atomic with the pump\<close>

lemma Process_letter: "Process [0x61] NewSanitizer = ([0x61], NewSanitizer)"
  by code_simp

lemma RingBuffer_letter:
  "RingBuffer_Write [0x61] (NewRingBuffer ringBufferBytes) = \<lparr>rb_data = [0x61], rb_maxBytes = 8192\<rparr>"
  by code_simp

lemma LastNLines_letter: "LastNLines consoleHistoryLines \<lparr>rb_data = [0x61], rb_maxBytes = 8192\<rparr> = [0x61]"
  by code_simp

lemma readTailLines_empty: "readTailLines (Inr (Some [])) (Inr (Some [])) (-1) = Inr []"
  by code_simp

lemmas gap_ops = SubscribeLogs_def stream_read_rotated_def stream_read_current_def stream_attach_def
  readFileIfExists_def readTailLines_empty newLogsSubscriber_def defaultSubscriberCapacity_def
  pump_top_def pump_read_def pump_ring_def pump_disk_def pump_deliver_def writeToDisk_def pump_next_def
  deliverToSubscribers_def rotationThresholdBytes_def Let_def markReady_def Process_letter RingBuffer_letter freshMux_def



end
