(* ===== verification/Etcd.thy ===== *)
theory Etcd
  imports Prelude "HOL-Library.Sublist"
begin

text \<open>
  The key-value client of the control plane (\<^verbatim>\<open>internal/etcd/client.go\<close>) and the programs that
  use it.

  A store operation is a program: a tree of calls to the etcd server, to the clock, to the source
  of fresh identifiers, to the JSON encoder (whose result is the length of the encoding) and to an
  agent. The programs do not know the server: etcd is a service of its own, of which the model
  states the documented contract (linearizable reads and transactions with a create and a mod
  revision per key). A call may also fail, and a failed write may have taken effect or not.

  A key is kept as the list of its path parts. Keys are ordered part by part, sequence numbers
  numerically (the code pads them with zeros for that purpose). A value is a typed document; the
  JSON text that stands for it is not modelled.
\<close>

subsection \<open>Keys\<close>

datatype part = Lit string | UId uuid | Num int

fun part_le :: "part \<Rightarrow> part \<Rightarrow> bool" where
  "part_le (Lit a) (Lit b) \<longleftrightarrow> a \<le> b"
| "part_le (Lit a) _ \<longleftrightarrow> True"
| "part_le (UId a) (Lit b) \<longleftrightarrow> False"
| "part_le (UId a) (UId b) \<longleftrightarrow> a \<le> b"
| "part_le (UId a) (Num b) \<longleftrightarrow> True"
| "part_le (Num a) (Num b) \<longleftrightarrow> a \<le> b"
| "part_le (Num a) _ \<longleftrightarrow> False"

instantiation part :: linorder
begin

definition less_eq_part :: "part \<Rightarrow> part \<Rightarrow> bool" where
  "less_eq_part = part_le"

definition less_part :: "part \<Rightarrow> part \<Rightarrow> bool" where
  "less_part a b \<longleftrightarrow> part_le a b \<and> \<not> part_le b a"

instance
proof
  fix a b c :: part
  show "a < b \<longleftrightarrow> a \<le> b \<and> \<not> b \<le> a" by (simp add: less_part_def less_eq_part_def)
  show "a \<le> a" by (cases a) (simp_all add: less_eq_part_def)
  show "a \<le> b \<Longrightarrow> b \<le> c \<Longrightarrow> a \<le> c" by (cases a; cases b; cases c) (auto simp: less_eq_part_def)
  show "a \<le> b \<Longrightarrow> b \<le> a \<Longrightarrow> a = b" by (cases a; cases b) (auto simp: less_eq_part_def)
  show "a \<le> b \<or> b \<le> a" by (cases a; cases b) (auto simp: less_eq_part_def)
qed

end

type_synonym key = "part list"

subsection \<open>The contract of the server\<close>

datatype 'v row = Row (row_value: 'v) (row_create: nat) (row_mod: nat)

record 'v kv =
  kv_rows :: "(key \<times> 'v row) list"
  kv_rev :: nat

definition kv_get :: "'v kv \<Rightarrow> key \<Rightarrow> 'v row option" where
  "kv_get s = map_of (kv_rows s)"

datatype 'v cmp = CreateRevision key nat | ModRevision key nat | ValueIs key 'v

datatype 'v txop = OpPut key 'v | OpDelete key | OpGet key

datatype 'v request =
    ReqGet key
  | ReqRange key
  | ReqTxn "'v cmp list" "'v txop list" "'v txop list"

text \<open>A result row is a key with its value and its mod revision.\<close>

datatype 'v response =
    RespRows "(key \<times> 'v \<times> nat) list"
  | RespTxn bool "(key \<times> 'v \<times> nat) list list"

fun rows_put :: "key \<Rightarrow> 'v row \<Rightarrow> (key \<times> 'v row) list \<Rightarrow> (key \<times> 'v row) list" where
  "rows_put k r [] = [(k, r)]"
| "rows_put k r ((k', r') # rs) =
     (if k < k' then (k, r) # (k', r') # rs
      else if k = k' then (k, r) # rs
      else (k', r') # rows_put k r rs)"

definition rows_delete :: "key \<Rightarrow> (key \<times> 'v row) list \<Rightarrow> (key \<times> 'v row) list" where
  "rows_delete k rs = filter (\<lambda>(k', _). k' \<noteq> k) rs"

fun cmp_holds :: "'v kv \<Rightarrow> 'v cmp \<Rightarrow> bool" where
  "cmp_holds s (CreateRevision k n) \<longleftrightarrow> (case kv_get s k of None \<Rightarrow> 0 | Some r \<Rightarrow> row_create r) = n"
| "cmp_holds s (ModRevision k n) \<longleftrightarrow> (case kv_get s k of None \<Rightarrow> 0 | Some r \<Rightarrow> row_mod r) = n"
| "cmp_holds s (ValueIs k v) \<longleftrightarrow> map_option row_value (kv_get s k) = Some v"

text \<open>All operations of a transaction happen at one new revision.\<close>

fun op_rows :: "nat \<Rightarrow> 'v txop \<Rightarrow> (key \<times> 'v row) list \<Rightarrow> (key \<times> 'v row) list" where
  "op_rows rv (OpPut k v) rs =
     rows_put k (Row v (case map_of rs k of None \<Rightarrow> rv | Some r \<Rightarrow> row_create r) rv) rs"
| "op_rows rv (OpDelete k) rs = rows_delete k rs"
| "op_rows rv (OpGet k) rs = rs"

definition result_rows :: "(key \<times> 'v row) list \<Rightarrow> (key \<times> 'v \<times> nat) list" where
  "result_rows rs = map (\<lambda>(k, r). (k, row_value r, row_mod r)) rs"

fun op_result :: "(key \<times> 'v row) list \<Rightarrow> 'v txop \<Rightarrow> (key \<times> 'v \<times> nat) list" where
  "op_result rs (OpGet k) = result_rows (filter (\<lambda>(k', _). k' = k) rs)"
| "op_result rs (OpPut k v) = []"
| "op_result rs (OpDelete k) = result_rows (filter (\<lambda>(k', _). k' = k) rs)"

fun ops_apply ::
    "nat \<Rightarrow> 'v txop list \<Rightarrow> (key \<times> 'v row) list \<Rightarrow> (key \<times> 'v \<times> nat) list list \<times> (key \<times> 'v row) list" where
  "ops_apply rv [] rs = ([], rs)"
| "ops_apply rv (p # ps) rs =
     (let (out, rs') = ops_apply rv ps (op_rows rv p rs) in (op_result rs p # out, rs'))"

fun kv_apply :: "'v request \<Rightarrow> 'v kv \<Rightarrow> 'v response \<times> 'v kv" where
  "kv_apply (ReqGet k) s = (RespRows (result_rows (filter (\<lambda>(k', _). k' = k) (kv_rows s))), s)"
| "kv_apply (ReqRange p) s = (RespRows (result_rows (filter (\<lambda>(k', _). strict_prefix p k') (kv_rows s))), s)"
| "kv_apply (ReqTxn cs thens elses) s =
     (let ok = list_all (cmp_holds s) cs;
          (out, rs) = ops_apply (Suc (kv_rev s)) (if ok then thens else elses) (kv_rows s)
      in (RespTxn ok out, if rs = kv_rows s then s else s\<lparr>kv_rows := rs, kv_rev := Suc (kv_rev s)\<rparr>))"

subsection \<open>Programs\<close>

datatype ('v, 'x, 'a) prog =
    Ret 'a
  | Etcd "'v request" "string + 'v response \<Rightarrow> ('v, 'x, 'a) prog"
  | Encode 'v "nat \<Rightarrow> ('v, 'x, 'a) prog"
  | Now "gotime \<Rightarrow> ('v, 'x, 'a) prog"
  | Fresh "uuid \<Rightarrow> ('v, 'x, 'a) prog"
  | Agent 'x "string option \<Rightarrow> ('v, 'x, 'a) prog"

primrec bind :: "('v, 'x, 'a) prog \<Rightarrow> ('a \<Rightarrow> ('v, 'x, 'b) prog) \<Rightarrow> ('v, 'x, 'b) prog" where
  "bind (Ret x) f = f x"
| "bind (Etcd r k) f = Etcd r (\<lambda>y. bind (k y) f)"
| "bind (Encode v k) f = Encode v (\<lambda>y. bind (k y) f)"
| "bind (Now k) f = Now (\<lambda>y. bind (k y) f)"
| "bind (Fresh k) f = Fresh (\<lambda>y. bind (k y) f)"
| "bind (Agent x k) f = Agent x (\<lambda>y. bind (k y) f)"

lemma bind_assoc [simp]: "bind (bind p f) g = bind p (\<lambda>x. bind (f x) g)"
  by (induction p) simp_all

lemma bind_Ret [simp]: "bind p Ret = p"
  by (induction p) simp_all

text \<open>\<^verbatim>\<open>if err != nil { return err }\<close>\<close>

definition bind_ok :: "('v, 'x, 'e + 'a) prog \<Rightarrow> ('a \<Rightarrow> ('v, 'x, 'e + 'b) prog) \<Rightarrow> ('v, 'x, 'e + 'b) prog" where
  "bind_ok p f = bind p (\<lambda>r. case r of Inl e \<Rightarrow> Ret (Inl e) | Inr x \<Rightarrow> f x)"

subsection \<open>Revisions\<close>

text \<open>Keys are strictly ascending, and every row was created and modified at a past revision.\<close>

definition kv_wf :: "'v kv \<Rightarrow> bool" where
  "kv_wf s \<longleftrightarrow> sorted_wrt (<) (map fst (kv_rows s)) \<and>
     (\<forall>(k, r)\<in>set (kv_rows s). 0 < row_create r \<and> row_create r \<le> row_mod r \<and> row_mod r \<le> kv_rev s)"

lemma map_of_rows_put: "map_of (rows_put k r rs) = (map_of rs)(k \<mapsto> r)" if "sorted_wrt (<) (map fst rs)"
  using that
proof (induction k r rs rule: rows_put.induct)
  case (2 k r k' r' rs)
  then show ?case by (auto simp: fun_eq_iff)
qed auto

lemma set_fst_rows_put [simp]: "fst ` set (rows_put k r rs) = insert k (fst ` set rs)"
  by (induction k r rs rule: rows_put.induct) auto

lemma set_rows_put: "set (rows_put k r rs) \<subseteq> insert (k, r) (set rs)"
  by (induction k r rs rule: rows_put.induct) auto

lemma sorted_rows_put: "sorted_wrt (<) (map fst rs) \<Longrightarrow> sorted_wrt (<) (map fst (rows_put k r rs))"
  by (induction k r rs rule: rows_put.induct) (auto simp: not_less_iff_gr_or_eq)

lemma map_of_rows_delete: "map_of (rows_delete k rs) = (map_of rs)(k := None)"
  unfolding rows_delete_def by (induction rs) (auto simp: fun_eq_iff)

lemma sorted_rows_delete: "sorted_wrt (<) (map fst rs) \<Longrightarrow> sorted_wrt (<) (map fst (rows_delete k rs))"
  unfolding rows_delete_def by (induction rs) (auto split: prod.splits)

text \<open>The content of the keyspace after one operation at revision \<open>rv\<close>.\<close>

fun op_map :: "nat \<Rightarrow> 'v txop \<Rightarrow> (key \<Rightarrow> 'v row option) \<Rightarrow> key \<Rightarrow> 'v row option" where
  "op_map rv (OpPut k v) m = m(k \<mapsto> Row v (case m k of None \<Rightarrow> rv | Some r \<Rightarrow> row_create r) rv)"
| "op_map rv (OpDelete k) m = m(k := None)"
| "op_map rv (OpGet k) m = m"

lemma map_of_op_rows:
  "sorted_wrt (<) (map fst rs) \<Longrightarrow> map_of (op_rows rv p rs) = op_map rv p (map_of rs)"
  by (cases p) (simp_all add: map_of_rows_put map_of_rows_delete)

lemma sorted_op_rows: "sorted_wrt (<) (map fst rs) \<Longrightarrow> sorted_wrt (<) (map fst (op_rows rv p rs))"
  by (cases p) (simp_all add: sorted_rows_put sorted_rows_delete)

lemma ops_apply_rows:
  "sorted_wrt (<) (map fst rs) \<Longrightarrow>
     map_of (snd (ops_apply rv ps rs)) = fold (op_map rv) ps (map_of rs) \<and>
     sorted_wrt (<) (map fst (snd (ops_apply rv ps rs)))"
  by (induction ps arbitrary: rs) (simp_all add: map_of_op_rows sorted_op_rows case_prod_beta)

lemma sorted_map_of:
  "sorted_wrt (<) (map fst rs) \<Longrightarrow> (k, r) \<in> set rs \<longleftrightarrow> map_of rs k = Some r" for k :: key
  by (metis strict_sorted_iff map_of_eq_Some_iff)

lemma kv_wf_row:
  assumes "kv_wf s" "kv_get s k = Some r"
  shows "0 < row_create r" "row_create r \<le> row_mod r" "row_mod r \<le> kv_rev s"
  using assms by (auto simp: kv_wf_def kv_get_def dest!: map_of_SomeD)

text \<open>What one request changes.\<close>

definition changed_at :: "nat \<Rightarrow> 'v row option \<Rightarrow> 'v row option \<Rightarrow> bool" where
  "changed_at n a b \<longleftrightarrow> b = a \<or> (\<forall>r. b = Some r \<longrightarrow> n < row_mod r \<and> (n < row_create r \<or>
     (\<exists>r0. a = Some r0 \<and> row_create r = row_create r0)))"

lemma fold_op_map_row:
  "fold (op_map rv) ps m k = Some r \<Longrightarrow>
     m k = Some r \<or> row_mod r = rv \<and> (row_create r = rv \<or> (\<exists>r0. m k = Some r0 \<and> row_create r = row_create r0))"
proof (induction ps arbitrary: m)
  case (Cons p ps)
  from Cons.prems have "fold (op_map rv) ps (op_map rv p m) k = Some r" by simp
  from Cons.IH [OF this] show ?case by (cases p) (auto split: if_splits option.splits)
qed simp

lemma kv_apply_txn:
  assumes "kv_wf s" "kv_apply (ReqTxn cs ts es) s = (resp, s')"
  shows "kv_get s' = fold (op_map (Suc (kv_rev s))) (if list_all (cmp_holds s) cs then ts else es) (kv_get s)"
    and "sorted_wrt (<) (map fst (kv_rows s'))" "kv_rev s' = (if kv_rows s' = kv_rows s then kv_rev s else Suc (kv_rev s))"
proof -
  have srt: "sorted_wrt (<) (map fst (kv_rows s))" using assms(1) by (simp add: kv_wf_def)
  show "kv_get s' = fold (op_map (Suc (kv_rev s))) (if list_all (cmp_holds s) cs then ts else es) (kv_get s)"
    using assms(2) ops_apply_rows [OF srt, of "Suc (kv_rev s)" "if list_all (cmp_holds s) cs then ts else es"]
    by (auto simp: kv_get_def case_prod_beta Let_def split: if_splits)
  show "sorted_wrt (<) (map fst (kv_rows s'))" "kv_rev s' = (if kv_rows s' = kv_rows s then kv_rev s else Suc (kv_rev s))"
    using assms(2) srt ops_apply_rows [OF srt, of "Suc (kv_rev s)" "if list_all (cmp_holds s) cs then ts else es"]
    by (auto simp: case_prod_beta Let_def split: if_splits)
qed

lemma kv_apply_rows:
  assumes "kv_wf s" "kv_apply q s = (resp, s')"
  shows "kv_wf s'" "kv_rev s \<le> kv_rev s'" "changed_at (kv_rev s) (kv_get s k) (kv_get s' k)"
proof -
  have all: "kv_wf s' \<and> kv_rev s \<le> kv_rev s' \<and> (\<forall>k. changed_at (kv_rev s) (kv_get s k) (kv_get s' k))"
  proof (cases q)
    case (ReqTxn cs ts es)
    note t = kv_apply_txn [OF assms(1) assms(2) [unfolded ReqTxn]]
    let ?ps = "if list_all (cmp_holds s) cs then ts else es"
    have row: "kv_get s k = Some r \<or> row_mod r = Suc (kv_rev s) \<and>
        (row_create r = Suc (kv_rev s) \<or> (\<exists>r0. kv_get s k = Some r0 \<and> row_create r = row_create r0))"
      if "kv_get s' k = Some r" for k r
      using that unfolding t(1) by (rule fold_op_map_row)
    show ?thesis
    proof (cases "kv_rows s' = kv_rows s")
      case True
      with t(3) have "s' = s" by simp
      with assms(1) show ?thesis by (simp add: changed_at_def)
    next
      case False
      with t(3) have rv: "kv_rev s' = Suc (kv_rev s)" by simp
      have "0 < row_create r \<and> row_create r \<le> row_mod r \<and> row_mod r \<le> kv_rev s'" if "kv_get s' k = Some r" for k r
        using row [OF that] kv_wf_row [OF assms(1), of k] rv by fastforce
      with t(2) have "kv_wf s'"
        by (auto simp: kv_wf_def kv_get_def sorted_map_of)
      moreover have "changed_at (kv_rev s) (kv_get s k) (kv_get s' k)" for k
        using row [of k] unfolding changed_at_def by (cases "kv_get s' k") auto
      ultimately show ?thesis using rv by simp
    qed
  qed (use assms in \<open>simp_all add: changed_at_def\<close>)
  then show "kv_wf s'" "kv_rev s \<le> kv_rev s'" "changed_at (kv_rev s) (kv_get s k) (kv_get s' k)" by simp_all
qed

subsection \<open>Interference and executions\<close>

text \<open>\<open>later s s'\<close>: other clients may have issued any requests in between.\<close>

definition kv_step :: "'v kv \<Rightarrow> 'v kv \<Rightarrow> bool" where
  "kv_step s s' \<longleftrightarrow> (\<exists>q. s' = snd (kv_apply q s))"

abbreviation later :: "'v kv \<Rightarrow> 'v kv \<Rightarrow> bool" where
  "later \<equiv> kv_step\<^sup>*\<^sup>*"

lemma kv_step_rows:
  assumes "kv_wf s" "kv_step s s'"
  shows "kv_wf s'" "kv_rev s \<le> kv_rev s'" "changed_at (kv_rev s) (kv_get s k) (kv_get s' k)"
  using assms kv_apply_rows [of s] unfolding kv_step_def by (metis surjective_pairing)+

lemma later_rows:
  assumes "later s s'" "kv_wf s"
  shows "kv_wf s' \<and> kv_rev s \<le> kv_rev s' \<and> changed_at (kv_rev s) (kv_get s k) (kv_get s' k)"
  using assms
proof (induction rule: rtranclp_induct)
  case (step t u)
  then have t: "kv_wf t" "kv_rev s \<le> kv_rev t" "changed_at (kv_rev s) (kv_get s k) (kv_get t k)" by simp_all
  have u: "kv_wf u" "kv_rev t \<le> kv_rev u" "changed_at (kv_rev t) (kv_get t k) (kv_get u k)"
    using kv_step_rows [OF t(1) step.hyps(2)] by blast+
  from t u show ?case unfolding changed_at_def by (auto 4 3)
qed (simp add: changed_at_def)

text \<open>
  The compare-and-swap idiom: a row whose mod revision is still the one that was read has not
  changed in between.
\<close>

lemma mod_revision_unchanged:
  assumes "kv_wf s" "later s s'" "kv_get s k = Some r" "cmp_holds s' (ModRevision k (row_mod r))"
  shows "kv_get s' k = Some r"
proof -
  have c: "changed_at (kv_rev s) (kv_get s k) (kv_get s' k)" using later_rows [OF assms(2,1)] by blast
  have m: "0 < row_mod r" "row_mod r \<le> kv_rev s" using kv_wf_row [OF assms(1,3)] by simp_all
  show ?thesis using c m assms(3,4) by (cases "kv_get s' k") (auto simp: changed_at_def)
qed

datatype ('v, 'x) event =
    EvEtcd "'v request" "'v kv" "'v kv"
  | EvNow gotime
  | EvFresh uuid
  | EvAgent 'x "string option"

text \<open>
  An execution under interference \<open>R\<close>: before every call other clients may have moved the
  keyspace by \<open>R\<close>-steps. A call that returns an error may or may not have taken effect. The
  trace lists the program's own calls, with the keyspace before and after each etcd call.
\<close>

inductive exec ::
    "('v kv \<Rightarrow> 'v kv \<Rightarrow> bool) \<Rightarrow> ('v, 'x, 'a) prog \<Rightarrow> 'v kv \<Rightarrow> ('v, 'x) event list \<Rightarrow> 'a \<Rightarrow> 'v kv \<Rightarrow> bool"
    for R where
  exec_ret: "exec R (Ret x) s [] x s"
| exec_etcd: "R\<^sup>*\<^sup>* s s1 \<Longrightarrow> kv_apply q s1 = (resp, s2) \<Longrightarrow> exec R (k (Inr resp)) s2 tr x s' \<Longrightarrow>
    exec R (Etcd q k) s (EvEtcd q s1 s2 # tr) x s'"
| exec_error: "R\<^sup>*\<^sup>* s s1 \<Longrightarrow> s2 = s1 \<or> s2 = snd (kv_apply q s1) \<Longrightarrow> exec R (k (Inl msg)) s2 tr x s' \<Longrightarrow>
    exec R (Etcd q k) s (EvEtcd q s1 s2 # tr) x s'"
| exec_encode: "exec R (k n) s tr x s' \<Longrightarrow> exec R (Encode v k) s tr x s'"
| exec_now: "exec R (k t) s tr x s' \<Longrightarrow> exec R (Now k) s (EvNow t # tr) x s'"
| exec_fresh: "exec R (k u) s tr x s' \<Longrightarrow> exec R (Fresh k) s (EvFresh u # tr) x s'"
| exec_agent: "exec R (k r) s tr x s' \<Longrightarrow> exec R (Agent y k) s (EvAgent y r # tr) x s'"

inductive_cases exec_RetE [elim!]: "exec R (Ret x) s tr y s'"
inductive_cases exec_EtcdE: "exec R (Etcd q k) s tr y s'"
inductive_cases exec_EncodeE [elim!]: "exec R (Encode v k) s tr y s'"
inductive_cases exec_NowE [elim!]: "exec R (Now k) s tr y s'"
inductive_cases exec_FreshE [elim!]: "exec R (Fresh k) s tr y s'"
inductive_cases exec_AgentE [elim!]: "exec R (Agent z k) s tr y s'"

text \<open>
  A proof rule for executions: the weakest precondition of a program under interference \<open>R\<close>,
  where every own call must satisfy the guarantee \<open>G\<close>.
\<close>

primrec wlp ::
    "('v kv \<Rightarrow> 'v kv \<Rightarrow> bool) \<Rightarrow> ('v kv \<Rightarrow> 'v kv \<Rightarrow> bool) \<Rightarrow> ('v, 'x, 'a) prog \<Rightarrow> ('a \<Rightarrow> 'v kv \<Rightarrow> bool) \<Rightarrow>
      'v kv \<Rightarrow> bool" where
  "wlp R G (Ret x) Q s = Q x s"
| "wlp R G (Etcd q k) Q s = (\<forall>s1. R\<^sup>*\<^sup>* s s1 \<longrightarrow>
     G s1 s1 \<and> G s1 (snd (kv_apply q s1)) \<and>
     wlp R G (k (Inr (fst (kv_apply q s1)))) Q (snd (kv_apply q s1)) \<and>
     (\<forall>msg. wlp R G (k (Inl msg)) Q s1 \<and> wlp R G (k (Inl msg)) Q (snd (kv_apply q s1))))"
| "wlp R G (Encode v k) Q s = (\<forall>n. wlp R G (k n) Q s)"
| "wlp R G (Now k) Q s = (\<forall>t. wlp R G (k t) Q s)"
| "wlp R G (Fresh k) Q s = (\<forall>u. wlp R G (k u) Q s)"
| "wlp R G (Agent y k) Q s = (\<forall>r. wlp R G (k r) Q s)"

fun guaranteed :: "('v kv \<Rightarrow> 'v kv \<Rightarrow> bool) \<Rightarrow> ('v, 'x) event \<Rightarrow> bool" where
  "guaranteed G (EvEtcd q s1 s2) \<longleftrightarrow> G s1 s2"
| "guaranteed G _ \<longleftrightarrow> True"

lemma wlp_sound:
  assumes "exec R p s tr x s'" "wlp R G p Q s"
  shows "Q x s' \<and> list_all (guaranteed G) tr"
  using assms
proof (induction rule: exec.induct)
  case (exec_etcd s s1 q resp s2 k tr x s')
  from exec_etcd.prems exec_etcd.hyps(1,2) have "G s1 s2" "wlp R G (k (Inr resp)) Q s2"
    by (auto simp del: kv_apply.simps)
  with exec_etcd.IH show ?case by simp
next
  case (exec_error s s1 s2 q k msg tr x s')
  from exec_error.prems exec_error.hyps(1,2) have "G s1 s2" "wlp R G (k (Inl msg)) Q s2"
    by (auto simp del: kv_apply.simps)
  with exec_error.IH show ?case by simp
qed simp_all

lemma wlp_bind: "wlp R G (bind p f) Q s \<longleftrightarrow> wlp R G p (\<lambda>x. wlp R G (f x) Q) s"
  by (induction p arbitrary: s) simp_all

lemma wlp_mono:
  "wlp R G p Q s \<Longrightarrow> (\<And>x s'. Q x s' \<Longrightarrow> Q' x s') \<Longrightarrow> (\<And>a b. G a b \<Longrightarrow> G' a b) \<Longrightarrow> wlp R G' p Q' s"
proof (induction p arbitrary: s)
  case (Etcd q k)
  then show ?case by (simp del: kv_apply.simps)
qed simp_all

definition row_doc :: "'v kv \<Rightarrow> key \<Rightarrow> 'v option" where
  "row_doc s k = map_option row_value (kv_get s k)"

subsection \<open>Running a program against a server\<close>

text \<open>
  The world of a program: the server, the length of an encoding, the agents, and what the clock
  and the identifier source return at their \<open>n\<close>-th use.
\<close>

record ('v, 'x, 'e) world =
  wd_server :: "'v request \<Rightarrow> 'e \<Rightarrow> (string + 'v response) \<times> 'e"
  wd_encode :: "'v \<Rightarrow> nat"
  wd_now :: "nat \<Rightarrow> gotime"
  wd_fresh :: "nat \<Rightarrow> uuid"
  wd_agent :: "'x \<Rightarrow> string option"

primrec run :: "('v, 'x, 'e) world \<Rightarrow> ('v, 'x, 'a) prog \<Rightarrow> nat \<Rightarrow> 'e \<Rightarrow> 'a \<times> 'e" where
  "run w (Ret x) n e = (x, e)"
| "run w (Etcd q k) n e = (let (r, e') = wd_server w q e in run w (k r) n e')"
| "run w (Encode v k) n e = run w (k (wd_encode w v)) n e"
| "run w (Now k) n e = run w (k (wd_now w n)) (Suc n) e"
| "run w (Fresh k) n e = run w (k (wd_fresh w n)) (Suc n) e"
| "run w (Agent y k) n e = run w (k (wd_agent w y)) n e"

locale etcd_server =
  fixes srv :: "'v request \<Rightarrow> 'e \<Rightarrow> (string + 'v response) \<times> 'e"
    and contents :: "'e \<Rightarrow> 'v kv"
  assumes linearizable: "srv q e = (Inr resp, e') \<Longrightarrow> kv_apply q (contents e) = (resp, contents e')"
    and failure: "srv q e = (Inl msg, e') \<Longrightarrow> contents e' = contents e \<or> contents e' = snd (kv_apply q (contents e))"
begin

text \<open>Whatever is proved of all executions holds of every run against a server that keeps the contract.\<close>

lemma run_exec:
  assumes "wd_server w = srv" "run w p n e = (x, e')"
  shows "\<exists>tr. exec R p (contents e) tr x (contents e')"
  using assms(2)
proof (induction p arbitrary: n e)
  case (Ret y)
  then show ?case by (auto intro: exec_ret)
next
  case (Etcd q k)
  obtain r e1 where r: "srv q e = (r, e1)" by (cases "srv q e")
  with Etcd.prems assms(1) have "run w (k r) n e1 = (x, e')" by simp
  with Etcd.IH obtain tr where tr: "exec R (k r) (contents e1) tr x (contents e')" by blast
  show ?case
  proof (cases r)
    case (Inl msg)
    with failure [of q e msg e1] r tr show ?thesis by (auto intro!: exI exec_error [where msg = msg])
  next
    case (Inr resp)
    with linearizable [of q e resp e1] r tr show ?thesis by (auto intro!: exI exec_etcd)
  qed
next
  case (Encode v k)
  from Encode.prems obtain tr where "exec R (k (wd_encode w v)) (contents e) tr x (contents e')"
    using Encode.IH [OF rangeI] by fastforce
  then show ?case by (blast intro: exec_encode)
next
  case (Now k)
  from Now.prems obtain tr where "exec R (k (wd_now w n)) (contents e) tr x (contents e')"
    using Now.IH [OF rangeI] by fastforce
  then show ?case by (blast intro: exec_now)
next
  case (Fresh k)
  from Fresh.prems obtain tr where "exec R (k (wd_fresh w n)) (contents e) tr x (contents e')"
    using Fresh.IH [OF rangeI] by fastforce
  then show ?case by (blast intro: exec_fresh)
next
  case (Agent y k)
  from Agent.prems obtain tr where "exec R (k (wd_agent w y)) (contents e) tr x (contents e')"
    using Agent.IH [OF rangeI] by fastforce
  then show ?case by (blast intro: exec_agent)
qed

end

text \<open>A server that keeps its rows in memory, with a schedule of failures.\<close>

datatype fault = NoFault | FailBefore | FailAfter

fun mem_server :: "'v request \<Rightarrow> 'v kv \<times> fault list \<Rightarrow> (string + 'v response) \<times> 'v kv \<times> fault list" where
  "mem_server q (s, []) = (Inr (fst (kv_apply q s)), snd (kv_apply q s), [])"
| "mem_server q (s, NoFault # fs) = (Inr (fst (kv_apply q s)), snd (kv_apply q s), fs)"
| "mem_server q (s, FailBefore # fs) = (Inl ''unavailable'', s, fs)"
| "mem_server q (s, FailAfter # fs) = (Inl ''timeout'', snd (kv_apply q s), fs)"

interpretation mem: etcd_server mem_server fst
proof
  fix q :: "'v request" and e e' :: "'v kv \<times> fault list" and resp msg
  show "mem_server q e = (Inr resp, e') \<Longrightarrow> kv_apply q (fst e) = (resp, fst e')"
    by (cases "(q, e)" rule: mem_server.cases) auto
  show "mem_server q e = (Inl msg, e') \<Longrightarrow> fst e' = fst e \<or> fst e' = snd (kv_apply q (fst e))"
    by (cases "(q, e)" rule: mem_server.cases) auto
qed

subsection \<open>The client\<close>

datatype store_err =
    ErrNotFound
  | ErrValueTooLarge
  | ErrEtcd string
  | ErrCorrupt
  | ErrSequenceContention
  | ErrClaimFenceExhausted
  | ErrIdempotencyKeyMismatch
  | ErrTaskNotCancellable
  | ErrRefreshTokenConflict
  | ErrFamilyMismatch
  | ErrConcurrentUpdate
  | ErrAgent string

definition MaxValueBytes :: nat where
  "MaxValueBytes = 1024 * 1024"

text \<open>\<^verbatim>\<open>etcd.Marshal\<close>: the encoding, unless it is over the cap.\<close>

definition Marshal :: "'v \<Rightarrow> ('v, 'x, store_err + 'v) prog" where
  "Marshal v = Encode v (\<lambda>n. Ret (if n > MaxValueBytes then Inl ErrValueTooLarge else Inr v))"

definition Commit ::
    "'v cmp list \<Rightarrow> 'v txop list \<Rightarrow> 'v txop list \<Rightarrow> ('v, 'x, store_err + bool \<times> (key \<times> 'v \<times> nat) list list) prog" where
  "Commit cs thens elses = Etcd (ReqTxn cs thens elses) (\<lambda>r. Ret
     (case r of
        Inl m \<Rightarrow> Inl (ErrEtcd m)
      | Inr (RespTxn ok out) \<Rightarrow> Inr (ok, out)
      | Inr (RespRows _) \<Rightarrow> Inl ErrCorrupt))"

definition Rows :: "'v request \<Rightarrow> ('v, 'x, store_err + (key \<times> 'v \<times> nat) list) prog" where
  "Rows q = Etcd q (\<lambda>r. Ret
     (case r of
        Inl m \<Rightarrow> Inl (ErrEtcd m)
      | Inr (RespRows rs) \<Rightarrow> Inr rs
      | Inr (RespTxn _ _) \<Rightarrow> Inl ErrCorrupt))"

text \<open>A plain put and a plain delete are transactions of one operation.\<close>

definition Put :: "key \<Rightarrow> 'v \<Rightarrow> ('v, 'x, store_err + unit) prog" where
  "Put k v = bind_ok (Marshal v) (\<lambda>v. bind_ok (Commit [] [OpPut k v] []) (\<lambda>_. Ret (Inr ())))"

definition Delete :: "key \<Rightarrow> ('v, 'x, store_err + bool) prog" where
  "Delete k = bind_ok (Commit [] [OpDelete k] []) (\<lambda>(_, out). Ret (Inr (concat out \<noteq> [])))"

text \<open>A raw get, with the mod revision that compare-and-swap writers need.\<close>

definition GetRev :: "key \<Rightarrow> ('v, 'x, store_err + ('v \<times> nat) option) prog" where
  "GetRev k = bind_ok (Rows (ReqGet k)) (\<lambda>rs. Ret (Inr (case rs of [] \<Rightarrow> None | (_, v) # _ \<Rightarrow> Some v)))"

definition Get :: "key \<Rightarrow> ('v, 'x, store_err + 'v option) prog" where
  "Get k = bind_ok (GetRev k) (\<lambda>r. Ret (Inr (map_option fst r)))"

text \<open>\<^verbatim>\<open>GetJSON\<close>: \<open>dec\<close> is the decoding into the wanted type.\<close>

definition GetJSON :: "('v \<Rightarrow> 'd option) \<Rightarrow> key \<Rightarrow> ('v, 'x, store_err + 'd option) prog" where
  "GetJSON dec k = bind_ok (Get k) (\<lambda>r. Ret
     (case r of
        None \<Rightarrow> Inr None
      | Some v \<Rightarrow> (case dec v of None \<Rightarrow> Inl ErrCorrupt | Some d \<Rightarrow> Inr (Some d))))"

definition PutIfAbsent :: "key \<Rightarrow> 'v \<Rightarrow> ('v, 'x, store_err + bool) prog" where
  "PutIfAbsent k v = bind_ok (Marshal v) (\<lambda>v.
     bind_ok (Commit [CreateRevision k 0] [OpPut k v] []) (\<lambda>(ok, _). Ret (Inr ok)))"

definition RangeKV :: "key \<Rightarrow> ('v, 'x, store_err + (key \<times> 'v) list) prog" where
  "RangeKV p = bind_ok (Rows (ReqRange p)) (\<lambda>rs. Ret (Inr (map (\<lambda>(k, v, _). (k, v)) rs)))"

subsection \<open>Proof rules for the client\<close>

definition row_of :: "'v kv \<Rightarrow> key \<Rightarrow> ('v \<times> nat) option" where
  "row_of s k = map_option (\<lambda>r. (row_value r, row_mod r)) (kv_get s k)"

definition txn_after :: "'v cmp list \<Rightarrow> 'v txop list \<Rightarrow> 'v txop list \<Rightarrow> 'v kv \<Rightarrow> 'v kv" where
  "txn_after cs thens elses s = snd (kv_apply (ReqTxn cs thens elses) s)"

definition txn_out :: "'v cmp list \<Rightarrow> 'v txop list \<Rightarrow> 'v txop list \<Rightarrow> 'v kv \<Rightarrow> (key \<times> 'v \<times> nat) list list" where
  "txn_out cs thens elses s =
     fst (ops_apply (Suc (kv_rev s)) (if list_all (cmp_holds s) cs then thens else elses) (kv_rows s))"

lemma txn_after_get:
  "kv_wf s \<Longrightarrow> kv_get (txn_after cs ts es s) =
     fold (op_map (Suc (kv_rev s))) (if list_all (cmp_holds s) cs then ts else es) (kv_get s)"
  unfolding txn_after_def by (rule kv_apply_txn(1)) (simp_all add: prod_eq_iff)

lemma txn_after_wf: "kv_wf s \<Longrightarrow> kv_wf (txn_after cs ts es s)"
  unfolding txn_after_def using kv_apply_rows(1) [of s] by (metis surjective_pairing)

lemma txn_after_step: "kv_step s (txn_after cs ts es s)"
  unfolding txn_after_def kv_step_def by blast

lemma txn_fails [simp]: "\<not> list_all (cmp_holds s) cs \<Longrightarrow> txn_after cs ts [] s = s"
  by (simp add: txn_after_def Let_def)

lemma filter_key: "kv_wf s \<Longrightarrow>
    filter (\<lambda>(k', _). k' = k) (kv_rows s) = (case kv_get s k of None \<Rightarrow> [] | Some r \<Rightarrow> [(k, r)])"
proof -
  have "sorted_wrt (<) (map fst rs) \<Longrightarrow>
      filter (\<lambda>(k', _). k' = k) rs = (case map_of rs k of None \<Rightarrow> [] | Some r \<Rightarrow> [(k, r)])" for rs :: "(key \<times> 'a row) list"
  proof (induction rs)
    case (Cons x rs)
    obtain k1 r1 where x: "x = (k1, r1)" by (cases x)
    have "k1 = k \<Longrightarrow> filter (\<lambda>(k', _). k' = k) rs = []"
      using Cons.prems x by (auto simp: filter_empty_conv)
    with Cons x show ?case by auto
  qed simp
  then show "kv_wf s \<Longrightarrow> ?thesis" by (simp add: kv_wf_def kv_get_def)
qed

lemma wlp_bind_ok:
  "wlp R G (bind_ok p f) Q s \<longleftrightarrow>
     wlp R G p (\<lambda>r s. case r of Inl e \<Rightarrow> Q (Inl e) s | Inr x \<Rightarrow> wlp R G (f x) Q s) s"
proof -
  have "(\<lambda>x. wlp R G (case x of Inl e \<Rightarrow> Ret (Inl e) | Inr x \<Rightarrow> f x) Q) =
      (\<lambda>r s. case r of Inl e \<Rightarrow> Q (Inl e) s | Inr x \<Rightarrow> wlp R G (f x) Q s)"
    by (auto simp: fun_eq_iff split: sum.split)
  then show ?thesis by (simp add: bind_ok_def wlp_bind)
qed

lemma wlp_Marshal:
  "wlp R G (Marshal v) Q s \<longleftrightarrow> Q (Inl ErrValueTooLarge) s \<and> Q (Inr v) s"
  by (auto simp: Marshal_def dest: spec [of _ "Suc MaxValueBytes"] spec [of _ MaxValueBytes])

lemma wlp_Commit:
  "wlp R G (Commit cs ts es) Q s \<longleftrightarrow> (\<forall>s1. R\<^sup>*\<^sup>* s s1 \<longrightarrow>
     G s1 s1 \<and> G s1 (txn_after cs ts es s1) \<and>
     Q (Inr (list_all (cmp_holds s1) cs, txn_out cs ts es s1)) (txn_after cs ts es s1) \<and>
     (\<forall>msg. Q (Inl (ErrEtcd msg)) s1 \<and> Q (Inl (ErrEtcd msg)) (txn_after cs ts es s1)))"
  by (simp add: Commit_def txn_after_def txn_out_def Let_def case_prod_beta)

lemma wlp_Rows_Range:
  "wlp R G (Rows (ReqRange p)) Q s \<longleftrightarrow> (\<forall>s1. R\<^sup>*\<^sup>* s s1 \<longrightarrow> G s1 s1 \<and>
     Q (Inr (result_rows (filter (\<lambda>(k', _). strict_prefix p k') (kv_rows s1)))) s1 \<and>
     (\<forall>msg. Q (Inl (ErrEtcd msg)) s1))"
  by (auto simp: Rows_def)

lemma wlp_GetRev:
  assumes "\<And>s1. R\<^sup>*\<^sup>* s s1 \<Longrightarrow> kv_wf s1"
  shows "wlp R G (GetRev k) Q s \<longleftrightarrow> (\<forall>s1. R\<^sup>*\<^sup>* s s1 \<longrightarrow>
     G s1 s1 \<and> Q (Inr (row_of s1 k)) s1 \<and> (\<forall>msg. Q (Inl (ErrEtcd msg)) s1))"
proof -
  have "(case result_rows (filter (\<lambda>(k', _). k' = k) (kv_rows s1)) of [] \<Rightarrow> None | (x, xa) # xb \<Rightarrow> Some xa) = row_of s1 k"
    if "kv_wf s1" for s1 :: "'a kv"
    using filter_key [OF that, of k] by (auto simp: row_of_def result_rows_def split: option.split)
  with assms show ?thesis by (auto simp: GetRev_def wlp_bind_ok Rows_def)
qed

lemma wlp_Get:
  assumes "\<And>s1. R\<^sup>*\<^sup>* s s1 \<Longrightarrow> kv_wf s1"
  shows "wlp R G (Get k) Q s \<longleftrightarrow> (\<forall>s1. R\<^sup>*\<^sup>* s s1 \<longrightarrow>
     G s1 s1 \<and> Q (Inr (map_option row_value (kv_get s1 k))) s1 \<and> (\<forall>msg. Q (Inl (ErrEtcd msg)) s1))"
  using assms by (simp add: Get_def wlp_bind_ok wlp_GetRev row_of_def option.map_comp comp_def)

lemma later_wf: "later s s1 \<Longrightarrow> kv_wf s \<Longrightarrow> kv_wf s1"
  using later_rows by blast

subsection \<open>Undisturbed executions\<close>

text \<open>
  An execution without interference and failures, with small encodings, a clock and an identifier
  source that count, and agents that succeed.
\<close>

primrec solo :: "('v, 'x, 'a) prog \<Rightarrow> nat \<Rightarrow> 'v kv \<Rightarrow> ('v, 'x) event list \<times> 'a \<times> 'v kv" where
  "solo (Ret x) n s = ([], x, s)"
| "solo (Etcd q k) n s =
     (let (resp, s') = kv_apply q s; (tr, r) = solo (k (Inr resp)) n s' in (EvEtcd q s s' # tr, r))"
| "solo (Encode v k) n s = solo (k 0) n s"
| "solo (Now k) n s = (let (tr, r) = solo (k (int n)) (Suc n) s in (EvNow (int n) # tr, r))"
| "solo (Fresh k) n s = (let (tr, r) = solo (k n) (Suc n) s in (EvFresh n # tr, r))"
| "solo (Agent y k) n s = (let (tr, r) = solo (k None) n s in (EvAgent y None # tr, r))"

lemma solo_exec: "solo p n s = (tr, x, s') \<Longrightarrow> exec R p s tr x s'"
proof (induction p arbitrary: n s tr)
  case (Ret y)
  then show ?case by (simp add: exec_ret)
next
  case (Etcd q k)
  obtain resp s1 where a: "kv_apply q s = (resp, s1)" by (cases "kv_apply q s")
  obtain tr1 where t: "solo (k (Inr resp)) n s1 = (tr1, x, s')" "tr = EvEtcd q s s1 # tr1"
    using Etcd.prems a by (cases "solo (k (Inr resp)) n s1") auto
  show ?case unfolding t(2) by (rule exec_etcd [where k = k, OF _ a]) (simp_all add: Etcd.IH [OF rangeI t(1)])
next
  case (Encode v k)
  then have "solo (k 0) n s = (tr, x, s')" by simp
  from exec_encode [where k = k, OF Encode.IH [OF rangeI this]] show ?case .
next
  case (Now k)
  obtain tr1 where t: "solo (k (int n)) (Suc n) s = (tr1, x, s')" "tr = EvNow (int n) # tr1"
    using Now.prems by (cases "solo (k (int n)) (Suc n) s") auto
  show ?case unfolding t(2) by (rule exec_now [where k = k, OF Now.IH [OF rangeI t(1)]])
next
  case (Fresh k)
  obtain tr1 where t: "solo (k n) (Suc n) s = (tr1, x, s')" "tr = EvFresh n # tr1"
    using Fresh.prems by (cases "solo (k n) (Suc n) s") auto
  show ?case unfolding t(2) by (rule exec_fresh [where k = k, OF Fresh.IH [OF rangeI t(1)]])
next
  case (Agent y k)
  obtain tr1 where t: "solo (k None) n s = (tr1, x, s')" "tr = EvAgent y None # tr1"
    using Agent.prems by (cases "solo (k None) n s") auto
  show ?case unfolding t(2) by (rule exec_agent [where k = k, OF Agent.IH [OF rangeI t(1)]])
qed

subsection \<open>Executions of the client calls\<close>

lemma exec_bind:
  "exec R (bind p f) s tr x s' \<Longrightarrow>
     \<exists>tr1 y s1 tr2. exec R p s tr1 y s1 \<and> exec R (f y) s1 tr2 x s' \<and> tr = tr1 @ tr2"
proof (induction p arbitrary: s tr)
  case (Ret y)
  then show ?case
    by (intro exI [of _ "[]"] exI [of _ y] exI [of _ s] exI [of _ tr]) (simp add: exec_ret)
next
  case (Etcd q k)
  from Etcd.prems have "exec R (Etcd q (\<lambda>r. bind (k r) f)) s tr x s'" by simp
  then show ?case
  proof (elim exec_EtcdE, goal_cases)
    case (1 s1 resp s2 tr0)
    from Etcd.IH [OF rangeI 1(4)] obtain tr1 y s3 tr2 where
      "exec R (k (Inr resp)) s2 tr1 y s3" "exec R (f y) s3 tr2 x s'" "tr0 = tr1 @ tr2" by blast
    moreover from this(1) 1 have "exec R (Etcd q k) s (EvEtcd q s1 s2 # tr1) y s3" by (intro exec_etcd)
    ultimately show ?case using 1 by (intro exI [of _ "EvEtcd q s1 s2 # tr1"] exI [of _ y] exI [of _ s3] exI [of _ tr2]) simp
  next
    case (2 s1 s2 msg tr0)
    from Etcd.IH [OF rangeI 2(4)] obtain tr1 y s3 tr2 where
      "exec R (k (Inl msg)) s2 tr1 y s3" "exec R (f y) s3 tr2 x s'" "tr0 = tr1 @ tr2" by blast
    moreover from this(1) 2 have "exec R (Etcd q k) s (EvEtcd q s1 s2 # tr1) y s3" by (intro exec_error [where msg = msg])
    ultimately show ?case using 2 by (intro exI [of _ "EvEtcd q s1 s2 # tr1"] exI [of _ y] exI [of _ s3] exI [of _ tr2]) simp
  qed
next
  case (Encode v k)
  from Encode.prems obtain n where "exec R (bind (k n) f) s tr x s'" by auto
  from Encode.IH [OF rangeI this] obtain tr1 y s1 tr2 where
    "exec R (k n) s tr1 y s1" "exec R (f y) s1 tr2 x s'" "tr = tr1 @ tr2" by blast
  moreover from this(1) have "exec R (Encode v k) s tr1 y s1" by (rule exec_encode)
  ultimately show ?case by (intro exI conjI)
next
  case (Now k)
  from Now.prems obtain t tr0 where t: "tr = EvNow t # tr0" "exec R (bind (k t) f) s tr0 x s'" by auto
  from Now.IH [OF rangeI t(2)] obtain tr1 y s1 tr2 where
    "exec R (k t) s tr1 y s1" "exec R (f y) s1 tr2 x s'" "tr0 = tr1 @ tr2" by blast
  moreover from this(1) have "exec R (Now k) s (EvNow t # tr1) y s1" by (rule exec_now)
  ultimately show ?case using t by (intro exI [of _ "EvNow t # tr1"] exI [of _ y] exI [of _ s1] exI [of _ tr2]) simp
next
  case (Fresh k)
  from Fresh.prems obtain t tr0 where t: "tr = EvFresh t # tr0" "exec R (bind (k t) f) s tr0 x s'" by auto
  from Fresh.IH [OF rangeI t(2)] obtain tr1 y s1 tr2 where
    "exec R (k t) s tr1 y s1" "exec R (f y) s1 tr2 x s'" "tr0 = tr1 @ tr2" by blast
  moreover from this(1) have "exec R (Fresh k) s (EvFresh t # tr1) y s1" by (rule exec_fresh)
  ultimately show ?case using t by (intro exI [of _ "EvFresh t # tr1"] exI [of _ y] exI [of _ s1] exI [of _ tr2]) simp
next
  case (Agent z k)
  from Agent.prems obtain t tr0 where t: "tr = EvAgent z t # tr0" "exec R (bind (k t) f) s tr0 x s'" by auto
  from Agent.IH [OF rangeI t(2)] obtain tr1 y s1 tr2 where
    "exec R (k t) s tr1 y s1" "exec R (f y) s1 tr2 x s'" "tr0 = tr1 @ tr2" by blast
  moreover from this(1) have "exec R (Agent z k) s (EvAgent z t # tr1) y s1" by (rule exec_agent)
  ultimately show ?case using t by (intro exI [of _ "EvAgent z t # tr1"] exI [of _ y] exI [of _ s1] exI [of _ tr2]) simp
qed

lemma exec_bind_ok:
  assumes "exec R (bind_ok p f) s tr x s'"
  shows "\<exists>tr1 y s1 tr2. exec R p s tr1 y s1 \<and> tr = tr1 @ tr2 \<and>
    (case y of Inl e \<Rightarrow> x = Inl e \<and> tr2 = [] \<and> s' = s1 | Inr v \<Rightarrow> exec R (f v) s1 tr2 x s')"
proof -
  obtain tr1 y s1 tr2 where "exec R p s tr1 y s1" "tr = tr1 @ tr2"
    "exec R (case y of Inl e \<Rightarrow> Ret (Inl e) | Inr v \<Rightarrow> f v) s1 tr2 x s'"
    using exec_bind [OF assms [unfolded bind_ok_def]] by (elim exE conjE) (rule that)
  then show ?thesis by (intro exI [of _ tr1] exI [of _ y] exI [of _ s1] exI [of _ tr2]) (auto split: sum.splits)
qed

lemma exec_bind_ok_Inr:
  assumes "exec R (bind_ok p f) s tr (Inr x) s'"
  obtains tr1 v s1 tr2 where "exec R p s tr1 (Inr v) s1" "exec R (f v) s1 tr2 (Inr x) s'" "tr = tr1 @ tr2"
proof -
  obtain tr1 y s1 tr2 where y: "exec R p s tr1 y s1" "tr = tr1 @ tr2"
    "case y of Inl e \<Rightarrow> Inr x = Inl e \<and> tr2 = [] \<and> s' = s1 | Inr v \<Rightarrow> exec R (f v) s1 tr2 (Inr x) s'"
    using exec_bind_ok [OF assms] by (elim exE conjE) (rule that)
  then show thesis by (cases y) (simp_all add: that)
qed

lemma exec_Commit:
  assumes "exec R (Commit cs ts es) s tr x s'"
  shows "\<exists>s1. R\<^sup>*\<^sup>* s s1 \<and> tr = [EvEtcd (ReqTxn cs ts es) s1 s'] \<and>
    (x = Inr (list_all (cmp_holds s1) cs, txn_out cs ts es s1) \<and> s' = txn_after cs ts es s1 \<or>
     (\<exists>m. x = Inl (ErrEtcd m)) \<and> (s' = s1 \<or> s' = txn_after cs ts es s1))"
  using assms unfolding Commit_def
proof (elim exec_EtcdE, goal_cases)
  case (1 s1 resp s2 tr0)
  then have "tr0 = []" "s' = s2" "x = Inr (list_all (cmp_holds s1) cs, txn_out cs ts es s1)" "s2 = txn_after cs ts es s1"
    by (auto simp: txn_after_def txn_out_def Let_def case_prod_beta)
  with 1 show ?case by auto
next
  case (2 s1 s2 msg tr0)
  then have "tr0 = []" "s' = s2" "x = Inl (ErrEtcd msg)" by auto
  with 2 show ?case by (auto simp: txn_after_def)
qed

lemma exec_Get:
  assumes "exec R (Get k) s tr x s'" "\<And>s1. R\<^sup>*\<^sup>* s s1 \<Longrightarrow> kv_wf s1"
  shows "R\<^sup>*\<^sup>* s s' \<and> tr = [EvEtcd (ReqGet k) s' s'] \<and> (x = Inr (row_doc s' k) \<or> (\<exists>m. x = Inl (ErrEtcd m)))"
proof -
  have *: "map_option fst (case result_rows (filter (\<lambda>(k', _). k' = k) (kv_rows s1)) of [] \<Rightarrow> None | (x, xa) # xb \<Rightarrow> Some xa) = row_doc s1 k"
    if "kv_wf s1" for s1 :: "'a kv"
    using filter_key [OF that, of k] by (auto simp: row_doc_def result_rows_def split: option.split)
  show ?thesis
    using assms(1) unfolding Get_def GetRev_def Rows_def bind_ok_def bind.simps
  proof (elim exec_EtcdE, goal_cases)
    case (1 s1 resp s2 tr0)
    then have "tr0 = []" "s' = s2" "s2 = s1" "x = Inr (row_doc s1 k)" using * assms(2) by auto
    with 1 show ?case by auto
  next
    case (2 s1 s2 msg tr0)
    then have "tr0 = []" "s' = s2" "s2 = s1" "x = Inl (ErrEtcd msg)" by auto
    with 2 show ?case by auto
  qed
qed

end
