(* ===== verification/Keyspace.thy ===== *)
theory Keyspace
  imports Etcd Cluster
begin

text \<open>
  The documents under the keys of the control-plane keyspace that the modelled operations read and
  write (\<^verbatim>\<open>internal/store\<close> and \<^verbatim>\<open>internal/etcdstore\<close>), and the calls to agents.
  A JSON payload that the code only passes on (task results, error envelopes) is a string.
\<close>

subsection \<open>Jobs\<close>

datatype JobState = JobStatePending | JobStateRunning | JobStateCompleted | JobStateFailed

text \<open>The job-args payloads of the modelled handlers; every other payload is a kind and its bytes.\<close>

datatype JobArgs =
    ReplicateArgs (ja_TaskID: uuid) (ja_Digest: string) (ja_TargetNodeID: uuid)
  | ReclaimArgs (ja_TaskID: uuid) (ja_Digest: string) (ja_TargetNodeID: uuid)
  | OtherArgs (ja_Kind: string) (ja_Payload: string)

fun Kind :: "JobArgs \<Rightarrow> string" where
  "Kind (ReplicateArgs t d n) = ''artifact.replicate''"
| "Kind (ReclaimArgs t d n) = ''artifact.reclaim''"
| "Kind (OtherArgs k p) = k"

text \<open>An empty claim token is \<open>None\<close>.\<close>

record Job =
  job_ID :: int
  job_Kind :: string
  job_Args :: JobArgs
  job_State :: JobState
  job_Attempts :: int
  job_FailedAt :: "gotime option"
  job_ClaimedAt :: "gotime option"
  job_ClaimToken :: "uuid option"

subsection \<open>Tasks\<close>

datatype TaskStatus =
    TaskStatusPending | TaskStatusRunning | TaskStatusSuccess | TaskStatusFailed | TaskStatusCancelled

text \<open>Of the JSON arguments of a task only \<^verbatim>\<open>source_snapshot_id\<close> is ever read back.\<close>

datatype TaskArgs = ArgsJSON "uuid option" | ArgsMalformed

record Task =
  tk_ID :: uuid
  tk_Type :: string
  tk_Status :: TaskStatus
  tk_ResourceType :: string
  tk_ResourceID :: "uuid option"
  tk_Args :: TaskArgs
  tk_Result :: "string option"
  tk_Error :: "string option"
  tk_Attempts :: int
  tk_MaxAttempts :: int
  tk_JobID :: "int option"
  tk_AgentTaskID :: "uuid option"
  tk_CreatedBy :: "uuid option"
  tk_CreatedAt :: gotime
  tk_StartedAt :: "gotime option"
  tk_FinishedAt :: "gotime option"

record CreateTaskParams =
  ct_ID :: uuid
  ct_Type :: string
  ct_Status :: TaskStatus
  ct_ResourceType :: string
  ct_ResourceID :: "uuid option"
  ct_Args :: TaskArgs
  ct_MaxAttempts :: int
  ct_CreatedBy :: "uuid option"
  ct_IdempotencyUserID :: "uuid option"
  ct_IdempotencyKey :: "string option"
  ct_IdempotencyHash :: string

record idempotencyTaskIndex =
  it_TaskID :: uuid
  it_RequestHash :: string
  it_ExpiresAt :: gotime

subsection \<open>Blobs, snapshots and artifact pools\<close>

record NodeBlob =
  nb_Digest :: string
  nb_SizeBytes :: int

record SnapshotDisk =
  sd_SHA256 :: string
  sd_SizeBytes :: int

record Snapshot =
  sn_ID :: uuid
  sn_ArtifactPoolName :: "string option"
  sn_Disks :: "SnapshotDisk list"
  sn_DeletedAt :: "gotime option"

record ReplicationFactor =
  rf_All :: bool
  rf_Count :: int

record ArtifactPoolMembership =
  am_AllNodes :: bool
  am_Nodes :: "string list"

record ArtifactPool =
  ap_ID :: uuid
  ap_Name :: string
  ap_ReplicationFactor :: ReplicationFactor
  ap_Membership :: ArtifactPoolMembership
  ap_DeletedAt :: "gotime option"

subsection \<open>Users and refresh tokens\<close>

record User =
  us_ID :: uuid
  us_Username :: string
  us_PasswordHash :: string
  us_Role :: string
  us_LastLoginAt :: "gotime option"
  us_DeletedAt :: "gotime option"

text \<open>The user agent and the address of a token are only stored; they are left out.\<close>

record RefreshToken =
  rt_ID :: uuid
  rt_UserID :: uuid
  rt_TokenHash :: "byte list"
  rt_FamilyID :: uuid
  rt_ParentID :: "uuid option"
  rt_IssuedAt :: gotime
  rt_ExpiresAt :: gotime
  rt_RevokedAt :: "gotime option"
  rt_LastUsedAt :: "gotime option"

record CreateRefreshTokenParams =
  cr_ID :: uuid
  cr_UserID :: uuid
  cr_TokenHash :: "byte list"
  cr_FamilyID :: uuid
  cr_ParentID :: "uuid option"
  cr_ExpiresAt :: gotime

subsection \<open>Documents\<close>

text \<open>\<open>DCorrupt\<close> is a value that does not decode.\<close>

datatype doc =
    DJob Job
  | DTask Task
  | DSeq int
  | DUUID uuid
  | DIdempotency idempotencyTaskIndex
  | DInflight gotime
  | DBlobs "NodeBlob list"
  | DNode Node
  | DSnapshot Snapshot
  | DArtifactPool ArtifactPool
  | DUser User
  | DRefreshToken RefreshToken
  | DBarrier gotime
  | DMarker
  | DCorrupt

datatype agent_call =
    AgentReclaim uuid string
  | BrokerPull string uuid

type_synonym 'a store_op = "(doc, agent_call, store_err + 'a) prog"

fun dec_job :: "doc \<Rightarrow> Job option" where
  "dec_job (DJob j) = Some j" | "dec_job _ = None"

fun dec_task :: "doc \<Rightarrow> Task option" where
  "dec_task (DTask t) = Some t" | "dec_task _ = None"

fun dec_blobs :: "doc \<Rightarrow> NodeBlob list option" where
  "dec_blobs (DBlobs b) = Some b" | "dec_blobs _ = None"

fun dec_node :: "doc \<Rightarrow> Node option" where
  "dec_node (DNode n) = Some n" | "dec_node _ = None"

fun dec_snapshot :: "doc \<Rightarrow> Snapshot option" where
  "dec_snapshot (DSnapshot s) = Some s" | "dec_snapshot _ = None"

fun dec_artifact_pool :: "doc \<Rightarrow> ArtifactPool option" where
  "dec_artifact_pool (DArtifactPool p) = Some p" | "dec_artifact_pool _ = None"

fun dec_user :: "doc \<Rightarrow> User option" where
  "dec_user (DUser u) = Some u" | "dec_user _ = None"

fun dec_refresh_token :: "doc \<Rightarrow> RefreshToken option" where
  "dec_refresh_token (DRefreshToken r) = Some r" | "dec_refresh_token _ = None"

text \<open>
  \<^verbatim>\<open>decodeOrQuarantine\<close> in a scan: a row that does not decode is skipped, the rest of the scan
  goes on.
\<close>

definition decodeOrQuarantine :: "(doc \<Rightarrow> 'd option) \<Rightarrow> (key \<times> doc) list \<Rightarrow> (key \<times> 'd) list" where
  "decodeOrQuarantine dec items = List.map_filter (\<lambda>(k, v). map_option (Pair k) (dec v)) items"

subsection \<open>Sequences\<close>

text \<open>\<^verbatim>\<open>nextSeq\<close>: the value-compare loop, at most 64 rounds.\<close>

primrec nextSeq_loop :: "nat \<Rightarrow> key \<Rightarrow> int store_op" where
  "nextSeq_loop 0 k = Ret (Inl ErrSequenceContention)"
| "nextSeq_loop (Suc i) k = bind_ok (Get k) (\<lambda>cur.
     let attempt = (\<lambda>n c. bind_ok (Commit [c] [OpPut k (DSeq (wrap64 (n + 1)))] []) (\<lambda>(ok, _).
           if ok then Ret (Inr (wrap64 (n + 1))) else nextSeq_loop i k))
     in case cur of
          None \<Rightarrow> attempt 0 (CreateRevision k 0)
        | Some (DSeq n) \<Rightarrow> attempt n (ValueIs k (DSeq n))
        | Some _ \<Rightarrow> Ret (Inl ErrCorrupt))"

definition nextSeq :: "key \<Rightarrow> int store_op" where
  "nextSeq k = nextSeq_loop 64 k"

end
