(* ===== verification/JobQueue.thy ===== *)
theory JobQueue
  imports Keyspace
begin

text \<open>
  The job queue and the task rows of the control plane: producers and consumers of jobs
  (\<^verbatim>\<open>internal/etcdstore/jobs.go\<close>, \<^verbatim>\<open>jobs_consume.go\<close>), task rows (\<^verbatim>\<open>tasks.go\<close>), the sweeps over both
  (\<^verbatim>\<open>maintenance.go\<close>), and the worker runtime that drives them (\<^verbatim>\<open>internal/worker\<close>).
\<close>

subsection \<open>Keys\<close>

definition jobSeqKey :: key where
  "jobSeqKey = [Lit ''seq'', Lit ''jobs'']"

definition jobKey :: "int \<Rightarrow> key" where
  "jobKey seq = [Lit ''jobs'', Num seq]"

definition jobsPrefix :: key where
  "jobsPrefix = [Lit ''jobs'']"

definition taskKey :: "uuid \<Rightarrow> key" where
  "taskKey i = [Lit ''tasks'', UId i]"

definition taskPrefix :: key where
  "taskPrefix = [Lit ''tasks'']"

definition taskCreatedByKey :: "uuid \<Rightarrow> uuid \<Rightarrow> key" where
  "taskCreatedByKey u i = [Lit ''index'', Lit ''tasks'', Lit ''created_by'', UId u, UId i]"

definition idempotencyTaskIndexKey :: "uuid \<Rightarrow> string \<Rightarrow> key" where
  "idempotencyTaskIndexKey u k = [Lit ''index'', Lit ''idempotency_task'', UId u, Lit k]"

subsection \<open>Producing jobs\<close>

definition nextJobSeq :: "int store_op" where
  "nextJobSeq = nextSeq jobSeqKey"

definition enqueueJobOp :: "JobArgs \<Rightarrow> (int \<times> doc txop) store_op" where
  "enqueueJobOp args = bind_ok nextJobSeq (\<lambda>seq.
     bind_ok (Marshal (DJob \<lparr>job_ID = seq, job_Kind = Kind args, job_Args = args, job_State = JobStatePending,
         job_Attempts = 0, job_FailedAt = None, job_ClaimedAt = None, job_ClaimToken = None\<rparr>)) (\<lambda>val.
     Ret (Inr (seq, OpPut (jobKey seq) val))))"

subsection \<open>Consuming jobs\<close>

definition PendingJobs :: "Job list store_op" where
  "PendingJobs = bind_ok (RangeKV jobsPrefix) (\<lambda>items.
     Ret (Inr (filter (\<lambda>j. job_State j = JobStatePending) (map snd (decodeOrQuarantine dec_job items)))))"

definition jobWithRev :: "int \<Rightarrow> (Job \<times> nat) option store_op" where
  "jobWithRev i = bind_ok (GetRev (jobKey i)) (\<lambda>r. Ret
     (case r of
        None \<Rightarrow> Inr None
      | Some (v, modRev) \<Rightarrow> (case dec_job v of None \<Rightarrow> Inl ErrCorrupt | Some j \<Rightarrow> Inr (Some (j, modRev)))))"

text \<open>The write all job transitions share: put the row if its mod revision is still the one read.\<close>

definition casJob :: "int \<Rightarrow> nat \<Rightarrow> Job \<Rightarrow> bool store_op" where
  "casJob i modRev job = bind_ok (Marshal (DJob job)) (\<lambda>val.
     bind_ok (Commit [ModRevision (jobKey i) modRev] [OpPut (jobKey i) val] []) (\<lambda>(ok, _). Ret (Inr ok)))"

definition ClaimJob :: "int \<Rightarrow> uuid option store_op" where
  "ClaimJob i = bind_ok (jobWithRev i) (\<lambda>r.
     case r of
       None \<Rightarrow> Ret (Inr None)
     | Some (job, modRev) \<Rightarrow>
         if job_State job \<noteq> JobStatePending then Ret (Inr None)
         else Fresh (\<lambda>token. Now (\<lambda>now.
           bind_ok (casJob i modRev (job\<lparr>job_State := JobStateRunning, job_ClaimedAt := Some now,
               job_ClaimToken := Some token\<rparr>)) (\<lambda>ok.
           Ret (Inr (if ok then Some token else None))))))"

text \<open>\<^verbatim>\<open>job.State != JobStateRunning || token == "" || job.ClaimToken != token\<close>, negated.\<close>

definition ownsClaim :: "Job \<Rightarrow> uuid option \<Rightarrow> bool" where
  "ownsClaim job token \<longleftrightarrow> job_State job = JobStateRunning \<and> token \<noteq> None \<and> job_ClaimToken job = token"

definition RenewJobLease :: "int \<Rightarrow> uuid option \<Rightarrow> bool store_op" where
  "RenewJobLease i token = bind_ok (jobWithRev i) (\<lambda>r.
     case r of
       None \<Rightarrow> Ret (Inr False)
     | Some (job, modRev) \<Rightarrow>
         if \<not> ownsClaim job token then Ret (Inr False)
         else Now (\<lambda>now. casJob i modRev (job\<lparr>job_ClaimedAt := Some now\<rparr>)))"

definition CompleteJob :: "int \<Rightarrow> unit store_op" where
  "CompleteJob i = bind_ok (Delete (jobKey i)) (\<lambda>_. Ret (Inr ()))"

definition claimFenceRetries :: nat where
  "claimFenceRetries = 3"

definition retriedJob :: "gotime \<Rightarrow> int \<Rightarrow> Job \<Rightarrow> bool \<times> Job" where
  "retriedJob now maxAttempts job =
     (let job = job\<lparr>job_Attempts := wrap32 (job_Attempts job + 1)\<rparr>;
          requeued = job_Attempts job < maxAttempts
      in (requeued,
          if requeued then job\<lparr>job_State := JobStatePending, job_ClaimedAt := None, job_ClaimToken := None\<rparr>
          else job\<lparr>job_State := JobStateFailed, job_FailedAt := Some now, job_ClaimToken := None\<rparr>))"

primrec RetryJob_loop :: "nat \<Rightarrow> int \<Rightarrow> uuid option \<Rightarrow> int \<Rightarrow> bool store_op" where
  "RetryJob_loop 0 i token maxAttempts = Ret (Inl ErrClaimFenceExhausted)"
| "RetryJob_loop (Suc n) i token maxAttempts = bind_ok (jobWithRev i) (\<lambda>r.
     case r of
       None \<Rightarrow> Ret (Inr False)
     | Some (job, modRev) \<Rightarrow>
         if \<not> ownsClaim job token then Ret (Inr False)
         else Now (\<lambda>now. bind_ok (casJob i modRev (snd (retriedJob now maxAttempts job))) (\<lambda>ok.
           if ok then Ret (Inr (fst (retriedJob now maxAttempts job))) else RetryJob_loop n i token maxAttempts)))"

definition RetryJob :: "int \<Rightarrow> uuid option \<Rightarrow> int \<Rightarrow> bool store_op" where
  "RetryJob = RetryJob_loop claimFenceRetries"

primrec RequeueJob_loop :: "nat \<Rightarrow> int \<Rightarrow> uuid option \<Rightarrow> unit store_op" where
  "RequeueJob_loop 0 i token = Ret (Inl ErrClaimFenceExhausted)"
| "RequeueJob_loop (Suc n) i token = bind_ok (jobWithRev i) (\<lambda>r.
     case r of
       None \<Rightarrow> Ret (Inr ())
     | Some (job, modRev) \<Rightarrow>
         if \<not> ownsClaim job token then Ret (Inr ())
         else bind_ok (casJob i modRev (job\<lparr>job_State := JobStatePending, job_ClaimedAt := None,
             job_ClaimToken := None\<rparr>)) (\<lambda>ok.
           if ok then Ret (Inr ()) else RequeueJob_loop n i token))"

definition RequeueJob :: "int \<Rightarrow> uuid option \<Rightarrow> unit store_op" where
  "RequeueJob = RequeueJob_loop claimFenceRetries"

subsection \<open>Tasks\<close>

definition TaskByID :: "uuid \<Rightarrow> Task store_op" where
  "TaskByID i = bind_ok (GetJSON dec_task (taskKey i)) (\<lambda>r. Ret
     (case r of None \<Rightarrow> Inl ErrNotFound | Some t \<Rightarrow> Inr t))"

definition taskFromParams :: "CreateTaskParams \<Rightarrow> int \<Rightarrow> gotime \<Rightarrow> Task" where
  "taskFromParams p jobSeq now =
     \<lparr>tk_ID = ct_ID p, tk_Type = ct_Type p, tk_Status = ct_Status p, tk_ResourceType = ct_ResourceType p,
      tk_ResourceID = ct_ResourceID p, tk_Args = ct_Args p, tk_Result = None, tk_Error = None,
      tk_Attempts = 0, tk_MaxAttempts = ct_MaxAttempts p, tk_JobID = Some jobSeq, tk_AgentTaskID = None,
      tk_CreatedBy = ct_CreatedBy p, tk_CreatedAt = now, tk_StartedAt = None, tk_FinishedAt = None\<rparr>"

definition taskIndexOps :: "Task \<Rightarrow> doc txop list" where
  "taskIndexOps t =
     (case tk_CreatedBy t of None \<Rightarrow> [] | Some u \<Rightarrow> [OpPut (taskCreatedByKey u (tk_ID t)) (DUUID (tk_ID t))])"

definition idempotencyTaskIndexTTL :: duration where
  "idempotencyTaskIndexTTL = 24 * 3600 * 1000000000"

definition EnqueueTask :: "CreateTaskParams \<Rightarrow> JobArgs \<Rightarrow> uuid store_op" where
  "EnqueueTask params args = bind_ok (enqueueJobOp args) (\<lambda>(seq, jobOp). Now (\<lambda>now.
     let task = taskFromParams params seq now
     in bind_ok (Marshal (DTask task)) (\<lambda>val.
       let ops = taskIndexOps task @ [OpPut (taskKey (tk_ID task)) val, jobOp]
       in case (ct_IdempotencyUserID params, ct_IdempotencyKey params) of
            (Some user, Some k) \<Rightarrow> Now (\<lambda>now2.
              let idxKey = idempotencyTaskIndexKey user k;
                  idxVal = DIdempotency \<lparr>it_TaskID = tk_ID task, it_RequestHash = ct_IdempotencyHash params,
                    it_ExpiresAt = now2 + idempotencyTaskIndexTTL\<rparr>
              in bind_ok (Commit [CreateRevision idxKey 0] (ops @ [OpPut idxKey idxVal]) [OpGet idxKey]) (\<lambda>(ok, out).
                   if ok then Ret (Inr (ct_ID params))
                   else Ret
                     (case concat (take 1 out) of
                        [] \<Rightarrow> Inl ErrIdempotencyKeyMismatch
                      | (_, DIdempotency prior, _) # _ \<Rightarrow>
                          if it_RequestHash prior \<noteq> ct_IdempotencyHash params then Inl ErrIdempotencyKeyMismatch
                          else Inr (it_TaskID prior)
                      | _ # _ \<Rightarrow> Inl ErrCorrupt)))
          | _ \<Rightarrow> bind_ok (Commit [] ops []) (\<lambda>_. Ret (Inr (ct_ID params))))))"

definition CancelPendingTask :: "uuid \<Rightarrow> int option \<Rightarrow> Task store_op" where
  "CancelPendingTask i jobRef = bind_ok (TaskByID i) (\<lambda>t.
     if tk_Status t \<noteq> TaskStatusPending then Ret (Inl ErrTaskNotCancellable)
     else Now (\<lambda>now.
       let t = t\<lparr>tk_Status := TaskStatusCancelled, tk_FinishedAt := Some now\<rparr>
       in bind_ok (Marshal (DTask t)) (\<lambda>taskVal.
         case jobRef of
           None \<Rightarrow> bind_ok (Put (taskKey i) (DTask t)) (\<lambda>_. Ret (Inr t))
         | Some j \<Rightarrow> bind_ok (jobWithRev j) (\<lambda>r.
             case r of
               None \<Rightarrow> Ret (Inl ErrTaskNotCancellable)
             | Some (job, jobModRev) \<Rightarrow>
                 if job_State job \<noteq> JobStatePending then Ret (Inl ErrTaskNotCancellable)
                 else bind_ok (Commit [ModRevision (jobKey j) jobModRev]
                        [OpPut (taskKey i) taskVal, OpDelete (jobKey j)] []) (\<lambda>(ok, _).
                   Ret (if ok then Inr t else Inl ErrTaskNotCancellable))))))"

definition updateTask :: "uuid \<Rightarrow> (Task \<Rightarrow> Task) \<Rightarrow> unit store_op" where
  "updateTask i mutate = bind_ok (TaskByID i) (\<lambda>t. Put (taskKey i) (DTask (mutate t)))"

definition isCommittedTerminal :: "TaskStatus \<Rightarrow> bool" where
  "isCommittedTerminal st \<longleftrightarrow> st = TaskStatusSuccess \<or> st = TaskStatusCancelled"

definition UpdateTaskRunning :: "uuid \<Rightarrow> bool store_op" where
  "UpdateTaskRunning i = bind_ok (TaskByID i) (\<lambda>t.
     if isCommittedTerminal (tk_Status t) then Ret (Inr True)
     else
       let put = (\<lambda>t. bind_ok (Put (taskKey i) (DTask (t\<lparr>tk_Attempts := wrap32 (tk_Attempts t + 1)\<rparr>)))
                    (\<lambda>_. Ret (Inr False)));
           t = t\<lparr>tk_Status := TaskStatusRunning\<rparr>
       in if tk_StartedAt t = None then Now (\<lambda>now. put (t\<lparr>tk_StartedAt := Some now\<rparr>)) else put t)"

definition UpdateTaskFinalized :: "uuid \<Rightarrow> TaskStatus \<Rightarrow> string option \<Rightarrow> string option \<Rightarrow> unit store_op" where
  "UpdateTaskFinalized i st result err = bind_ok (TaskByID i) (\<lambda>t. Now (\<lambda>now.
     Put (taskKey i) (DTask (t\<lparr>tk_Status := st, tk_Result := result, tk_Error := err, tk_FinishedAt := Some now\<rparr>))))"

definition UpdateTaskAgentTaskID :: "uuid \<Rightarrow> uuid option \<Rightarrow> unit store_op" where
  "UpdateTaskAgentTaskID i a = updateTask i (\<lambda>t. t\<lparr>tk_AgentTaskID := a\<rparr>)"

definition ClearTaskAgentTaskID :: "uuid \<Rightarrow> unit store_op" where
  "ClearTaskAgentTaskID i = updateTask i (\<lambda>t. t\<lparr>tk_AgentTaskID := None\<rparr>)"

subsection \<open>Listing tasks\<close>

fun status_string :: "TaskStatus \<Rightarrow> string" where
  "status_string TaskStatusPending = ''pending''"
| "status_string TaskStatusRunning = ''running''"
| "status_string TaskStatusSuccess = ''success''"
| "status_string TaskStatusFailed = ''failed''"
| "status_string TaskStatusCancelled = ''cancelled''"

record taskFilter =
  fl_createdBy :: "uuid option"
  fl_statusFilter :: "string option"
  fl_typeFilter :: "string option"
  fl_resourceTypeFilter :: "string option"
  fl_resourceIDFilter :: "uuid option"
  fl_cursorCreatedAt :: "gotime option"
  fl_cursorID :: "uuid option"
  fl_limitCount :: int

text \<open>The canonical strings of identifiers compare as the identifiers do.\<close>

definition beforeCursor :: "gotime \<Rightarrow> uuid \<Rightarrow> gotime option \<Rightarrow> uuid option \<Rightarrow> bool" where
  "beforeCursor createdAt i cursorCreatedAt cursorID =
     (case (cursorCreatedAt, cursorID) of
        (Some c, Some ci) \<Rightarrow> if createdAt \<noteq> c then createdAt < c else i < ci
      | _ \<Rightarrow> True)"

definition taskMatches :: "Task \<Rightarrow> taskFilter \<Rightarrow> bool" where
  "taskMatches t f \<longleftrightarrow>
     \<not> (fl_createdBy f \<noteq> None \<and> tk_CreatedBy t \<noteq> fl_createdBy f) \<and>
     \<not> (fl_statusFilter f \<noteq> None \<and> Some (status_string (tk_Status t)) \<noteq> fl_statusFilter f) \<and>
     \<not> (fl_typeFilter f \<noteq> None \<and> Some (tk_Type t) \<noteq> fl_typeFilter f) \<and>
     \<not> (fl_resourceTypeFilter f \<noteq> None \<and> Some (tk_ResourceType t) \<noteq> fl_resourceTypeFilter f) \<and>
     \<not> (fl_resourceIDFilter f \<noteq> None \<and> tk_ResourceID t \<noteq> fl_resourceIDFilter f) \<and>
     beforeCursor (tk_CreatedAt t) (tk_ID t) (fl_cursorCreatedAt f) (fl_cursorID f)"

definition task_newer :: "Task \<Rightarrow> Task \<Rightarrow> bool" where
  "task_newer a b \<longleftrightarrow> (if tk_CreatedAt a \<noteq> tk_CreatedAt b then tk_CreatedAt a > tk_CreatedAt b else tk_ID a > tk_ID b)"

definition select_tasks :: "taskFilter \<Rightarrow> Task list \<Rightarrow> Task list" where
  "select_tasks f tasks =
     (let out = sort_stable task_newer (filter (\<lambda>t. taskMatches t f) tasks)
      in if fl_limitCount f > 0 \<and> int (length out) > fl_limitCount f then take (nat (fl_limitCount f)) out else out)"

definition listTasks :: "taskFilter \<Rightarrow> Task list store_op" where
  "listTasks f = bind_ok (RangeKV taskPrefix) (\<lambda>items.
     Ret (Inr (select_tasks f (map snd (decodeOrQuarantine dec_task items)))))"

definition taskActive :: "Task \<Rightarrow> bool" where
  "taskActive t \<longleftrightarrow> tk_Status t = TaskStatusPending \<or> tk_Status t = TaskStatusRunning"

definition ActiveVMDeleteTaskVMIDs :: "uuid list store_op" where
  "ActiveVMDeleteTaskVMIDs = bind_ok (RangeKV taskPrefix) (\<lambda>items.
     Ret (Inr (remdups (List.map_filter
       (\<lambda>(_, t). if tk_Type t \<noteq> ''vm.delete'' \<or> tk_ResourceID t = None \<or> \<not> taskActive t then None else tk_ResourceID t)
       (decodeOrQuarantine dec_task items)))))"

definition ActiveCreatesReferencingSnapshot :: "uuid \<Rightarrow> int store_op" where
  "ActiveCreatesReferencingSnapshot snapshotID = bind_ok (RangeKV taskPrefix) (\<lambda>items.
     Ret (Inr (int (length (filter
       (\<lambda>(_, t). tk_Type t = ''vm.create'' \<and> taskActive t \<and>
          (case tk_Args t of ArgsMalformed \<Rightarrow> True | ArgsJSON src \<Rightarrow> src = Some snapshotID))
       (decodeOrQuarantine dec_task items))))))"

subsection \<open>Sweeps\<close>

definition maxTxnOps :: nat where
  "maxTxnOps = 120"

text \<open>\<^verbatim>\<open>commitInChunks\<close>\<close>

function commitInChunks :: "doc txop list \<Rightarrow> unit store_op" where
  "commitInChunks ops =
     (if ops = [] then Ret (Inr ())
      else bind_ok (Commit [] (take maxTxnOps ops) []) (\<lambda>_. commitInChunks (drop maxTxnOps ops)))"
  by pat_completeness auto
termination
  by (relation "measure length") (auto simp: maxTxnOps_def)

declare commitInChunks.simps [simp del]

record DeleteExpiredTasksParams =
  de_CompletedCutoff :: gotime
  de_FailedCutoff :: gotime

definition taskRetentionExpired :: "Task \<Rightarrow> DeleteExpiredTasksParams \<Rightarrow> bool" where
  "taskRetentionExpired t arg =
     (case tk_FinishedAt t of
        None \<Rightarrow> False
      | Some fin \<Rightarrow>
          (case tk_Status t of
             TaskStatusSuccess \<Rightarrow> fin < de_CompletedCutoff arg
           | TaskStatusFailed \<Rightarrow> fin < de_FailedCutoff arg
           | TaskStatusCancelled \<Rightarrow> fin < de_FailedCutoff arg
           | _ \<Rightarrow> False))"

definition DeleteExpiredTasks :: "DeleteExpiredTasksParams \<Rightarrow> int store_op" where
  "DeleteExpiredTasks arg = bind_ok (RangeKV taskPrefix) (\<lambda>items.
     let expired = filter (\<lambda>t. taskRetentionExpired t arg) (map snd (decodeOrQuarantine dec_task items));
         ops = concat (map (\<lambda>t. OpDelete (taskKey (tk_ID t)) #
                 (case tk_CreatedBy t of None \<Rightarrow> [] | Some u \<Rightarrow> [OpDelete (taskCreatedByKey u (tk_ID t))])) expired)
     in bind_ok (commitInChunks ops) (\<lambda>_. Ret (Inr (int (length expired)))))"

definition DeleteFailedJobs :: "gotime \<Rightarrow> int store_op" where
  "DeleteFailedJobs olderThan = bind_ok (RangeKV jobsPrefix) (\<lambda>items.
     let stale = filter (\<lambda>j. job_State j = JobStateFailed \<and>
                   (case job_FailedAt j of None \<Rightarrow> False | Some at \<Rightarrow> at < olderThan))
                   (map snd (decodeOrQuarantine dec_job items))
     in bind_ok (commitInChunks (map (\<lambda>j. OpDelete (jobKey (job_ID j))) stale)) (\<lambda>_.
        Ret (Inr (int (length stale)))))"

definition seconds :: "int \<Rightarrow> duration" where
  "seconds n = n * 1000000000"

definition JobLeaseRenewInterval :: duration where
  "JobLeaseRenewInterval = seconds 30"

definition JobLease :: duration where
  "JobLease = seconds 90"

definition FailedJobRetention :: duration where
  "FailedJobRetention = seconds (7 * 24 * 3600)"

definition leaseStale :: "gotime \<Rightarrow> Job \<Rightarrow> bool" where
  "leaseStale olderThan j \<longleftrightarrow> (case job_ClaimedAt j of None \<Rightarrow> True | Some at \<Rightarrow> at < olderThan)"

definition reclaimedJob :: "Job \<Rightarrow> Job" where
  "reclaimedJob job = job\<lparr>job_State := JobStatePending, job_ClaimedAt := None, job_ClaimToken := None\<rparr>"

text \<open>The loop over the scanned rows; an error ends it, with the count so far.\<close>

primrec reclaim_loop :: "gotime \<Rightarrow> Job list \<Rightarrow> int \<Rightarrow> (doc, agent_call, int \<times> store_err option) prog" where
  "reclaim_loop olderThan [] reclaimed = Ret (reclaimed, None)"
| "reclaim_loop olderThan (j # js) reclaimed =
     (if job_State j \<noteq> JobStateRunning \<or> \<not> leaseStale olderThan j then reclaim_loop olderThan js reclaimed
      else bind (jobWithRev (job_ID j)) (\<lambda>r.
        case r of
          Inl e \<Rightarrow> Ret (reclaimed, Some e)
        | Inr None \<Rightarrow> reclaim_loop olderThan js reclaimed
        | Inr (Some (job, modRev)) \<Rightarrow>
            if job_State job \<noteq> JobStateRunning \<or> \<not> leaseStale olderThan job then reclaim_loop olderThan js reclaimed
            else bind (casJob (job_ID j) modRev (reclaimedJob job)) (\<lambda>r.
              case r of
                Inl e \<Rightarrow> Ret (reclaimed, Some e)
              | Inr ok \<Rightarrow> reclaim_loop olderThan js (if ok then reclaimed + 1 else reclaimed))))"

definition ReclaimStaleRunningJobs :: "gotime \<Rightarrow> (doc, agent_call, int \<times> store_err option) prog" where
  "ReclaimStaleRunningJobs olderThan = bind (RangeKV jobsPrefix) (\<lambda>r.
     case r of
       Inl e \<Rightarrow> Ret (0, Some e)
     | Inr items \<Rightarrow> reclaim_loop olderThan (map snd (decodeOrQuarantine dec_job items)) 0)"

definition ReclaimStaleJobsFunc :: "duration \<Rightarrow> unit store_op" where
  "ReclaimStaleJobsFunc lease = Now (\<lambda>now. bind (ReclaimStaleRunningJobs (now - lease)) (\<lambda>(_, err).
     Ret (case err of None \<Rightarrow> Inr () | Some e \<Rightarrow> Inl e)))"

definition JobsCleanupFunc :: "unit store_op" where
  "JobsCleanupFunc = Now (\<lambda>now. bind_ok (DeleteFailedJobs (now - FailedJobRetention)) (\<lambda>_. Ret (Inr ())))"

subsection \<open>The worker runtime\<close>

text \<open>
  A registration keeps the retry budget of a job kind; the handler itself is a parameter. Its
  outcome is a return or a panic.
\<close>

record Dispatcher =
  ds_interval :: duration
  ds_renewInterval :: duration
  ds_handlers :: "string \<Rightarrow> int option"
  ds_maxConcurrent :: nat

definition NewDispatcher :: "duration \<Rightarrow> int \<Rightarrow> Dispatcher" where
  "NewDispatcher interval maxConcurrent =
     \<lparr>ds_interval = (if interval \<le> 0 then 500 * 1000000 else interval),
      ds_renewInterval = JobLeaseRenewInterval,
      ds_handlers = (\<lambda>_. None),
      ds_maxConcurrent = (if maxConcurrent \<le> 0 then 16 else nat maxConcurrent)\<rparr>"

definition Register :: "string \<Rightarrow> int \<Rightarrow> Dispatcher \<Rightarrow> Dispatcher" where
  "Register kind maxAttempts d =
     d\<lparr>ds_handlers := (ds_handlers d)(kind \<mapsto> (if maxAttempts < 1 then 1 else maxAttempts))\<rparr>"

record claimed =
  cl_job :: Job
  cl_token :: uuid
  cl_maxAttempts :: int

text \<open>
  One drain. For each job of a served kind a non-blocking send reserves a slot of the pool; its
  outcome (a slot, a full pool, or a cancelled context) is an input.
\<close>

datatype slot = SlotFree | PoolFull | CtxDone

primrec drain_loop ::
    "Dispatcher \<Rightarrow> (nat \<Rightarrow> slot) \<Rightarrow> nat \<Rightarrow> Job list \<Rightarrow> claimed list \<Rightarrow> (doc, agent_call, claimed list) prog" where
  "drain_loop d sem n [] acc = Ret acc"
| "drain_loop d sem n (j # js) acc =
     (case ds_handlers d (job_Kind j) of
        None \<Rightarrow> drain_loop d sem n js acc
      | Some budget \<Rightarrow>
          (case sem n of
             CtxDone \<Rightarrow> Ret acc
           | PoolFull \<Rightarrow> drain_loop d sem (Suc n) js acc
           | SlotFree \<Rightarrow> bind (ClaimJob (job_ID j)) (\<lambda>r.
               case r of
                 Inr (Some token) \<Rightarrow>
                   drain_loop d sem (Suc n) js (acc @ [\<lparr>cl_job = j, cl_token = token, cl_maxAttempts = budget\<rparr>])
               | _ \<Rightarrow> drain_loop d sem (Suc n) js acc)))"

definition drain :: "Dispatcher \<Rightarrow> (nat \<Rightarrow> slot) \<Rightarrow> (doc, agent_call, claimed list) prog" where
  "drain d sem = bind PendingJobs (\<lambda>r. case r of Inl e \<Rightarrow> Ret [] | Inr jobs \<Rightarrow> drain_loop d sem 0 jobs [])"

datatype outcome = Returned "string option" | Panicked string

fun guardPanic :: "outcome \<Rightarrow> string option" where
  "guardPanic (Returned e) = e"
| "guardPanic (Panicked m) = Some (''panic recovered: '' @ m)"

text \<open>
  The bookkeeping of \<^verbatim>\<open>execute\<close> once the handler is back, with whether its context was cancelled
  (shutdown, lost leadership or lost lease). Errors of the bookkeeping are only logged.
\<close>

definition execute :: "claimed \<Rightarrow> outcome \<Rightarrow> bool \<Rightarrow> (doc, agent_call, unit) prog" where
  "execute c result cancelled =
     (case guardPanic result of
        Some _ \<Rightarrow>
          if cancelled then bind (RequeueJob (job_ID (cl_job c)) (Some (cl_token c))) (\<lambda>_. Ret ())
          else bind (RetryJob (job_ID (cl_job c)) (Some (cl_token c)) (cl_maxAttempts c)) (\<lambda>_. Ret ())
      | None \<Rightarrow> bind (CompleteJob (job_ID (cl_job c))) (\<lambda>_. Ret ()))"

text \<open>One tick of the renewer; \<open>True\<close> cancels the handler and stops the renewer.\<close>

definition renew_tick :: "claimed \<Rightarrow> (doc, agent_call, bool) prog" where
  "renew_tick c = bind (RenewJobLease (job_ID (cl_job c)) (Some (cl_token c))) (\<lambda>r. Ret
     (case r of Inl e \<Rightarrow> False | Inr ok \<Rightarrow> \<not> ok))"

end
