(* ===== verification/Contracts.thy ===== *)
theory Contracts
  imports JobQueue
begin

text \<open>
  How programs are proved correct among other clients of the store. A locale states what the other
  clients may do (\<open>interference\<close>), which fact about the store they keep (\<open>stable\<close>) and what a
  program may write (\<open>writes\<close>); the rules for the client's calls and for the composition of
  programs are proved once, inside.
\<close>

subsection \<open>Reads and compare-and-swap under interference\<close>

definition rows_under :: "key \<Rightarrow> 'v kv \<Rightarrow> (key \<times> 'v) list" where
  "rows_under p s = map (\<lambda>(k, r). (k, row_value r)) (filter (\<lambda>(k, _). strict_prefix p k) (kv_rows s))"

lemma set_rows_under: "kv_wf s \<Longrightarrow> (k, v) \<in> set (rows_under p s) \<longleftrightarrow> strict_prefix p k \<and> row_doc s k = Some v"
proof -
  assume "kv_wf s"
  then have "(k, r) \<in> set (kv_rows s) \<longleftrightarrow> kv_get s k = Some r" for r
    using sorted_map_of [of "kv_rows s" k] by (simp add: kv_wf_def kv_get_def)
  moreover have "(k, v) \<in> set (rows_under p s) \<longleftrightarrow> (\<exists>r. (k, r) \<in> set (kv_rows s) \<and> strict_prefix p k \<and> v = row_value r)"
    by (auto simp: rows_under_def)
  ultimately show ?thesis by (auto simp: row_doc_def)
qed

lemma set_decodeOrQuarantine:
  "(k, x) \<in> set (decodeOrQuarantine dec items) \<longleftrightarrow> (\<exists>v. (k, v) \<in> set items \<and> dec v = Some x)"
  by (force simp: decodeOrQuarantine_def map_filter_def)

text \<open>An interference is a set of requests of other clients.\<close>

locale interference =
  fixes R :: "doc kv \<Rightarrow> doc kv \<Rightarrow> bool"
  assumes requests: "R s s' \<Longrightarrow> kv_step s s'"
begin

lemma R_later: "R\<^sup>*\<^sup>* s s' \<Longrightarrow> later s s'"
  using requests by (metis mono_rtranclp)

lemma R_wf: "R\<^sup>*\<^sup>* s s' \<Longrightarrow> kv_wf s \<Longrightarrow> kv_wf s'"
  using R_later later_wf by blast

lemma jobWithRev_rule:
  assumes "kv_wf s"
    and "\<And>s1. R\<^sup>*\<^sup>* s s1 \<Longrightarrow> kv_wf s1 \<Longrightarrow> G s1 s1 \<and> (\<forall>e. Q (Inl e) s1) \<and> Q (Inr None) s1"
    and "\<And>s1 r j. R\<^sup>*\<^sup>* s s1 \<Longrightarrow> kv_wf s1 \<Longrightarrow> kv_get s1 (jobKey i) = Some r \<Longrightarrow> row_value r = DJob j \<Longrightarrow>
      Q (Inr (Some (j, row_mod r))) s1"
  shows "wlp R G (jobWithRev i) Q s"
proof -
  have "Q (case row_of s1 (jobKey i) of None \<Rightarrow> Inr None
        | Some (v, modRev) \<Rightarrow> (case dec_job v of None \<Rightarrow> Inl ErrCorrupt | Some j \<Rightarrow> Inr (Some (j, modRev)))) s1"
    if "R\<^sup>*\<^sup>* s s1" for s1
  proof (cases "kv_get s1 (jobKey i)")
    case None
    then show ?thesis using assms(2) [OF that R_wf [OF that assms(1)]] by (simp add: row_of_def)
  next
    case (Some r)
    then show ?thesis
      using assms(2) [OF that R_wf [OF that assms(1)]] assms(3) [OF that R_wf [OF that assms(1)] Some]
      by (cases "row_value r") (simp_all add: row_of_def)
  qed
  then show ?thesis
    using assms(2) R_wf [OF _ assms(1)] by (simp add: jobWithRev_def wlp_bind_ok wlp_GetRev [OF R_wf [OF _ assms(1)]])
qed

lemma RangeKV_rule:
  assumes "kv_wf s"
    and "\<And>s1. R\<^sup>*\<^sup>* s s1 \<Longrightarrow> kv_wf s1 \<Longrightarrow> G s1 s1 \<and> (\<forall>e. Q (Inl e) s1) \<and> Q (Inr (rows_under p s1)) s1"
  shows "wlp R G (RangeKV p) Q s"
proof -
  have "map (\<lambda>(k, v, _). (k, v)) (result_rows rs) = map (\<lambda>(k, r). (k, row_value r)) rs" for rs :: "(key \<times> doc row) list"
    by (induction rs) (auto simp: result_rows_def)
  then show ?thesis
    using assms(2) R_wf [OF _ assms(1)] by (simp add: RangeKV_def wlp_bind_ok wlp_Rows_Range rows_under_def)
qed

text \<open>The compare-and-swap either finds the row that was read, or changes nothing.\<close>

lemma casJob_rule:
  assumes "kv_wf s" "kv_get s (jobKey i) = Some r"
    and "\<And>s1. R\<^sup>*\<^sup>* s s1 \<Longrightarrow> kv_wf s1 \<Longrightarrow> G s1 s1 \<and> Q (Inr False) s1 \<and> (\<forall>e. Q (Inl e) s1)"
    and "\<And>s1 s2. R\<^sup>*\<^sup>* s s1 \<Longrightarrow> kv_wf s1 \<Longrightarrow> kv_wf s2 \<Longrightarrow> kv_step s1 s2 \<Longrightarrow> kv_get s1 (jobKey i) = Some r \<Longrightarrow>
      row_doc s2 = (row_doc s1)(jobKey i \<mapsto> DJob job) \<Longrightarrow>
      G s1 s2 \<and> Q (Inr True) s2 \<and> (\<forall>e. Q (Inl e) s2)"
  shows "wlp R G (casJob i (row_mod r) job) Q s"
proof -
  let ?cs = "[ModRevision (jobKey i) (row_mod r)]" and ?ts = "[OpPut (jobKey i) (DJob job)]"
  have "G s1 s1 \<and> G s1 (txn_after ?cs ?ts [] s1) \<and>
      Q (Inr (list_all (cmp_holds s1) ?cs)) (txn_after ?cs ?ts [] s1) \<and>
      (\<forall>e. Q (Inl e) s1 \<and> Q (Inl e) (txn_after ?cs ?ts [] s1))" if R: "R\<^sup>*\<^sup>* s s1" for s1
  proof (cases "cmp_holds s1 (ModRevision (jobKey i) (row_mod r))")
    case True
    have wf: "kv_wf s1" by (rule R_wf [OF R assms(1)])
    have row: "kv_get s1 (jobKey i) = Some r"
      by (rule mod_revision_unchanged [OF assms(1) R_later [OF R] assms(2) True])
    have "row_doc (txn_after ?cs ?ts [] s1) = (row_doc s1)(jobKey i \<mapsto> DJob job)"
      using True row by (auto simp: row_doc_def txn_after_get [OF wf])
    from assms(4) [OF R wf txn_after_wf [OF wf] txn_after_step row this] assms(3) [OF R wf] True
    show ?thesis by simp
  next
    case False
    then show ?thesis using assms(3) [OF R R_wf [OF R assms(1)]] by (simp del: cmp_holds.simps)
  qed
  then show ?thesis
    unfolding casJob_def wlp_bind_ok wlp_Marshal wlp_Commit
    using assms(3) [OF rtranclp.rtrancl_refl assms(1)]
    by (simp del: cmp_holds.simps)
qed

end

lemma kv_step_refl [simp]: "kv_step s s"
  unfolding kv_step_def by (rule exI [of _ "ReqGet []"]) simp

subsection \<open>Rows a transaction leaves alone\<close>

fun op_key :: "'v txop \<Rightarrow> key" where
  "op_key (OpPut k v) = k"
| "op_key (OpDelete k) = k"
| "op_key (OpGet k) = k"

lemma fold_op_map_other: "k \<notin> op_key ` set ps \<Longrightarrow> fold (op_map rv) ps m k = m k"
proof (induction ps arbitrary: m)
  case (Cons p ps)
  then show ?case by (cases p) auto
qed simp

lemma txn_row_doc_other:
  "kv_wf s \<Longrightarrow> k \<notin> op_key ` set ts \<Longrightarrow> k \<notin> op_key ` set es \<Longrightarrow> row_doc (txn_after cs ts es s) k = row_doc s k"
  by (auto simp: row_doc_def txn_after_get fold_op_map_other)

subsection \<open>Invariants under interference\<close>

text \<open>A fact about the store that every request of the other clients keeps.\<close>

locale stable = interference R for R :: "doc kv \<Rightarrow> doc kv \<Rightarrow> bool" +
  fixes I :: "doc kv \<Rightarrow> bool"
  assumes I_wf: "I s \<Longrightarrow> kv_wf s"
    and I_keeps: "I s \<Longrightarrow> R s s' \<Longrightarrow> I s'"
begin

lemma I_run: "R\<^sup>*\<^sup>* s s' \<Longrightarrow> I s \<Longrightarrow> I s'"
  by (induction rule: rtranclp_induct) (auto dest: I_keeps)

text \<open>The loop that allocates a number writes the counter only, whoever else runs.\<close>

lemma nextSeq_rule:
  assumes "I s"
    and G: "\<And>a b. I a \<Longrightarrow> kv_wf b \<Longrightarrow> (\<And>k'. k' \<noteq> k \<Longrightarrow> row_doc b k' = row_doc a k') \<Longrightarrow> G a b \<and> I b"
    and Q: "\<And>x a. I a \<Longrightarrow> Q x a"
  shows "wlp R G (nextSeq k) Q s"
proof -
  have "wlp R G (nextSeq_loop n k) Q s" if "I s" for n s
    using that
  proof (induction n arbitrary: s)
    case (Suc n)
    have refl: "I a \<Longrightarrow> G a a" for a using G [of a a] I_wf by simp
    have att: "wlp R G (bind_ok (Commit [c] [OpPut k d] []) (\<lambda>(ok, _). if ok then Ret (Inr m) else nextSeq_loop n k)) Q t"
      if t: "I t" for t c d m
      unfolding wlp_bind_ok wlp_Commit
    proof (intro allI impI, goal_cases)
      case (1 s1)
      then have i: "I s1" by (rule I_run [OF _ t])
      let ?s2 = "txn_after [c] [OpPut k d] [] s1"
      have "G s1 ?s2 \<and> I ?s2"
        by (rule G [OF i txn_after_wf [OF I_wf [OF i]]]) (simp add: txn_row_doc_other I_wf [OF i])
      with i refl [OF i] Suc.IH Q show ?case by simp
    qed
    show ?case
      using Suc.prems att refl Q I_run [OF _ Suc.prems]
      by (simp add: wlp_bind_ok wlp_Get [OF R_wf [OF _ I_wf [OF Suc.prems]]] Let_def split: option.split doc.split)
  qed (use Q in auto)
  with assms(1) show ?thesis by (simp add: nextSeq_def)
qed

end

subsection \<open>Composing programs\<close>

definition obeys :: "(doc kv \<Rightarrow> doc kv \<Rightarrow> bool) \<Rightarrow> (doc kv \<Rightarrow> bool) \<Rightarrow> (doc kv \<Rightarrow> doc kv \<Rightarrow> bool) \<Rightarrow>
    (doc, agent_call, 'a) prog \<Rightarrow> bool" where
  "obeys R I G p \<longleftrightarrow> (\<forall>s. I s \<longrightarrow> wlp R G p (\<lambda>_. I) s)"

named_theorems obeys_intros \<comment> \<open>composing programs that write within a contract\<close>

lemma obeys_Ret [obeys_intros, simp]: "obeys R I G (Ret x)"
  by (simp add: obeys_def)

lemma obeys_Now [obeys_intros]: "(\<And>t. obeys R I G (k t)) \<Longrightarrow> obeys R I G (Now k)"
  by (simp add: obeys_def)

lemma obeys_Fresh [obeys_intros]: "(\<And>t. obeys R I G (k t)) \<Longrightarrow> obeys R I G (Fresh k)"
  by (simp add: obeys_def)

lemma obeys_Agent [obeys_intros]: "(\<And>t. obeys R I G (k t)) \<Longrightarrow> obeys R I G (Agent y k)"
  by (simp add: obeys_def)

lemma obeys_if [obeys_intros]:
  "(b \<Longrightarrow> obeys R I G p) \<Longrightarrow> (\<not> b \<Longrightarrow> obeys R I G q) \<Longrightarrow> obeys R I G (if b then p else q)"
  by simp

lemma obeys_option [obeys_intros]:
  "(x = None \<Longrightarrow> obeys R I G p) \<Longrightarrow> (\<And>y. x = Some y \<Longrightarrow> obeys R I G (f y)) \<Longrightarrow>
     obeys R I G (case x of None \<Rightarrow> p | Some y \<Rightarrow> f y)"
  by (simp split: option.split)

lemma obeys_sum [obeys_intros]:
  "(\<And>e. x = Inl e \<Longrightarrow> obeys R I G (g e)) \<Longrightarrow> (\<And>y. x = Inr y \<Longrightarrow> obeys R I G (f y)) \<Longrightarrow>
     obeys R I G (case x of Inl e \<Rightarrow> g e | Inr y \<Rightarrow> f y)"
  by (simp split: sum.split)

lemma obeys_prod [obeys_intros]: "(\<And>a b. obeys R I G (f a b)) \<Longrightarrow> obeys R I G (case x of (a, b) \<Rightarrow> f a b)"
  by (simp split: prod.split)

lemma obeys_bind [obeys_intros]:
  "obeys R I G p \<Longrightarrow> (\<And>x. obeys R I G (f x)) \<Longrightarrow> obeys R I G (bind p f)"
  unfolding obeys_def wlp_bind by (intro allI impI, erule allE, erule (1) impE, erule wlp_mono) simp_all

lemma obeys_bind_ok [obeys_intros]:
  "obeys R I G p \<Longrightarrow> (\<And>x. obeys R I G (f x)) \<Longrightarrow> obeys R I G (bind_ok p f)"
  unfolding bind_ok_def by (intro obeys_intros)

lemma obeys_Marshal [obeys_intros]: "obeys R I G (Marshal v)"
  by (simp add: obeys_def wlp_Marshal)

locale writes = stable R I for R I +
  fixes G :: "doc kv \<Rightarrow> doc kv \<Rightarrow> bool"
  assumes G_refl: "I s \<Longrightarrow> G s s"
begin

lemma obeys_Rows [obeys_intros]: "obeys R I G (Rows (ReqGet k))" "obeys R I G (Rows (ReqRange k))"
  using I_run G_refl by (auto simp: obeys_def Rows_def)

lemma obeys_reads [obeys_intros]:
  "obeys R I G (GetRev k)" "obeys R I G (Get k)" "obeys R I G (RangeKV k)" "obeys R I G (GetJSON dec k)"
  "obeys R I G (jobWithRev i)" "obeys R I G (TaskByID t)"
  unfolding GetRev_def Get_def RangeKV_def GetJSON_def jobWithRev_def TaskByID_def by (intro obeys_intros)+

lemma obeys_Commit:
  assumes "\<And>s. I s \<Longrightarrow> G s (txn_after cs ts es s) \<and> I (txn_after cs ts es s)"
  shows "obeys R I G (Commit cs ts es)"
  unfolding obeys_def wlp_Commit using assms I_run G_refl by blast

lemma obeys_run: "obeys R I G p \<Longrightarrow> I s \<Longrightarrow> wlp R G p (\<lambda>_. I) s"
  by (simp add: obeys_def)

lemma obeys_event:
  assumes "obeys R I G p" "I s" "exec R p s tr x s'" "EvEtcd q a b \<in> set tr"
  shows "G a b"
proof -
  have "list_all (guaranteed G) tr" using wlp_sound [OF assms(3) obeys_run [OF assms(1,2)]] by blast
  with assms(4) show ?thesis by (auto simp: list_all_iff)
qed

end

end
