(* ===== verification/JobQueueProps.thy ===== *)
theory JobQueueProps
  imports Contracts
begin

text \<open>
  The job queue under interference. Every operation of the consumers, run by any number of
  replicas and interleaved at every etcd call, changes job rows only by the transitions of one
  abstract lifecycle; the lifecycle then gives the claim fence and the retry budget.
\<close>

subsection \<open>The lifecycle of a job\<close>

text \<open>
  Who moves a job row: a claimer minting a token, the owner of a token (also when it records a
  failed run against a retry budget), and the rest.
\<close>

datatype actor =
    Producer | Claimer uuid | Owner uuid | Retrier uuid int | Completer | Canceller | Reaper gotime | Sweeper gotime

text \<open>
  The transitions of row \<open>i\<close>. A producer creates the row under a number of its own, which was
  never used before.
\<close>

inductive job_trans :: "int \<Rightarrow> actor \<Rightarrow> doc option \<Rightarrow> doc option \<Rightarrow> bool" for i where
  trans_create: "job_ID j = i \<Longrightarrow> job_State j = JobStatePending \<Longrightarrow> job_Attempts j = 0 \<Longrightarrow>
    job_ClaimToken j = None \<Longrightarrow> job_trans i Producer None (Some (DJob j))"
| trans_claim: "job_State j = JobStatePending \<Longrightarrow>
    job_trans i (Claimer t) (Some (DJob j))
      (Some (DJob (j\<lparr>job_State := JobStateRunning, job_ClaimedAt := Some now, job_ClaimToken := Some t\<rparr>)))"
| trans_renew: "ownsClaim j (Some t) \<Longrightarrow>
    job_trans i (Owner t) (Some (DJob j)) (Some (DJob (j\<lparr>job_ClaimedAt := Some now\<rparr>)))"
| trans_retry: "ownsClaim j (Some t) \<Longrightarrow>
    job_trans i (Retrier t budget) (Some (DJob j)) (Some (DJob (snd (retriedJob now budget j))))"
| trans_requeue: "ownsClaim j (Some t) \<Longrightarrow>
    job_trans i (Owner t) (Some (DJob j)) (Some (DJob (reclaimedJob j)))"
| trans_reclaim: "job_State j = JobStateRunning \<Longrightarrow> leaseStale olderThan j \<Longrightarrow>
    job_trans i (Reaper olderThan) (Some (DJob j)) (Some (DJob (reclaimedJob j)))"
| trans_complete: "job_trans i Completer r None"
| trans_cancel: "job_State j = JobStatePending \<Longrightarrow> job_trans i Canceller (Some (DJob j)) None"
| trans_sweep: "job_State j = JobStateFailed \<Longrightarrow> job_FailedAt j = Some at \<Longrightarrow> at < olderThan \<Longrightarrow>
    job_trans i (Sweeper olderThan) (Some (DJob j)) None"

definition moves :: "actor set \<Rightarrow> doc kv \<Rightarrow> doc kv \<Rightarrow> bool" where
  "moves A s s' \<longleftrightarrow> kv_step s s' \<and>
     (\<forall>i. row_doc s' (jobKey i) = row_doc s (jobKey i) \<or>
        (\<exists>a\<in>A. job_trans i a (row_doc s (jobKey i)) (row_doc s' (jobKey i))))"

lemma moves_refl [simp]: "moves A s s"
  by (simp add: moves_def)

lemma jobKey_inject [simp]: "jobKey i = jobKey j \<longleftrightarrow> i = j"
  by (simp add: jobKey_def)

lemma taskKey_jobKey [simp]: "taskKey t \<noteq> jobKey i" "jobKey i \<noteq> taskKey t"
  by (simp_all add: jobKey_def taskKey_def)

lemma moves_job:
  "kv_step s1 s2 \<Longrightarrow> row_doc s2 = (row_doc s1)(jobKey i := d) \<Longrightarrow> a \<in> A \<Longrightarrow>
     job_trans i a (row_doc s1 (jobKey i)) d \<Longrightarrow> moves A s1 s2"
  by (auto simp: moves_def)

lemma row_doc_Some: "kv_get s k = Some r \<Longrightarrow> row_doc s k = Some (row_value r)"
  by (simp add: row_doc_def)

text \<open>
  \<open>keeps A p s\<close>: run from \<open>s\<close> among other queue operations, \<open>p\<close> moves job rows only as the
  actors \<open>A\<close>; \<open>queue_ok\<close> says so of every start.
\<close>

abbreviation keeps :: "actor set \<Rightarrow> (doc, agent_call, 'a) prog \<Rightarrow> doc kv \<Rightarrow> bool" where
  "keeps A p \<equiv> wlp (moves UNIV) (moves A) p (\<lambda>_. kv_wf)"

abbreviation queue_ok :: "actor set \<Rightarrow> (doc, agent_call, 'a) prog \<Rightarrow> bool" where
  "queue_ok A \<equiv> obeys (moves UNIV) kv_wf (moves A)"

interpretation queue: writes "moves UNIV" kv_wf "moves A" for A
  by unfold_locales (auto simp: moves_def kv_step_rows)

lemma queue_ok_Commit_moves:
  "(\<And>s. kv_wf s \<Longrightarrow> moves A s (txn_after cs ts es s)) \<Longrightarrow> queue_ok A (Commit cs ts es)"
  by (rule queue.obeys_Commit) (simp add: txn_after_wf)

lemma queue_ok_Commit:
  assumes "\<And>i. jobKey i \<notin> op_key ` set ts" "\<And>i. jobKey i \<notin> op_key ` set es"
  shows "queue_ok A (Commit cs ts es)"
  by (rule queue_ok_Commit_moves) (simp add: moves_def txn_after_step txn_row_doc_other assms)

lemma queue_ok_Put_task [obeys_intros]: "queue_ok A (Put (taskKey t) d)"
  unfolding Put_def by (intro obeys_intros queue_ok_Commit) auto

text \<open>A read of a job row followed by a compare-and-swap of it.\<close>

lemma queue_ok_jobWithRev:
  assumes "\<And>e. queue_ok A (f (Inl e))" "queue_ok A (f (Inr None))"
    and "\<And>s r j. kv_wf s \<Longrightarrow> kv_get s (jobKey i) = Some r \<Longrightarrow> row_value r = DJob j \<Longrightarrow>
      keeps A (f (Inr (Some (j, row_mod r)))) s"
  shows "queue_ok A (bind (jobWithRev i) f)"
  unfolding obeys_def wlp_bind
proof (intro allI impI queue.jobWithRev_rule)
  fix s s1 r j
  assume "kv_wf s1" "kv_get s1 (jobKey i) = Some r" "row_value r = DJob j"
  then show "keeps A (f (Inr (Some (j, row_mod r)))) s1" by (rule assms(3))
qed (use assms(1,2) in \<open>auto simp: obeys_def\<close>)

lemma keeps_casJob:
  assumes "kv_wf s" "kv_get s (jobKey i) = Some r" "row_value r = DJob j" "a \<in> A"
    and "job_trans i a (Some (DJob j)) (Some (DJob job))" "\<And>x. queue_ok A (g x)"
  shows "keeps A (bind (casJob i (row_mod r) job) g) s"
  unfolding wlp_bind
proof (rule queue.casJob_rule [OF assms(1,2)], goal_cases)
  case (1 s1)
  then show ?case using assms(6) by (auto simp: obeys_def)
next
  case (2 s1 s2)
  then have "moves A s1 s2"
    using assms(3-5) by (intro moves_job [of s1 s2 i _ a]) (simp_all add: row_doc_Some)
  with 2 show ?case using assms(6) by (auto simp: obeys_def)
qed

lemma queue_ok_ClaimJob [obeys_intros]: "range Claimer \<subseteq> A \<Longrightarrow> queue_ok A (ClaimJob i)"
  unfolding ClaimJob_def bind_ok_def
  by (rule queue_ok_jobWithRev) (auto intro!: keeps_casJob job_trans.trans_claim simp: sum.case_eq_if)

lemma queue_ok_RenewJobLease [obeys_intros]: "Owner t \<in> A \<Longrightarrow> queue_ok A (RenewJobLease i (Some t))"
  unfolding RenewJobLease_def bind_ok_def
  by (rule queue_ok_jobWithRev)
    (auto intro!: keeps_casJob [where g = Ret, simplified] job_trans.trans_renew)

lemma queue_ok_RetryJob [obeys_intros]: "Retrier t budget \<in> A \<Longrightarrow> queue_ok A (RetryJob i (Some t) budget)"
proof -
  assume A: "Retrier t budget \<in> A"
  have "queue_ok A (RetryJob_loop n i (Some t) budget)" for n
  proof (induction n)
    case (Suc n)
    with A show ?case
      unfolding RetryJob_loop.simps bind_ok_def
      by (intro queue_ok_jobWithRev)
        (auto intro!: keeps_casJob job_trans.trans_retry split: sum.split)
  qed simp
  then show ?thesis by (simp add: RetryJob_def)
qed

lemma queue_ok_RequeueJob [obeys_intros]: "Owner t \<in> A \<Longrightarrow> queue_ok A (RequeueJob i (Some t))"
proof -
  assume A: "Owner t \<in> A"
  have "queue_ok A (RequeueJob_loop n i (Some t))" for n
  proof (induction n)
    case (Suc n)
    with A show ?case
      unfolding RequeueJob_loop.simps bind_ok_def reclaimedJob_def [symmetric]
      by (intro queue_ok_jobWithRev)
        (auto intro!: keeps_casJob job_trans.trans_requeue split: sum.split)
  qed simp
  then show ?thesis by (simp add: RequeueJob_def)
qed

lemma queue_ok_keeps: "queue_ok A p \<Longrightarrow> kv_wf s \<Longrightarrow> keeps A p s"
  by (simp add: obeys_def)

lemma queue_ok_reaper [obeys_intros]:
  "Reaper olderThan \<in> A \<Longrightarrow> queue_ok A (ReclaimStaleRunningJobs olderThan)"
proof -
  assume A: "Reaper olderThan \<in> A"
  have "queue_ok A (reclaim_loop olderThan js c)" for js c
  proof (induction js arbitrary: c)
    case (Cons j js)
    note ih = Cons.IH queue_ok_keeps [OF Cons.IH]
    have "queue_ok A (bind (jobWithRev (job_ID j)) (\<lambda>r.
        case r of
          Inl e \<Rightarrow> Ret (c, Some e)
        | Inr None \<Rightarrow> reclaim_loop olderThan js c
        | Inr (Some (job, modRev)) \<Rightarrow>
            if job_State job \<noteq> JobStateRunning \<or> \<not> leaseStale olderThan job then reclaim_loop olderThan js c
            else bind (casJob (job_ID j) modRev (reclaimedJob job)) (\<lambda>r.
              case r of
                Inl e \<Rightarrow> Ret (c, Some e)
              | Inr ok \<Rightarrow> reclaim_loop olderThan js (if ok then c + 1 else c))))"
    proof (rule queue_ok_jobWithRev, goal_cases)
      case (3 s r job)
      then show ?case using ih A by (auto intro!: keeps_casJob job_trans.trans_reclaim split: sum.split)
    qed (simp_all add: ih)
    with ih(1) show ?case by simp
  qed simp
  then show ?thesis unfolding ReclaimStaleRunningJobs_def by (intro obeys_intros) (simp split: sum.split)
qed

lemma queue_ok_CompleteJob [obeys_intros]: "Completer \<in> A \<Longrightarrow> queue_ok A (CompleteJob i)"
proof -
  assume A: "Completer \<in> A"
  have "moves A s (txn_after [] [OpDelete (jobKey i)] [] s)" if "kv_wf s" for s
    using that A by (intro moves_job [of _ _ i None, OF txn_after_step _ A])
      (auto simp: row_doc_def txn_after_get intro: job_trans.trans_complete)
  then have "queue_ok A (Commit [] [OpDelete (jobKey i)] [])" by (rule queue_ok_Commit_moves)
  then show ?thesis unfolding CompleteJob_def Delete_def by (auto intro!: obeys_intros)
qed

lemma queue_ok_CancelPendingTask [obeys_intros]:
  "Canceller \<in> A \<Longrightarrow> queue_ok A (CancelPendingTask t ref)"
proof -
  assume A: "Canceller \<in> A"
  have cas: "keeps A (bind (Commit [ModRevision (jobKey i) (row_mod r)]
      [OpPut (taskKey t) d, OpDelete (jobKey i)] []) g) s"
    if wf: "kv_wf s" and row: "kv_get s (jobKey i) = Some r" "row_value r = DJob j" "job_State j = JobStatePending"
      and g: "\<And>x. queue_ok A (g x)" for s i r j d and g :: "_ \<Rightarrow> Task store_op"
    unfolding wlp_bind wlp_Commit
  proof (intro allI impI)
    fix s1
    assume R: "(moves UNIV)\<^sup>*\<^sup>* s s1"
    let ?s2 = "txn_after [ModRevision (jobKey i) (row_mod r)] [OpPut (taskKey t) d, OpDelete (jobKey i)] [] s1"
    have w: "kv_wf s1" by (rule queue.R_wf [OF R wf])
    have "moves A s1 ?s2"
    proof (cases "cmp_holds s1 (ModRevision (jobKey i) (row_mod r))")
      case True
      have r1: "kv_get s1 (jobKey i) = Some r"
        by (rule mod_revision_unchanged [OF wf queue.R_later [OF R] row(1) True])
      then have "row_doc ?s2 (jobKey x) = (if x = i then None else row_doc s1 (jobKey x))" for x
        using True by (simp add: row_doc_def txn_after_get [OF w])
      moreover have "job_trans i Canceller (row_doc s1 (jobKey i)) None"
        using row r1 by (auto simp: row_doc_def intro: job_trans.trans_cancel)
      ultimately show ?thesis using A by (auto simp: moves_def txn_after_step)
    next
      case False
      then show ?thesis by (simp del: cmp_holds.simps)
    qed
    with w txn_after_wf [OF w] g
    show "moves A s1 s1 \<and> moves A s1 ?s2 \<and>
       keeps A (g (Inr (list_all (cmp_holds s1) [ModRevision (jobKey i) (row_mod r)],
         txn_out [ModRevision (jobKey i) (row_mod r)] [OpPut (taskKey t) d, OpDelete (jobKey i)] [] s1))) ?s2 \<and>
       (\<forall>msg. keeps A (g (Inl (ErrEtcd msg))) s1 \<and> keeps A (g (Inl (ErrEtcd msg))) ?s2)"
      by (simp add: obeys_def del: cmp_holds.simps)
  qed
  have job: "queue_ok A (bind_ok (jobWithRev i) (\<lambda>r. case r of None \<Rightarrow> Ret (Inl ErrTaskNotCancellable)
      | Some (job, rv) \<Rightarrow> if job_State job \<noteq> JobStatePending then Ret (Inl ErrTaskNotCancellable)
        else bind_ok (Commit [ModRevision (jobKey i) rv] [OpPut (taskKey t) d, OpDelete (jobKey i)] []) g))"
    if "\<And>x. queue_ok A (g x)" for i d and g :: "_ \<Rightarrow> Task store_op"
    unfolding bind_ok_def by (rule queue_ok_jobWithRev) (auto intro!: cas that split: sum.split)
  show ?thesis
    unfolding CancelPendingTask_def Let_def
    by (rule obeys_bind_ok [OF queue.obeys_reads(6)] obeys_if obeys_Ret obeys_Now
        obeys_bind_ok [OF obeys_Marshal] obeys_option obeys_bind_ok [OF queue_ok_Put_task] job
        obeys_prod)+
qed

subsection \<open>The operations refine the lifecycle\<close>

text \<open>
  The consumer programs, with the actors they may act as: claimers mint any token, a worker acts
  only as the owner of its own token, and \<^verbatim>\<open>CompleteJob\<close> deletes without a compare.
\<close>

inductive queue_program :: "actor set \<Rightarrow> (doc, agent_call, unit) prog \<Rightarrow> bool" where
  q_claim: "queue_program (range Claimer) (bind (ClaimJob i) (\<lambda>_. Ret ()))"
| q_drain: "queue_program (range Claimer) (bind (drain d sem) (\<lambda>_. Ret ()))"
| q_renew: "queue_program {Owner (cl_token c)} (bind (renew_tick c) (\<lambda>_. Ret ()))"
| q_retry: "queue_program {Retrier t budget} (bind (RetryJob i (Some t) budget) (\<lambda>_. Ret ()))"
| q_requeue: "queue_program {Owner t} (bind (RequeueJob i (Some t)) (\<lambda>_. Ret ()))"
| q_execute: "queue_program {Owner (cl_token c), Retrier (cl_token c) (cl_maxAttempts c), Completer} (execute c result cancelled)"
| q_reaper: "queue_program {Reaper t} (bind (ReclaimStaleRunningJobs t) (\<lambda>_. Ret ()))"
| q_cancel: "queue_program {Canceller} (bind (CancelPendingTask i ref) (\<lambda>_. Ret ()))"
| q_running: "queue_program {} (bind (UpdateTaskRunning i) (\<lambda>_. Ret ()))"
| q_finalized: "queue_program {} (bind (UpdateTaskFinalized i st res err) (\<lambda>_. Ret ()))"

lemma queue_ok_drain: "queue_ok (range Claimer) (drain d sem)"
proof -
  have "queue_ok (range Claimer) (drain_loop d sem n js acc)" for n js acc
  proof (induction js arbitrary: n acc)
    case (Cons j js)
    then show ?case
      by (auto simp: queue_ok_ClaimJob split: option.split slot.split sum.split intro!: obeys_bind)
  qed simp
  then show ?thesis unfolding drain_def PendingJobs_def by (intro obeys_intros)
qed

lemma queue_ok_execute: "queue_ok {Owner (cl_token c), Retrier (cl_token c) (cl_maxAttempts c), Completer} (execute c result cancelled)"
  unfolding execute_def by (intro obeys_intros) simp_all

lemma queue_ok_renew_tick:
  "queue_ok A (renew_tick c)" if "Owner (cl_token c) \<in> A"
  unfolding renew_tick_def using that by (intro obeys_intros)

lemma queue_ok_UpdateTaskRunning: "queue_ok A (UpdateTaskRunning i)"
  unfolding UpdateTaskRunning_def Let_def by (intro obeys_intros)

lemma queue_ok_UpdateTaskFinalized: "queue_ok A (UpdateTaskFinalized i st res err)"
  unfolding UpdateTaskFinalized_def by (intro obeys_intros)

lemma queue_program_ok: "queue_program A p \<Longrightarrow> queue_ok A p"
  by (induction rule: queue_program.induct)
    (intro obeys_intros queue_ok_drain queue_ok_execute queue_ok_renew_tick queue_ok_UpdateTaskRunning
      queue_ok_UpdateTaskFinalized; simp)+

lemma queue_program_event:
  assumes "queue_program A p" "kv_wf s" "exec (moves UNIV) p s tr x s'" "EvEtcd q s1 s2 \<in> set tr"
  shows "row_doc s2 (jobKey i) = row_doc s1 (jobKey i) \<or>
    (\<exists>a\<in>A. job_trans i a (row_doc s1 (jobKey i)) (row_doc s2 (jobKey i)))"
  using queue.obeys_event [OF queue_program_ok [OF assms(1)] assms(2-4)] by (simp add: moves_def)

text \<open>
  C2. Any number of replicas may run the consumer programs of the queue, interleaved at every
  etcd call and with calls that fail before or after taking effect. Every single write of such a
  program changes every job row only by a transition of the lifecycle that its actor is allowed:
  a worker never touches a row whose claim token is not its own, a claim is taken only from a
  pending row, a cancel removes only a pending row, and the reaper takes back only a running row
  whose lease is stale at the moment of the write.
\<close>

theorem queue_refines_lifecycle:
  assumes "queue_program A p" "kv_wf s" "exec (moves UNIV) p s tr x s'" "EvEtcd q s1 s2 \<in> set tr"
  shows "row_doc s2 (jobKey i) = row_doc s1 (jobKey i) \<or>
    (\<exists>a\<in>A. job_trans i a (row_doc s1 (jobKey i)) (row_doc s2 (jobKey i)))"
  by (rule queue_program_event [OF assms])

text \<open>A queue with one pending job.\<close>

definition sampleJob :: Job where
  "sampleJob = \<lparr>job_ID = 1, job_Kind = ''vm.start'', job_Args = OtherArgs ''vm.start'' ''{}'', job_State = JobStatePending,
     job_Attempts = 0, job_FailedAt = None, job_ClaimedAt = None, job_ClaimToken = None\<rparr>"

definition sampleQueue :: "doc kv" where
  "sampleQueue = \<lparr>kv_rows = [(jobKey 1, Row (DJob sampleJob) 1 1)], kv_rev = 1\<rparr>"

definition claimedJob :: "uuid \<Rightarrow> Job" where
  "claimedJob t = sampleJob\<lparr>job_State := JobStateRunning, job_ClaimedAt := Some 8, job_ClaimToken := Some t\<rparr>"

definition sampleClaimed :: "doc kv" where
  "sampleClaimed = \<lparr>kv_rows = [(jobKey 1, Row (DJob (claimedJob 7)) 1 2)], kv_rev = 2\<rparr>"

lemma sampleQueue_wf: "kv_wf sampleQueue" "kv_wf sampleClaimed"
  by (simp_all add: kv_wf_def sampleQueue_def sampleClaimed_def)

lemma sample_claim:
  "solo (bind (ClaimJob 1) (\<lambda>_. Ret ())) 7 sampleQueue =
     ([EvEtcd (ReqGet (jobKey 1)) sampleQueue sampleQueue, EvFresh 7, EvNow 8,
       EvEtcd (ReqTxn [ModRevision (jobKey 1) 1] [OpPut (jobKey 1) (DJob (claimedJob 7))] []) sampleQueue sampleClaimed],
      (), sampleClaimed)"
  by (simp add: sampleQueue_def sampleClaimed_def claimedJob_def ClaimJob_def jobWithRev_def GetRev_def Rows_def casJob_def
      Marshal_def Commit_def bind_ok_def result_rows_def sampleJob_def kv_get_def Let_def MaxValueBytes_def)

theorem queue_refines_lifecycle_witness:
  "\<exists>a\<in>range Claimer. job_trans 1 a (row_doc sampleQueue (jobKey 1)) (row_doc sampleClaimed (jobKey 1))"
proof -
  have "row_doc sampleClaimed (jobKey 1) \<noteq> row_doc sampleQueue (jobKey 1)"
    by (simp add: row_doc_def kv_get_def sampleQueue_def sampleClaimed_def claimedJob_def sampleJob_def)
  with queue_refines_lifecycle [OF q_claim sampleQueue_wf(1) solo_exec [OF sample_claim], of _ sampleQueue sampleClaimed 1]
  show ?thesis by auto
qed

subsection \<open>The claim fence\<close>

definition claim_of :: "doc option \<Rightarrow> uuid option" where
  "claim_of r = (case r of
     Some (DJob j) \<Rightarrow> if job_State j = JobStateRunning then job_ClaimToken j else None
   | _ \<Rightarrow> None)"

text \<open>The lifecycle of one row, with the tokens minted so far; a fresh token is a new one.\<close>

inductive life_step :: "int \<Rightarrow> uuid set \<times> doc option \<Rightarrow> uuid set \<times> doc option \<Rightarrow> bool" for i where
  life_claim: "job_trans i (Claimer t) r r' \<Longrightarrow> t \<notin> U \<Longrightarrow> life_step i (U, r) (insert t U, r')"
| life_other: "job_trans i a r r' \<Longrightarrow> a \<notin> range Claimer \<Longrightarrow> life_step i (U, r) (U, r')"

lemma claim_of_trans:
  assumes "job_trans i a r r'"
  shows "(\<exists>t. a = Claimer t \<and> claim_of r' = Some t) \<or> claim_of r' = None \<or> claim_of r' = claim_of r"
  using assms
  by (cases rule: job_trans.cases)
    (auto simp: claim_of_def ownsClaim_def reclaimedJob_def retriedJob_def Let_def)

lemma lost_claim_step:
  assumes "life_step i c c'" "t \<in> fst c" "claim_of (snd c) \<noteq> Some t"
  shows "t \<in> fst c' \<and> claim_of (snd c') \<noteq> Some t"
  using assms
proof (cases rule: life_step.cases)
  case (life_claim t' r r' U)
  with assms(2,3) claim_of_trans [OF life_claim(3)] show ?thesis by auto
next
  case (life_other a r r' U)
  with assms(2,3) claim_of_trans [OF life_other(3)] show ?thesis by auto
qed

lemma lost_claim_run:
  "(life_step i)\<^sup>*\<^sup>* c c' \<Longrightarrow> t \<in> fst c \<Longrightarrow> claim_of (snd c) \<noteq> Some t \<Longrightarrow>
     t \<in> fst c' \<and> claim_of (snd c') \<noteq> Some t"
  by (induction rule: rtranclp_induct) (auto dest: lost_claim_step)

lemma minted_stay: "(life_step i)\<^sup>*\<^sup>* c c' \<Longrightarrow> fst c \<subseteq> fst c'"
  by (induction rule: rtranclp_induct) (auto elim!: life_step.cases)


text \<open>The job is claimed with token 7, goes stale, is taken back and claimed with token 8.\<close>

definition sampleReclaimed :: "doc kv" where
  "sampleReclaimed = \<lparr>kv_rows = [(jobKey 1, Row (DJob (claimedJob 8)) 1 4)], kv_rev = 4\<rparr>"

definition sampleWorker :: claimed where
  "sampleWorker = \<lparr>cl_job = sampleJob, cl_token = 7, cl_maxAttempts = 1\<rparr>"

lemma sample_fenced:
  "solo (bind (renew_tick sampleWorker) (\<lambda>_. Ret ())) 0 sampleReclaimed =
     ([EvEtcd (ReqGet (jobKey 1)) sampleReclaimed sampleReclaimed], (), sampleReclaimed)"
  by (simp add: renew_tick_def sampleWorker_def sampleJob_def sampleReclaimed_def claimedJob_def RenewJobLease_def
      jobWithRev_def GetRev_def Rows_def bind_ok_def result_rows_def ownsClaim_def Let_def)

lemma sample_lives:
  "job_trans 1 (Claimer 7) (Some (DJob sampleJob)) (Some (DJob (claimedJob 7)))"
  "(life_step 1)\<^sup>*\<^sup>* ({7}, Some (DJob (claimedJob 7))) ({7}, Some (DJob sampleJob))"
  "(life_step 1)\<^sup>*\<^sup>* ({7}, Some (DJob sampleJob)) ({8, 7}, Some (DJob (claimedJob 8)))"
proof -
  have c: "job_trans 1 (Claimer t) (Some (DJob sampleJob)) (Some (DJob (claimedJob t)))" for t
    unfolding claimedJob_def by (rule job_trans.trans_claim) (simp add: sampleJob_def)
  have "reclaimedJob (claimedJob 7) = sampleJob" by (simp add: reclaimedJob_def claimedJob_def sampleJob_def)
  with job_trans.trans_reclaim [of "claimedJob 7" 9 1]
  have r: "job_trans 1 (Reaper 9) (Some (DJob (claimedJob 7))) (Some (DJob sampleJob))"
    by (simp add: claimedJob_def leaseStale_def)
  show "job_trans 1 (Claimer 7) (Some (DJob sampleJob)) (Some (DJob (claimedJob 7)))" by (rule c)
  show "(life_step 1)\<^sup>*\<^sup>* ({7}, Some (DJob (claimedJob 7))) ({7}, Some (DJob sampleJob))"
    by (rule r_into_rtranclp, rule life_other [OF r]) auto
  show "(life_step 1)\<^sup>*\<^sup>* ({7}, Some (DJob sampleJob)) ({8, 7}, Some (DJob (claimedJob 8)))"
    by (rule r_into_rtranclp, rule life_claim [OF c]) simp
qed


subsection \<open>The retry budget\<close>

text \<open>A row reached from its creation with \<open>n\<close> failed runs, all recorded against budget \<open>B\<close>.\<close>

inductive failed_runs :: "int \<Rightarrow> int \<Rightarrow> nat \<Rightarrow> doc option \<Rightarrow> bool" for i B where
  runs_create: "job_trans i Producer None r \<Longrightarrow> failed_runs i B 0 r"
| runs_other: "failed_runs i B n (Some e) \<Longrightarrow> job_trans i a (Some e) (Some d) \<Longrightarrow> \<forall>t b. a \<noteq> Retrier t b \<Longrightarrow>
    failed_runs i B n (Some d)"
| runs_retry: "failed_runs i B n r \<Longrightarrow> job_trans i (Retrier t B) r r' \<Longrightarrow> failed_runs i B (Suc n) r'"

text \<open>
  C16. A poison job ends: with a retry budget \<open>B\<close> a job that is not failed has had fewer than \<open>B\<close>
  failed runs, and a failed job exactly \<open>B\<close>. Crashes, lost leases and graceful shutdowns do not
  count against the budget.
\<close>

theorem retry_budget_exact:
  assumes "failed_runs i B n (Some (DJob j))" "1 \<le> B" "B < 2 ^ 31"
  shows "job_Attempts j = int n \<and> (if job_State j = JobStateFailed then int n = B else int n < B)"
proof -
  have "failed_runs i B n r \<Longrightarrow> r = Some (DJob j) \<Longrightarrow> ?thesis" for r
  proof (induction arbitrary: j rule: failed_runs.induct)
    case (runs_create r)
    with assms(2) show ?case by (auto elim: job_trans.cases)
  next
    case (runs_other n e a d)
    from runs_other.hyps(2,3) runs_other.prems runs_other.IH show ?case
      by (cases rule: job_trans.cases) (auto simp: reclaimedJob_def ownsClaim_def)
  next
    case (runs_retry n r t r')
    from runs_retry.hyps(2) show ?case
    proof (cases rule: job_trans.cases)
      case (trans_retry j0 now)
      then have j0: "job_Attempts j0 = int n" "int n < B"
        using runs_retry.IH by (auto simp: ownsClaim_def)
      then have "wrap32 (job_Attempts j0 + 1) = int (Suc n)"
        using assms(3) by (simp add: wrap32_id int32_range_def)
      with trans_retry runs_retry.prems j0 show ?thesis by (auto simp: retriedJob_def Let_def)
    qed
  qed
  with assms(1) show ?thesis by blast
qed

text \<open>A job whose first run failed for good, with a budget of one run.\<close>

theorem retry_budget_exact_witness:
  "job_Attempts (snd (retriedJob 9 1 (claimedJob 7))) = 1 \<and>
   job_State (snd (retriedJob 9 1 (claimedJob 7))) = JobStateFailed"
proof -
  have "failed_runs 1 1 0 (Some (DJob sampleJob))"
    by (rule failed_runs.runs_create, rule job_trans.trans_create) (simp_all add: sampleJob_def)
  then have "failed_runs 1 1 0 (Some (DJob (claimedJob 7)))"
    by (rule failed_runs.runs_other [OF _ sample_lives(1)]) simp
  moreover have "job_trans 1 (Retrier 7 1) (Some (DJob (claimedJob 7))) (Some (DJob (snd (retriedJob 9 1 (claimedJob 7)))))"
    by (rule job_trans.trans_retry) (simp add: ownsClaim_def claimedJob_def)
  ultimately have "failed_runs 1 1 (Suc 0) (Some (DJob (snd (retriedJob 9 1 (claimedJob 7)))))"
    by (rule failed_runs.runs_retry)
  from retry_budget_exact [OF this] show ?thesis by (simp split: if_splits)
qed

end
