(* ===== verification/TaskProps.thy ===== *)
theory TaskProps
  imports JobQueueProps
begin

text \<open>
  Allocation of sequence numbers, and what the producers of tasks rely on: a task and its job
  appear together, and a replayed request finds the task of the first one.
\<close>

subsection \<open>Sequence numbers\<close>

definition seq_at :: "doc kv \<Rightarrow> key \<Rightarrow> int" where
  "seq_at s k = (case row_doc s k of Some (DSeq n) \<Rightarrow> n | _ \<Rightarrow> 0)"

definition seq_row :: "doc kv \<Rightarrow> key \<Rightarrow> bool" where
  "seq_row s k \<longleftrightarrow> row_doc s k = None \<or> (\<exists>n. row_doc s k = Some (DSeq n))"

text \<open>Other clients of the counter only increment it, below the largest 64-bit number.\<close>

definition seq_step :: "key \<Rightarrow> doc kv \<Rightarrow> doc kv \<Rightarrow> bool" where
  "seq_step k s s' \<longleftrightarrow> kv_step s s' \<and>
     (row_doc s' k = row_doc s k \<or> row_doc s' k = Some (DSeq (seq_at s k + 1)) \<and> seq_at s k + 1 < 2 ^ 63 - 1)"

fun changes :: "key \<Rightarrow> ('v, 'x) event \<Rightarrow> bool" where
  "changes k (EvEtcd q a b) \<longleftrightarrow> row_doc a k \<noteq> row_doc b k"
| "changes k _ \<longleftrightarrow> False"

lemma seq_steps:
  assumes "(seq_step k)\<^sup>*\<^sup>* s s'" "kv_wf s" "seq_row s k" "seq_at s k < 2 ^ 63 - 1"
  shows "kv_wf s' \<and> seq_row s' k \<and> seq_at s k \<le> seq_at s' k \<and> seq_at s' k < 2 ^ 63 - 1"
  using assms
proof (induction rule: rtranclp_induct)
  case (step t u)
  then have t: "kv_wf t" "seq_row t k" "seq_at s k \<le> seq_at t k" "seq_at t k < 2 ^ 63 - 1" "seq_step k t u" by auto
  from t(5) have "kv_wf u" using kv_step_rows(1) [OF t(1)] by (simp add: seq_step_def)
  with t show ?case by (auto simp: seq_step_def seq_row_def seq_at_def)
qed simp

text \<open>One round of the loop: the increment happened in this call, or the next round starts.\<close>

definition allocated :: "key \<Rightarrow> int \<Rightarrow> int \<Rightarrow> (doc, agent_call) event list \<Rightarrow> bool" where
  "allocated k m n tr \<longleftrightarrow> m < n \<and> (\<exists>q s1 s2. filter (changes k) tr = [EvEtcd q s1 s2] \<and>
     seq_at s1 k = n - 1 \<and> row_doc s2 k = Some (DSeq n))"

lemma row_doc_put:
  "kv_wf s \<Longrightarrow> row_doc (txn_after cs [OpPut k v] [] s) k = (if list_all (cmp_holds s) cs then Some v else row_doc s k)"
  by (simp add: row_doc_def txn_after_get)

lemma nextSeq_loop_allocates:
  assumes "exec (seq_step k) (nextSeq_loop i k) s tr (Inr n) s'" "kv_wf s" "seq_row s k" "seq_at s k < 2 ^ 63 - 1"
    "0 \<le> seq_at s k"
  shows "allocated k (seq_at s k) n tr"
  using assms
proof (induction i arbitrary: s tr)
  case 0
  then show ?case by auto
next
  case (Suc i)
  define attempt where "attempt = (\<lambda>n c. bind_ok (Commit [c] [OpPut k (DSeq (wrap64 (n + 1)))] []) (\<lambda>(ok, _).
      if ok then Ret (Inr (wrap64 (n + 1))) else nextSeq_loop i k))"
  have R: "(seq_step k)\<^sup>*\<^sup>* s s1 \<Longrightarrow> kv_wf s1" for s1 using seq_steps Suc.prems by blast
  define body where "body = (\<lambda>cur. case cur of None \<Rightarrow> attempt 0 (CreateRevision k 0)
      | Some (DSeq m) \<Rightarrow> attempt m (ValueIs k (DSeq m)) | Some _ \<Rightarrow> Ret (Inl ErrCorrupt))"
  have "nextSeq_loop (Suc i) k = bind_ok (Get k) body"
    unfolding nextSeq_loop.simps Let_def body_def attempt_def ..
  with Suc.prems(1) have "exec (seq_step k) (bind_ok (Get k) body) s tr (Inr n) s'" by metis
  then obtain tr1 cur s1 tr2 where g: "exec (seq_step k) (Get k) s tr1 (Inr cur) s1"
    "exec (seq_step k) (body cur) s1 tr2 (Inr n) s'" "tr = tr1 @ tr2" by (rule exec_bind_ok_Inr)
  have s1: "(seq_step k)\<^sup>*\<^sup>* s s1" "filter (changes k) tr1 = []" "cur = row_doc s1 k"
    using exec_Get [OF g(1) R] by auto
  note p1 = seq_steps [OF s1(1) Suc.prems(2-4)]
  define m where "m = seq_at s1 k"
  obtain c where c: "exec (seq_step k) (attempt m c) s1 tr2 (Inr n) s'"
    "\<And>t. kv_wf t \<Longrightarrow> cmp_holds t c \<Longrightarrow> seq_at t k = m"
  proof (cases "row_doc s1 k")
    case None
    with g(2) s1(3) show ?thesis
      by (intro that [of "CreateRevision k 0"])
        (auto simp: body_def m_def seq_at_def row_doc_def split: option.splits dest: kv_wf_row(1))
  next
    case (Some d)
    with p1 obtain n0 where "d = DSeq n0" by (auto simp: seq_row_def)
    with Some g(2) s1(3) show ?thesis
      by (intro that [of "ValueIs k (DSeq n0)"]) (auto simp: body_def m_def seq_at_def row_doc_def)
  qed
  obtain tr3 v s2 tr4 where t: "exec (seq_step k) (Commit [c] [OpPut k (DSeq (wrap64 (m + 1)))] []) s1 tr3 (Inr v) s2"
    "exec (seq_step k) (case v of (ok, _) \<Rightarrow> if ok then Ret (Inr (wrap64 (m + 1))) else nextSeq_loop i k) s2 tr4 (Inr n) s'"
    "tr2 = tr3 @ tr4" using c(1) unfolding attempt_def by (rule exec_bind_ok_Inr)
  from exec_Commit [OF t(1)] obtain s3 q where s3: "(seq_step k)\<^sup>*\<^sup>* s1 s3" "tr3 = [EvEtcd q s3 s2]"
    "fst v = cmp_holds s3 c" "s2 = txn_after [c] [OpPut k (DSeq (wrap64 (m + 1)))] [] s3" by auto
  have p3: "kv_wf s3" "seq_row s3 k" "seq_at s1 k \<le> seq_at s3 k" "seq_at s3 k < 2 ^ 63 - 1"
    using seq_steps [OF s3(1)] p1 by blast+
  show ?case
  proof (cases "cmp_holds s3 c")
    case True
    have m3: "seq_at s3 k = m" by (rule c(2) [OF p3(1) True])
    have m: "seq_at s k \<le> m" "m < 2 ^ 63 - 1" using p1 by (simp_all add: m_def)
    with Suc.prems(5) have w: "wrap64 (m + 1) = m + 1" by (simp add: wrap64_id int64_range_def)
    have n: "tr4 = []" "n = m + 1" using t(2) s3(3) True w by (auto simp: case_prod_beta)
    have d: "row_doc s2 k = Some (DSeq (m + 1))"
      using True s3(4) w p3(1) by (simp add: row_doc_put del: cmp_holds.simps)
    have "seq_at s2 k = m + 1" using d by (simp add: seq_at_def)
    with m3 have "row_doc s3 k \<noteq> row_doc s2 k" by (auto simp: seq_at_def)
    then show ?thesis
      unfolding allocated_def using n d m m3 s1(2) g(3) t(3) s3(2) by auto
  next
    case False
    then have s2: "s2 = s3" using s3(4) by (simp del: cmp_holds.simps)
    have "exec (seq_step k) (nextSeq_loop i k) s3 tr4 (Inr n) s'"
      using t(2) s3(3) False s2 by (simp add: case_prod_beta)
    from Suc.IH [OF this p3(1,2,4)] p1 p3(3) Suc.prems(5) have "allocated k (seq_at s3 k) n tr4" by simp
    then show ?thesis
      unfolding allocated_def using p1 p3(3) s1(2) g(3) t(3) s3(2) s2 by auto
  qed
qed


definition emptyStore :: "doc kv" where
  "emptyStore = \<lparr>kv_rows = [], kv_rev = 1\<rparr>"

lemmas nextSeq_round = nextSeq_loop.simps(2) [of 63, unfolded Suc_numeral, simplified]

lemmas client_defs = Get_def GetRev_def Rows_def Marshal_def Commit_def bind_ok_def result_rows_def


interpretation any: stable kv_step kv_wf
  by unfold_locales (simp_all add: kv_step_rows)

subsection \<open>A task and its job appear together\<close>

definition pendingJob :: "int \<Rightarrow> JobArgs \<Rightarrow> Job" where
  "pendingJob n args = \<lparr>job_ID = n, job_Kind = Kind args, job_Args = args, job_State = JobStatePending,
     job_Attempts = 0, job_FailedAt = None, job_ClaimedAt = None, job_ClaimToken = None\<rparr>"

text \<open>
  The rows of an accepted request: the task, its pending job under the number the task names,
  the entry of the creator's index, and the entry of the idempotency key.
\<close>

definition created :: "CreateTaskParams \<Rightarrow> JobArgs \<Rightarrow> doc kv \<Rightarrow> bool" where
  "created params args s \<longleftrightarrow> (\<exists>n now.
     row_doc s (taskKey (ct_ID params)) = Some (DTask (taskFromParams params n now)) \<and>
     row_doc s (jobKey n) = Some (DJob (pendingJob n args))) \<and>
   (\<forall>u. ct_CreatedBy params = Some u \<longrightarrow>
     row_doc s (taskCreatedByKey u (ct_ID params)) = Some (DUUID (ct_ID params))) \<and>
   (\<forall>u k. ct_IdempotencyUserID params = Some u \<and> ct_IdempotencyKey params = Some k \<longrightarrow>
     (\<exists>e. row_doc s (idempotencyTaskIndexKey u k) = Some (DIdempotency e) \<and>
        it_TaskID e = ct_ID params \<and> it_RequestHash e = ct_IdempotencyHash params))"

definition enqueue_write :: "CreateTaskParams \<Rightarrow> JobArgs \<Rightarrow> doc kv \<Rightarrow> doc kv \<Rightarrow> bool" where
  "enqueue_write params args a b \<longleftrightarrow>
     (\<forall>k. k \<noteq> jobSeqKey \<longrightarrow> row_doc b k = row_doc a k) \<or>
     created params args b \<and>
     (\<forall>u k. ct_IdempotencyUserID params = Some u \<and> ct_IdempotencyKey params = Some k \<longrightarrow>
        row_doc a (idempotencyTaskIndexKey u k) = None)"

text \<open>The task an accepted request names: a new one, or the one that the key already stands for.\<close>

definition answered :: "CreateTaskParams \<Rightarrow> JobArgs \<Rightarrow> uuid \<Rightarrow> doc kv \<Rightarrow> bool" where
  "answered params args i s \<longleftrightarrow> created params args s \<and> i = ct_ID params \<or>
     (\<exists>u k e. ct_IdempotencyUserID params = Some u \<and> ct_IdempotencyKey params = Some k \<and>
        row_doc s (idempotencyTaskIndexKey u k) = Some (DIdempotency e) \<and>
        it_TaskID e = i \<and> it_RequestHash e = ct_IdempotencyHash params)"

lemma txn_out_get:
  assumes "kv_wf s"
  shows "txn_out cs ts [OpGet k] s = (if list_all (cmp_holds s) cs then txn_out [] ts [] s
    else [case kv_get s k of None \<Rightarrow> [] | Some r \<Rightarrow> [(k, row_value r, row_mod r)]])"
  using filter_key [OF assms, of k] by (auto simp: txn_out_def result_rows_def split: option.split)

lemma no_create_revision: "kv_wf s \<Longrightarrow> cmp_holds s (CreateRevision k 0) \<longleftrightarrow> row_doc s k = None"
  by (auto simp: row_doc_def split: option.splits dest: kv_wf_row(1))

lemma enqueue_keys [simp]:
  "jobKey n \<noteq> taskCreatedByKey u i" "jobKey n \<noteq> idempotencyTaskIndexKey v k" "taskKey i \<noteq> taskCreatedByKey u i'"
  "taskKey i \<noteq> idempotencyTaskIndexKey v k" "taskCreatedByKey u i \<noteq> idempotencyTaskIndexKey v k"
  "taskCreatedByKey u i \<noteq> jobKey n" "idempotencyTaskIndexKey v k \<noteq> jobKey n" "taskCreatedByKey u i' \<noteq> taskKey i"
  "idempotencyTaskIndexKey v k \<noteq> taskKey i" "idempotencyTaskIndexKey v k \<noteq> taskCreatedByKey u i"
  by (simp_all add: jobKey_def taskKey_def taskCreatedByKey_def idempotencyTaskIndexKey_def)

text \<open>The operations of the transaction, for a task with number \<open>n\<close>.\<close>

definition enqueue_ops :: "CreateTaskParams \<Rightarrow> JobArgs \<Rightarrow> int \<Rightarrow> gotime \<Rightarrow> doc txop list" where
  "enqueue_ops params args n now = taskIndexOps (taskFromParams params n now) @
     [OpPut (taskKey (ct_ID params)) (DTask (taskFromParams params n now)), OpPut (jobKey n) (DJob (pendingJob n args))]"

definition index_op :: "CreateTaskParams \<Rightarrow> uuid \<Rightarrow> string \<Rightarrow> gotime \<Rightarrow> doc txop" where
  "index_op params u k now = OpPut (idempotencyTaskIndexKey u k) (DIdempotency \<lparr>it_TaskID = ct_ID params,
     it_RequestHash = ct_IdempotencyHash params, it_ExpiresAt = now + idempotencyTaskIndexTTL\<rparr>)"

fun descriptor :: "CreateTaskParams \<Rightarrow> (uuid \<times> string) option" where
  "descriptor params = (case (ct_IdempotencyUserID params, ct_IdempotencyKey params) of
     (Some u, Some k) \<Rightarrow> Some (u, k) | _ \<Rightarrow> None)"

context stable
begin

lemma enqueue_commit_rule:
  assumes i: "I a" and "descriptor params = Some (u, k)"
    and err: "\<And>e b. kv_wf b \<Longrightarrow> Q (Inl e) b" and refl: "\<And>b. I b \<Longrightarrow> G b b"
    and new: "\<And>b. I b \<Longrightarrow> row_doc b (idempotencyTaskIndexKey u k) = None \<Longrightarrow>
      G b (txn_after [] ts [] b) \<and> Q (Inr (ct_ID params)) (txn_after [] ts [] b)"
    and replay: "\<And>b e. I b \<Longrightarrow> row_doc b (idempotencyTaskIndexKey u k) = Some (DIdempotency e) \<Longrightarrow>
      it_RequestHash e = ct_IdempotencyHash params \<Longrightarrow> Q (Inr (it_TaskID e)) b"
  shows "wlp R G (bind_ok (Commit [CreateRevision (idempotencyTaskIndexKey u k) 0] ts [OpGet (idempotencyTaskIndexKey u k)])
     (\<lambda>(ok, out). if ok then Ret (Inr (ct_ID params)) else Ret
        (case concat (take 1 out) of
           [] \<Rightarrow> Inl ErrIdempotencyKeyMismatch
         | (_, DIdempotency prior, _) # _ \<Rightarrow>
             if it_RequestHash prior \<noteq> ct_IdempotencyHash params then Inl ErrIdempotencyKeyMismatch
             else Inr (it_TaskID prior)
         | _ # _ \<Rightarrow> Inl ErrCorrupt))) Q a"
  unfolding wlp_bind_ok wlp_Commit
proof (intro allI impI, goal_cases)
  case (1 b)
  then have b: "I b" by (rule I_run [OF _ i])
  let ?K = "idempotencyTaskIndexKey u k" and ?c = "CreateRevision (idempotencyTaskIndexKey u k) 0"
  show ?case
  proof (cases "row_doc b ?K")
    case None
    then have c: "cmp_holds b ?c" using no_create_revision [OF I_wf [OF b], of ?K] by blast
    then have "txn_after [?c] ts [OpGet ?K] b = txn_after [] ts [] b"
      by (simp add: txn_after_def Let_def del: cmp_holds.simps)
    with c None new [OF b] err refl [OF b] I_wf [OF b] show ?thesis by (simp add: txn_after_wf del: cmp_holds.simps)
  next
    case (Some d)
    then have c: "\<not> cmp_holds b ?c" using no_create_revision [OF I_wf [OF b], of ?K] by auto
    from Some obtain r where r: "kv_get b ?K = Some r" "row_value r = d" by (auto simp: row_doc_def)
    have "txn_after [?c] ts [OpGet ?K] b = b"
      using c by (simp add: txn_after_def Let_def del: cmp_holds.simps)
    with c r Some replay [OF b] err [OF I_wf [OF b]] refl [OF b] show ?thesis
      by (cases d) (simp_all add: txn_out_get I_wf [OF b] del: cmp_holds.simps)
  qed
qed

lemma EnqueueTask_rule:
  assumes i: "I s"
    and err: "\<And>e b. kv_wf b \<Longrightarrow> Q (Inl e) b"
    and seq: "\<And>a b. I a \<Longrightarrow> kv_wf b \<Longrightarrow> (\<And>k. k \<noteq> jobSeqKey \<Longrightarrow> row_doc b k = row_doc a k) \<Longrightarrow> G a b \<and> I b"
    and plain: "\<And>b n now. I b \<Longrightarrow> descriptor params = None \<Longrightarrow>
      G b (txn_after [] (enqueue_ops params args n now) [] b) \<and>
      Q (Inr (ct_ID params)) (txn_after [] (enqueue_ops params args n now) [] b)"
    and keyed: "\<And>b n now now2 u k. I b \<Longrightarrow> descriptor params = Some (u, k) \<Longrightarrow>
      row_doc b (idempotencyTaskIndexKey u k) = None \<Longrightarrow>
      G b (txn_after [] (enqueue_ops params args n now @ [index_op params u k now2]) [] b) \<and>
      Q (Inr (ct_ID params)) (txn_after [] (enqueue_ops params args n now @ [index_op params u k now2]) [] b)"
    and replay: "\<And>b u k e. I b \<Longrightarrow> descriptor params = Some (u, k) \<Longrightarrow>
      row_doc b (idempotencyTaskIndexKey u k) = Some (DIdempotency e) \<Longrightarrow>
      it_RequestHash e = ct_IdempotencyHash params \<Longrightarrow> Q (Inr (it_TaskID e)) b"
  shows "wlp R G (EnqueueTask params args) Q s"
proof -
  have refl: "I b \<Longrightarrow> G b b" for b using seq [of b b] I_wf by simp
  have plain': "\<forall>now. wlp R G (bind_ok (Commit [] (enqueue_ops params args n now) []) (\<lambda>_. Ret (Inr (ct_ID params)))) Q a"
    if "I a" "descriptor params = None" for a n
    using that plain refl err I_run I_wf by (auto simp: wlp_bind_ok wlp_Commit txn_after_wf)
  have task: "tk_ID (taskFromParams params n now) = ct_ID params" for n now by (simp add: taskFromParams_def)
  note marshal = wlp_bind_ok [where p = "Marshal v" for v] wlp_bind_ok [where p = "bind_ok p f" for p f] wlp_Marshal
  show ?thesis
    unfolding EnqueueTask_def enqueueJobOp_def nextJobSeq_def
      wlp_bind_ok [where p = "nextSeq k" for k] wlp_bind_ok [where p = "bind_ok p f" for p f]
  proof (rule nextSeq_rule [OF i seq], assumption, assumption, goal_cases)
    case (2 x a)
    note commit = enqueue_commit_rule [where params = params and Q = Q and G = G, OF 2 _ err refl _ replay]
    show ?case
    proof (cases x)
      case (Inr n)
      have keyed': "\<forall>now now2. wlp R G (let idxKey = idempotencyTaskIndexKey u k;
                  idxVal = DIdempotency \<lparr>it_TaskID = ct_ID params, it_RequestHash = ct_IdempotencyHash params,
                    it_ExpiresAt = now2 + idempotencyTaskIndexTTL\<rparr>
              in bind_ok (Commit [CreateRevision idxKey 0] (enqueue_ops params args n now @ [OpPut idxKey idxVal]) [OpGet idxKey]) (\<lambda>(ok, out).
                   if ok then Ret (Inr (ct_ID params))
                   else Ret
                     (case concat (take 1 out) of
                        [] \<Rightarrow> Inl ErrIdempotencyKeyMismatch
                      | (_, DIdempotency prior, _) # _ \<Rightarrow>
                          if it_RequestHash prior \<noteq> ct_IdempotencyHash params then Inl ErrIdempotencyKeyMismatch
                          else Inr (it_TaskID prior)
                      | _ # _ \<Rightarrow> Inl ErrCorrupt))) Q a"
        if "descriptor params = Some (u, k)" for u k
        unfolding Let_def using that keyed [OF _ that, unfolded index_op_def] replay [OF _ that] by (intro allI commit) auto
      have key: ?thesis if "ct_IdempotencyUserID params = Some u" "ct_IdempotencyKey params = Some k" for u k
        using Inr err [OF I_wf [OF 2]] that keyed' [of u k] by (simp add: marshal Let_def task enqueue_ops_def pendingJob_def)
      have no_key: ?thesis if "ct_IdempotencyUserID params = None \<or> ct_IdempotencyKey params = None"
        using that Inr err [OF I_wf [OF 2]] plain' [OF 2, of n]
        by (auto simp: marshal Let_def task enqueue_ops_def pendingJob_def split: option.split)
      consider u k where "ct_IdempotencyUserID params = Some u" "ct_IdempotencyKey params = Some k"
        | "ct_IdempotencyUserID params = None \<or> ct_IdempotencyKey params = None" by fastforce
      then show ?thesis by cases (rule key no_key; assumption)+
    qed (simp add: err [OF I_wf [OF 2]])
  qed simp
qed

end

lemma created_plain:
  "kv_wf b \<Longrightarrow> descriptor params = None \<Longrightarrow> created params args (txn_after [] (enqueue_ops params args n now) [] b)"
  by (auto simp: created_def row_doc_def txn_after_get enqueue_ops_def taskIndexOps_def taskFromParams_def
      intro!: exI [of _ n] exI [of _ now] split: option.split)

lemma created_keyed:
  "kv_wf b \<Longrightarrow> descriptor params = Some (u, k) \<Longrightarrow>
     created params args (txn_after [] (enqueue_ops params args n now @ [index_op params u k now2]) [] b)"
  by (auto simp: created_def row_doc_def txn_after_get enqueue_ops_def index_op_def taskIndexOps_def taskFromParams_def
      intro!: exI [of _ n] exI [of _ now] split: option.splits)


text \<open>A first request under an idempotency key, in an empty store.\<close>

definition sampleParams :: "uuid \<Rightarrow> CreateTaskParams" where
  "sampleParams i = \<lparr>ct_ID = i, ct_Type = ''vm.start'', ct_Status = TaskStatusPending, ct_ResourceType = ''vm'',
     ct_ResourceID = Some 5, ct_Args = ArgsJSON None, ct_MaxAttempts = 3, ct_CreatedBy = Some 2,
     ct_IdempotencyUserID = Some 2, ct_IdempotencyKey = Some ''k1'', ct_IdempotencyHash = ''h1''\<rparr>"

definition sampleArgs :: JobArgs where
  "sampleArgs = OtherArgs ''vm.start'' ''{}''"

lemmas enqueue_defs = EnqueueTask_def enqueueJobOp_def nextJobSeq_def nextSeq_def nextSeq_round client_defs sampleParams_def
  Let_def kv_get_def taskIndexOps_def taskFromParams_def

lemma lit_order: "Lit ''index'' < Lit ''jobs''" "Lit ''index'' < Lit ''seq''" "Lit ''jobs'' < Lit ''seq''"
  "Lit ''index'' < Lit ''tasks''" "Lit ''jobs'' < Lit ''tasks''" "Lit ''seq'' < Lit ''tasks''" "Lit ''idempotency_task'' < Lit ''tasks''"
  by code_simp+

lemma key_order:
  "taskCreatedByKey u i < jobSeqKey" "\<not> jobSeqKey < taskCreatedByKey u i"
  "idempotencyTaskIndexKey u k < jobSeqKey" "\<not> jobSeqKey < idempotencyTaskIndexKey u k"
  "jobKey n < jobSeqKey" "\<not> jobSeqKey < jobKey n" "jobSeqKey < taskKey t" "\<not> taskKey t < jobSeqKey"
  "taskCreatedByKey u i < jobKey n" "\<not> jobKey n < taskCreatedByKey u i"
  "idempotencyTaskIndexKey u k < jobKey n" "\<not> jobKey n < idempotencyTaskIndexKey u k"
  "idempotencyTaskIndexKey v k < taskCreatedByKey u i" "\<not> taskCreatedByKey u i < idempotencyTaskIndexKey v k"
  "jobKey n < taskKey t" "\<not> taskKey t < jobKey n" "taskCreatedByKey u i < taskKey t" "\<not> taskKey t < taskCreatedByKey u i"
  "idempotencyTaskIndexKey u k < taskKey t" "\<not> taskKey t < idempotencyTaskIndexKey u k"
  using lit_order
  by (auto simp: taskCreatedByKey_def jobSeqKey_def idempotencyTaskIndexKey_def jobKey_def taskKey_def)

lemma key_neq: "jobSeqKey \<noteq> taskCreatedByKey u i" "jobSeqKey \<noteq> jobKey n" "jobSeqKey \<noteq> taskKey t" "jobSeqKey \<noteq> idempotencyTaskIndexKey u k"
 "taskCreatedByKey u i \<noteq> jobSeqKey" "jobKey n \<noteq> jobSeqKey" "taskKey t \<noteq> jobSeqKey" "idempotencyTaskIndexKey u k \<noteq> jobSeqKey"
  by (auto simp: taskCreatedByKey_def jobSeqKey_def idempotencyTaskIndexKey_def jobKey_def taskKey_def)


subsection \<open>A replayed request\<close>

text \<open>Other clients that leave the entry of an idempotency key alone.\<close>

definition keeps_entry :: "key \<Rightarrow> doc kv \<Rightarrow> doc kv \<Rightarrow> bool" where
  "keeps_entry k s s' \<longleftrightarrow> kv_step s s' \<and> row_doc s' k = row_doc s k"

interpretation entry: stable "keeps_entry k" "\<lambda>s. kv_wf s \<and> row_doc s k = Some d" for k d
  by unfold_locales (auto simp: keeps_entry_def kv_step_rows)

text \<open>
  C18. A request that is sent again does nothing twice. While the entry of its idempotency key
  stands, every execution of an enqueue under that key, with any other traffic and any failing
  calls, writes no row except the counter of job numbers; and when it returns a task, it is the
  task of the first request, and only for the same request body.
\<close>

theorem EnqueueTask_replay:
  assumes "kv_wf s" "ct_IdempotencyUserID params = Some u" "ct_IdempotencyKey params = Some k"
    and "row_doc s (idempotencyTaskIndexKey u k) = Some (DIdempotency e)"
    and "exec (keeps_entry (idempotencyTaskIndexKey u k)) (EnqueueTask params args) s tr x s'"
  shows "(\<forall>q a b r. EvEtcd q a b \<in> set tr \<and> r \<noteq> jobSeqKey \<longrightarrow> row_doc b r = row_doc a r) \<and>
    (\<forall>i. x = Inr i \<longrightarrow> i = it_TaskID e \<and> it_RequestHash e = ct_IdempotencyHash params)"
proof -
  have key: "idempotencyTaskIndexKey u k \<noteq> jobSeqKey" by (simp add: idempotencyTaskIndexKey_def jobSeqKey_def)
  have "wlp (keeps_entry (idempotencyTaskIndexKey u k)) (\<lambda>a b. \<forall>r. r \<noteq> jobSeqKey \<longrightarrow> row_doc b r = row_doc a r)
      (EnqueueTask params args) (\<lambda>x s. \<forall>i. x = Inr i \<longrightarrow> i = it_TaskID e \<and> it_RequestHash e = ct_IdempotencyHash params) s"
    by (rule entry.EnqueueTask_rule [of s "idempotencyTaskIndexKey u k" "DIdempotency e"]) (use assms(1-4) key in auto)
  from wlp_sound [OF assms(5) this] show ?thesis by (fastforce simp: list_all_iff)
qed

text \<open>The request of task 10 sent again as task 11.\<close>

definition replayStore :: "doc kv" where
  "replayStore = \<lparr>kv_rows = [(idempotencyTaskIndexKey 2 ''k1'', Row (DIdempotency \<lparr>it_TaskID = 10, it_RequestHash = ''h1'',
     it_ExpiresAt = 99\<rparr>) 1 1)], kv_rev = 1\<rparr>"

theorem EnqueueTask_replay_witness:
  "\<exists>tr s'. solo (EnqueueTask (sampleParams 11) sampleArgs) 0 replayStore = (tr, Inr 10, s') \<and>
     (\<forall>q a b r. EvEtcd q a b \<in> set tr \<and> r \<noteq> jobSeqKey \<longrightarrow> row_doc b r = row_doc a r)"
proof -
  have "\<exists>tr i s'. solo (EnqueueTask (sampleParams 11) sampleArgs) 0 replayStore = (tr, Inr i, s')"
    by (simp add: enqueue_defs replayStore_def key_order key_neq)
  then obtain tr i s' where e: "solo (EnqueueTask (sampleParams 11) sampleArgs) 0 replayStore = (tr, Inr i, s')" by blast
  have wf: "kv_wf replayStore" by (simp add: kv_wf_def replayStore_def)
  have p: "ct_IdempotencyUserID (sampleParams 11) = Some 2" "ct_IdempotencyKey (sampleParams 11) = Some ''k1''"
    by (simp_all add: sampleParams_def)
  have d: "row_doc replayStore (idempotencyTaskIndexKey 2 ''k1'') =
      Some (DIdempotency \<lparr>it_TaskID = 10, it_RequestHash = ''h1'', it_ExpiresAt = 99\<rparr>)"
    by (simp add: row_doc_def kv_get_def replayStore_def)
  note r = EnqueueTask_replay [OF wf p d solo_exec [OF e]]
  then have "i = 10" by simp
  with e conjunct1 [OF r] show ?thesis by blast
qed

subsection \<open>Pages of a listing\<close>

text \<open>The tasks of a store, which holds one task under each identifier.\<close>

interpretation listing: strict_total_order task_newer "{t. F (tk_ID t) = t}" for F
proof
  fix x y :: Task
  assume "x \<in> {t. F (tk_ID t) = t}" "y \<in> {t. F (tk_ID t) = t}" "x \<noteq> y"
  then have "tk_ID x \<noteq> tk_ID y" by auto
  then show "task_newer x y \<or> task_newer y x" by (auto simp: task_newer_def)
qed (auto simp: task_newer_def split: if_splits)

lemma task_rows:
  assumes "distinct (map tk_ID ts)"
  obtains F where "set ts \<subseteq> {t. F (tk_ID t) = t}"
proof (rule that [of "\<lambda>i. the (map_of (map (\<lambda>t. (tk_ID t, t)) ts) i)"])
  have "map_of (map (\<lambda>t. (tk_ID t, t)) ts) (tk_ID t) = Some t" if "t \<in> set ts" for t
    using assms that by (intro map_of_is_SomeI) (auto simp: comp_def)
  then show "set ts \<subseteq> {t. the (map_of (map (\<lambda>t. (tk_ID t, t)) ts) (tk_ID t)) = t}" by auto
qed

text \<open>
  Paging through the tasks misses none and repeats none: the page that starts after the
  \<open>m\<close>-th task of the full listing with limit \<open>n\<close> is exactly the next \<open>n\<close> tasks of that listing, for
  every filter, when identifiers are unique.
\<close>

theorem listTasks_pages:
  assumes "distinct (map tk_ID tasks)" "fl_cursorCreatedAt f = None" "fl_limitCount f = 0"
    and "full = select_tasks f tasks" "m < length full" "0 < n"
  shows "select_tasks (f\<lparr>fl_cursorCreatedAt := Some (tk_CreatedAt (full ! m)), fl_cursorID := Some (tk_ID (full ! m)),
      fl_limitCount := n\<rparr>) tasks = take (nat n) (drop (Suc m) full)"
    (is "select_tasks ?f _ = _")
proof -
  obtain F where F: "set tasks \<subseteq> {t. F (tk_ID t) = t}" by (rule task_rows [OF assms(1)])
  then have matching: "set (filter P tasks) \<subseteq> {t. F (tk_ID t) = t}" for P by auto
  let ?sorted = "\<lambda>f. sort_stable task_newer (filter (\<lambda>t. taskMatches t f) tasks)"
  have full: "full = ?sorted f" using assms(3,4) by (simp add: select_tasks_def Let_def)
  have "taskMatches t ?f \<longleftrightarrow> taskMatches t f \<and> task_newer (full ! m) t" for t
    using assms(2) by (auto simp: taskMatches_def beforeCursor_def task_newer_def)
  then have "filter (\<lambda>t. taskMatches t ?f) tasks = filter (task_newer (full ! m)) (filter (\<lambda>t. taskMatches t f) tasks)"
    by (simp add: conj_commute)
  then have "?sorted ?f = filter (task_newer (full ! m)) full"
    unfolding full by (simp only: listing.sort_stable_filter [OF matching])
  also have "\<dots> = drop (Suc m) full"
  proof (rule listing.filter_after)
    have "distinct tasks" using assms(1) by (simp add: distinct_map)
    then show "sorted_wrt task_newer full"
      unfolding full by (intro listing.sort_stable_strict [OF matching]) simp
    show "set full \<subseteq> {t. F (tk_ID t) = t}" unfolding full set_sort_stable by (rule matching)
  qed (rule assms(5))
  finally show ?thesis using assms(6) by (simp add: select_tasks_def Let_def)
qed

text \<open>Three tasks, two of them created at the same moment; the second page of size one.\<close>

definition sampleTask :: "uuid \<Rightarrow> gotime \<Rightarrow> Task" where
  "sampleTask i at = taskFromParams (sampleParams i) 1 at"

definition anyTask :: taskFilter where
  "anyTask = \<lparr>fl_createdBy = Some 2, fl_statusFilter = None, fl_typeFilter = None, fl_resourceTypeFilter = None,
     fl_resourceIDFilter = None, fl_cursorCreatedAt = None, fl_cursorID = None, fl_limitCount = 0\<rparr>"

theorem listTasks_pages_witness:
  "select_tasks (anyTask\<lparr>fl_cursorCreatedAt := Some 7, fl_cursorID := Some 23, fl_limitCount := 1\<rparr>)
     [sampleTask 21 5, sampleTask 22 7, sampleTask 23 7] = [sampleTask 22 7]"
proof -
  let ?ts = "[sampleTask 21 5, sampleTask 22 7, sampleTask 23 7]"
  have full: "select_tasks anyTask ?ts = [sampleTask 23 7, sampleTask 22 7, sampleTask 21 5]"
    by (simp add: select_tasks_def anyTask_def sampleTask_def taskFromParams_def sampleParams_def taskMatches_def
        beforeCursor_def task_newer_def)
  have "distinct (map tk_ID ?ts)" "fl_cursorCreatedAt anyTask = None" "fl_limitCount anyTask = 0"
    by (simp_all add: sampleTask_def taskFromParams_def sampleParams_def anyTask_def)
  from listTasks_pages [OF this full [symmetric], of 0 1] show ?thesis
    by (simp add: sampleTask_def taskFromParams_def sampleParams_def)
qed

end
