(* ===== verification/BlobStore.thy ===== *)
theory BlobStore
  imports JobQueue
begin

text \<open>
  The part of the store that blob replication reads and writes
  (\<^verbatim>\<open>internal/etcdstore/placement.go\<close>, \<^verbatim>\<open>node_blobs.go\<close>, \<^verbatim>\<open>reclaim_inflight.go\<close>,
  \<^verbatim>\<open>replicate_inflight.go\<close> and the lookups of snapshots, artifact pools and nodes).
\<close>

subsection \<open>Keys\<close>

definition nodeBlobInventoryKey :: "uuid \<Rightarrow> key" where
  "nodeBlobInventoryKey n = [Lit ''node_blobs'', UId n]"

definition nodeBlobInventoryPrefix :: key where
  "nodeBlobInventoryPrefix = [Lit ''node_blobs'']"

definition placementKey :: "string \<Rightarrow> uuid \<Rightarrow> key" where
  "placementKey digest n = [Lit ''placement'', Lit digest, UId n]"

definition placementPrefix :: "string \<Rightarrow> key" where
  "placementPrefix digest = [Lit ''placement'', Lit digest]"

definition placementRootPrefix :: key where
  "placementRootPrefix = [Lit ''placement'']"

definition blobRefKey :: "string \<Rightarrow> uuid \<Rightarrow> key" where
  "blobRefKey digest snap = [Lit ''index'', Lit ''blob_refs'', Lit digest, UId snap]"

definition blobRefPrefix :: "string \<Rightarrow> key" where
  "blobRefPrefix digest = [Lit ''index'', Lit ''blob_refs'', Lit digest]"

definition snapshotKey :: "uuid \<Rightarrow> key" where
  "snapshotKey i = [Lit ''snapshots'', UId i]"

definition nodeKey :: "uuid \<Rightarrow> key" where
  "nodeKey i = [Lit ''nodes'', UId i]"

definition nodePrefix :: key where
  "nodePrefix = [Lit ''nodes'']"

definition artifactPoolKey :: "uuid \<Rightarrow> key" where
  "artifactPoolKey i = [Lit ''artifact_pools'', UId i]"

definition artifactPoolNameGuard :: "string \<Rightarrow> key" where
  "artifactPoolNameGuard name = [Lit ''uniq'', Lit ''artifact_pools'', Lit ''name'', Lit (to_lower name)]"

definition reclaimInflightKey :: "string \<Rightarrow> uuid \<Rightarrow> key" where
  "reclaimInflightKey digest n = [Lit ''index'', Lit ''reclaim_inflight'', Lit digest, UId n]"

definition replicateInflightKey :: "string \<Rightarrow> uuid \<Rightarrow> key" where
  "replicateInflightKey digest n = [Lit ''index'', Lit ''replicate_inflight'', Lit digest, UId n]"

subsection \<open>The placement map\<close>

definition remdups_first :: "'a list \<Rightarrow> 'a list" where
  "remdups_first xs = rev (remdups (rev xs))"

text \<open>The digest of a placement key is its first part under the prefix, unless nothing follows it.\<close>

definition AllPlacementDigests :: "string list store_op" where
  "AllPlacementDigests = bind_ok (RangeKV placementRootPrefix) (\<lambda>items.
     Ret (Inr (remdups_first (List.map_filter (\<lambda>(k, _).
       case drop (length placementRootPrefix) k of Lit d # _ # _ \<Rightarrow> if d = [] then None else Some d | _ \<Rightarrow> None) items))))"

definition AddBlobPlacement :: "string \<Rightarrow> uuid \<Rightarrow> unit store_op" where
  "AddBlobPlacement digest n = Put (placementKey digest n) (DUUID n)"

definition RemoveBlobPlacement :: "string \<Rightarrow> uuid \<Rightarrow> bool store_op" where
  "RemoveBlobPlacement digest n = Delete (placementKey digest n)"

fun collect_uuids :: "(key \<times> doc) list \<Rightarrow> store_err + uuid list" where
  "collect_uuids [] = Inr []"
| "collect_uuids ((_, DUUID i) # items) = (case collect_uuids items of Inl e \<Rightarrow> Inl e | Inr is \<Rightarrow> Inr (i # is))"
| "collect_uuids (_ # items) = Inl ErrCorrupt"

definition BlobPlacements :: "string \<Rightarrow> uuid list store_op" where
  "BlobPlacements digest = bind_ok (RangeKV (placementPrefix digest)) (\<lambda>items. Ret (collect_uuids items))"

fun last_uuid :: "key \<Rightarrow> uuid option" where
  "last_uuid k = (if k = [] then None else case last k of UId i \<Rightarrow> Some i | _ \<Rightarrow> None)"

fun collect_refs :: "(key \<times> doc) list \<Rightarrow> store_err + uuid list" where
  "collect_refs [] = Inr []"
| "collect_refs ((k, _) # items) =
     (case last_uuid k of
        None \<Rightarrow> Inl ErrCorrupt
      | Some i \<Rightarrow> (case collect_refs items of Inl e \<Rightarrow> Inl e | Inr is \<Rightarrow> Inr (i # is)))"

definition SnapshotsReferencingBlob :: "string \<Rightarrow> uuid list store_op" where
  "SnapshotsReferencingBlob digest = bind_ok (RangeKV (blobRefPrefix digest)) (\<lambda>items. Ret (collect_refs items))"

subsection \<open>Observed inventories\<close>

definition UpsertNodeBlobInventory :: "uuid \<Rightarrow> NodeBlob list \<Rightarrow> unit store_op" where
  "UpsertNodeBlobInventory n blobs =
     (if blobs = [] then bind_ok (Delete (nodeBlobInventoryKey n)) (\<lambda>_. Ret (Inr ()))
      else Put (nodeBlobInventoryKey n) (DBlobs blobs))"

definition NodeBlobInventory :: "uuid \<Rightarrow> NodeBlob list store_op" where
  "NodeBlobInventory n = bind_ok (GetJSON dec_blobs (nodeBlobInventoryKey n)) (\<lambda>r.
     Ret (Inr (case r of None \<Rightarrow> [] | Some blobs \<Rightarrow> blobs)))"

definition holders_of :: "string \<Rightarrow> (key \<times> doc) list \<Rightarrow> uuid list" where
  "holders_of digest items = sort (List.map_filter (\<lambda>(k, blobs).
     case last_uuid k of
       None \<Rightarrow> None
     | Some n \<Rightarrow> if digest \<in> nb_Digest ` set blobs then Some n else None)
     (decodeOrQuarantine dec_blobs items))"

definition BlobHolders :: "string \<Rightarrow> uuid list store_op" where
  "BlobHolders digest = bind_ok (RangeKV nodeBlobInventoryPrefix) (\<lambda>items. Ret (Inr (holders_of digest items)))"

definition AllNodeBlobDigests :: "string list store_op" where
  "AllNodeBlobDigests = bind_ok (RangeKV nodeBlobInventoryPrefix) (\<lambda>items.
     Ret (Inr (sorted_list_of_set (\<Union>(_, blobs)\<in>set (decodeOrQuarantine dec_blobs items). nb_Digest ` set blobs))))"

definition BlobSize :: "string \<Rightarrow> (doc, agent_call, int \<times> bool) prog" where
  "BlobSize digest = bind (RangeKV nodeBlobInventoryPrefix) (\<lambda>r. Ret
     (case r of
        Inl _ \<Rightarrow> (0, False)
      | Inr items \<Rightarrow>
          (case List.find (\<lambda>b. nb_Digest b = digest \<and> nb_SizeBytes b > 0)
                  (concat (map snd (decodeOrQuarantine dec_blobs items))) of
             None \<Rightarrow> (0, False)
           | Some b \<Rightarrow> (nb_SizeBytes b, True))))"

subsection \<open>Lookups\<close>

definition SnapshotByID :: "uuid \<Rightarrow> Snapshot store_op" where
  "SnapshotByID i = bind_ok (GetJSON dec_snapshot (snapshotKey i)) (\<lambda>r. Ret
     (case r of
        None \<Rightarrow> Inl ErrNotFound
      | Some s \<Rightarrow> if sn_DeletedAt s \<noteq> None then Inl ErrNotFound else Inr s))"

definition ArtifactPoolByID :: "uuid \<Rightarrow> ArtifactPool store_op" where
  "ArtifactPoolByID i = bind_ok (GetJSON dec_artifact_pool (artifactPoolKey i)) (\<lambda>r. Ret
     (case r of
        None \<Rightarrow> Inl ErrNotFound
      | Some p \<Rightarrow> if ap_DeletedAt p \<noteq> None then Inl ErrNotFound else Inr p))"

definition ArtifactPoolByName :: "string \<Rightarrow> ArtifactPool store_op" where
  "ArtifactPoolByName name = bind_ok (Get (artifactPoolNameGuard name)) (\<lambda>r.
     case r of
       None \<Rightarrow> Ret (Inl ErrNotFound)
     | Some (DUUID i) \<Rightarrow> ArtifactPoolByID i
     | Some _ \<Rightarrow> Ret (Inl ErrCorrupt))"

fun collect_nodes :: "(key \<times> doc) list \<Rightarrow> store_err + Node list" where
  "collect_nodes [] = Inr []"
| "collect_nodes ((_, d) # items) =
     (case dec_node d of
        None \<Rightarrow> Inl ErrCorrupt
      | Some n \<Rightarrow> (case collect_nodes items of
            Inl e \<Rightarrow> Inl e
          | Inr ns \<Rightarrow> Inr (if nd_DeletedAt n \<noteq> None then ns else n # ns)))"

definition AllNodes :: "Node list store_op" where
  "AllNodes = bind_ok (RangeKV nodePrefix) (\<lambda>items. Ret (collect_nodes items))"

subsection \<open>Markers of running work\<close>

text \<open>
  \<^verbatim>\<open>TryBeginReclaim\<close> and \<^verbatim>\<open>TryBeginReplicate\<close> have one body: create the marker, or overwrite it
  once it has expired.
\<close>

definition tryBegin :: "key \<Rightarrow> duration \<Rightarrow> bool store_op" where
  "tryBegin k ttl = Now (\<lambda>now. bind_ok (Marshal (DInflight (now + ttl))) (\<lambda>enc.
     bind_ok (PutIfAbsent k enc) (\<lambda>created.
       if created then Ret (Inr True)
       else bind_ok (Get k) (\<lambda>cur.
         case cur of
           Some (DInflight expiresAt) \<Rightarrow>
             if expiresAt > now then Ret (Inr False) else bind_ok (Put k enc) (\<lambda>_. Ret (Inr True))
         | _ \<Rightarrow> bind_ok (Put k enc) (\<lambda>_. Ret (Inr True))))))"

definition TryBeginReclaim :: "string \<Rightarrow> uuid \<Rightarrow> duration \<Rightarrow> bool store_op" where
  "TryBeginReclaim digest n ttl = tryBegin (reclaimInflightKey digest n) ttl"

definition TryBeginReplicate :: "string \<Rightarrow> uuid \<Rightarrow> duration \<Rightarrow> bool store_op" where
  "TryBeginReplicate digest n ttl = tryBegin (replicateInflightKey digest n) ttl"

definition EndReclaim :: "string \<Rightarrow> uuid \<Rightarrow> unit store_op" where
  "EndReclaim digest n = bind_ok (Delete (reclaimInflightKey digest n)) (\<lambda>_. Ret (Inr ()))"

definition EndReplicate :: "string \<Rightarrow> uuid \<Rightarrow> unit store_op" where
  "EndReplicate digest n = bind_ok (Delete (replicateInflightKey digest n)) (\<lambda>_. Ret (Inr ()))"

end
