(* ===== verification/Replication.thy ===== *)
theory Replication
  imports BlobStore
begin

text \<open>
  Durable replicas of blobs (\<^verbatim>\<open>internal/api/handlers/replication\<close>): the choice of holders by
  rendezvous hashing, the durability projection, the reconcile pass and the workers that copy and
  delete replicas.

  A Go map with boolean values is the set of its true keys. Where the code ranges over such a map,
  the order of the runtime is the parameter \<open>ord\<close>. The hash function is the parameter \<open>sha256\<close>.
\<close>

subsection \<open>Policy\<close>

definition isLive :: "Node \<Rightarrow> bool" where
  "isLive n \<longleftrightarrow> nd_DeletedAt n = None \<and> nd_Status n \<noteq> NodeStatusUnreachable"

definition liveNodeIDs :: "Node list \<Rightarrow> uuid set" where
  "liveNodeIDs nodes = nd_ID ` set (filter isLive nodes)"

definition rebalanceEligibleNodeIDs :: "Node list \<Rightarrow> duration \<Rightarrow> gotime \<Rightarrow> uuid set" where
  "rebalanceEligibleNodeIDs nodes grace now =
     nd_ID ` set (filter (\<lambda>n. \<not> (nd_DeletedAt n \<noteq> None \<or> nd_Status n \<noteq> NodeStatusUnreachable) \<and>
       (case nd_LastHeartbeatAt n of None \<Rightarrow> nd_CreatedAt n | Some t \<Rightarrow> t) < now - grace) nodes)"

definition membershipNodeIDs :: "ArtifactPoolMembership \<Rightarrow> Node list \<Rightarrow> uuid set" where
  "membershipNodeIDs m nodes =
     (if am_AllNodes m then nd_ID ` set (filter isLive nodes)
      else let want = to_lower ` set (am_Nodes m)
           in nd_ID ` set (filter (\<lambda>n. isLive n \<and> to_lower (nd_Name n) \<in> want) nodes))"

text \<open>The 16 bytes of an identifier, most significant first.\<close>

definition uuid_bytes :: "uuid \<Rightarrow> byte list" where
  "uuid_bytes i = be_bytes 16 i"

definition string_bytes :: "string \<Rightarrow> byte list" where
  "string_bytes s = map (\<lambda>c. word_of_nat (of_char c)) s"

definition hrwWeight :: "(byte list \<Rightarrow> byte list) \<Rightarrow> string \<Rightarrow> uuid \<Rightarrow> byte list" where
  "hrwWeight sha256 digest nodeID = sha256 (string_bytes digest @ uuid_bytes nodeID)"

text \<open>The comparison of \<^verbatim>\<open>selectTargets\<close>: descending weight, then ascending identifier.\<close>

definition hrw_before :: "(byte list \<Rightarrow> byte list) \<Rightarrow> string \<Rightarrow> uuid \<Rightarrow> uuid \<Rightarrow> bool" where
  "hrw_before sha256 digest i j \<longleftrightarrow>
     (if hrwWeight sha256 digest i \<noteq> hrwWeight sha256 digest j then hrwWeight sha256 digest i > hrwWeight sha256 digest j
      else i < j)"

definition selectTargets :: "(byte list \<Rightarrow> byte list) \<Rightarrow> string \<Rightarrow> uuid list \<Rightarrow> int \<Rightarrow> uuid list" where
  "selectTargets sha256 digest eligible need =
     (if need \<le> 0 \<or> eligible = [] then []
      else let sorted = sort_stable (hrw_before sha256 digest) eligible
           in take (nat (if need > int (length sorted) then int (length sorted) else need)) sorted)"

subsection \<open>Durability\<close>

datatype durability = DurabilityUnknown | DurabilityDegraded | DurabilityReplicating | DurabilityDurable

primrec target_loop :: "Node list \<Rightarrow> uuid list \<Rightarrow> int \<Rightarrow> uuid set \<Rightarrow> (int \<times> uuid set) store_op" where
  "target_loop nodes [] k eligible = Ret (Inr (k, eligible))"
| "target_loop nodes (sid # sids) k eligible = bind (SnapshotByID sid) (\<lambda>r.
     case r of
       Inl e \<Rightarrow> if e = ErrNotFound then target_loop nodes sids k eligible else Ret (Inl e)
     | Inr snap \<Rightarrow>
         (case sn_ArtifactPoolName snap of
            None \<Rightarrow> target_loop nodes sids k eligible
          | Some name \<Rightarrow> bind (ArtifactPoolByName name) (\<lambda>r.
              case r of
                Inl e \<Rightarrow> if e = ErrNotFound then target_loop nodes sids k eligible else Ret (Inl e)
              | Inr pool \<Rightarrow>
                  let members = membershipNodeIDs (ap_Membership pool) nodes;
                      rf = if rf_All (ap_ReplicationFactor pool) then int (card members)
                           else rf_Count (ap_ReplicationFactor pool)
                  in target_loop nodes sids (if rf > k then rf else k) (eligible \<union> members))))"

definition blobPlacementTarget :: "string \<Rightarrow> Node list \<Rightarrow> (int \<times> uuid set) store_op" where
  "blobPlacementTarget digest nodes = bind_ok (SnapshotsReferencingBlob digest) (\<lambda>snapIDs.
     target_loop nodes snapIDs 1 {})"

definition liveHolders :: "string \<Rightarrow> uuid set \<Rightarrow> uuid list store_op" where
  "liveHolders digest live = bind_ok (BlobHolders digest) (\<lambda>holders.
     Ret (Inr (filter (\<lambda>h. h \<in> live) holders)))"

definition classifyDigest :: "int \<Rightarrow> int \<Rightarrow> int \<Rightarrow> durability" where
  "classifyDigest observed desired eligibleNotHolding =
     (if observed \<ge> desired then DurabilityDurable
      else if observed > 0 \<and> eligibleNotHolding > 0 then DurabilityReplicating
      else DurabilityDegraded)"

fun durabilityRank :: "durability \<Rightarrow> int" where
  "durabilityRank DurabilityDurable = 3"
| "durabilityRank DurabilityReplicating = 2"
| "durabilityRank DurabilityDegraded = 1"
| "durabilityRank DurabilityUnknown = 0"

definition weaker :: "durability \<Rightarrow> durability \<Rightarrow> durability" where
  "weaker a b = (if durabilityRank b < durabilityRank a then b else a)"

subsection \<open>The resolver of a page\<close>

text \<open>A cached \<open>None\<close> is a row that was not found.\<close>

record DurabilityResolver =
  dr_nodes :: "Node list"
  dr_live :: "uuid set"
  dr_nameByID :: "uuid \<Rightarrow> string option"
  dr_targetCache :: "string \<Rightarrow> (int \<times> uuid set) option"
  dr_holderCache :: "string \<Rightarrow> uuid list option"
  dr_snapCache :: "uuid \<Rightarrow> Snapshot option option"
  dr_poolCache :: "string \<Rightarrow> ArtifactPool option option"

type_synonym 'a cached = "(doc, agent_call, (store_err + 'a) \<times> DurabilityResolver) prog"

definition NewDurabilityResolver :: "DurabilityResolver store_op" where
  "NewDurabilityResolver = bind_ok AllNodes (\<lambda>nodes. Ret (Inr
     \<lparr>dr_nodes = nodes, dr_live = liveNodeIDs nodes, dr_nameByID = map_of (rev (map (\<lambda>n. (nd_ID n, nd_Name n)) nodes)),
      dr_targetCache = Map.empty, dr_holderCache = Map.empty, dr_snapCache = Map.empty, dr_poolCache = Map.empty\<rparr>))"

definition snapshotByID :: "uuid \<Rightarrow> DurabilityResolver \<Rightarrow> Snapshot option cached" where
  "snapshotByID i r =
     (case dr_snapCache r i of
        Some s \<Rightarrow> Ret (Inr s, r)
      | None \<Rightarrow> bind (SnapshotByID i) (\<lambda>x. Ret
          (case x of
             Inl e \<Rightarrow> if e = ErrNotFound then (Inr None, r\<lparr>dr_snapCache := (dr_snapCache r)(i \<mapsto> None)\<rparr>) else (Inl e, r)
           | Inr s \<Rightarrow> (Inr (Some s), r\<lparr>dr_snapCache := (dr_snapCache r)(i \<mapsto> Some s)\<rparr>))))"

definition poolByName :: "string \<Rightarrow> DurabilityResolver \<Rightarrow> ArtifactPool option cached" where
  "poolByName name r =
     (case dr_poolCache r name of
        Some p \<Rightarrow> Ret (Inr p, r)
      | None \<Rightarrow> bind (ArtifactPoolByName name) (\<lambda>x. Ret
          (case x of
             Inl e \<Rightarrow> if e = ErrNotFound then (Inr None, r\<lparr>dr_poolCache := (dr_poolCache r)(name \<mapsto> None)\<rparr>) else (Inl e, r)
           | Inr p \<Rightarrow> (Inr (Some p), r\<lparr>dr_poolCache := (dr_poolCache r)(name \<mapsto> Some p)\<rparr>))))"

primrec target_scan :: "uuid list \<Rightarrow> int \<Rightarrow> uuid set \<Rightarrow> DurabilityResolver \<Rightarrow> (int \<times> uuid set) cached" where
  "target_scan [] k eligible r = Ret (Inr (k, eligible), r)"
| "target_scan (sid # sids) k eligible r = bind (snapshotByID sid r) (\<lambda>(x, r).
     case x of
       Inl e \<Rightarrow> Ret (Inl e, r)
     | Inr None \<Rightarrow> target_scan sids k eligible r
     | Inr (Some snap) \<Rightarrow>
         (case sn_ArtifactPoolName snap of
            None \<Rightarrow> target_scan sids k eligible r
          | Some name \<Rightarrow> bind (poolByName name r) (\<lambda>(y, r).
              case y of
                Inl e \<Rightarrow> Ret (Inl e, r)
              | Inr None \<Rightarrow> target_scan sids k eligible r
              | Inr (Some pool) \<Rightarrow>
                  let members = membershipNodeIDs (ap_Membership pool) (dr_nodes r);
                      rf = if rf_All (ap_ReplicationFactor pool) then int (card members)
                           else rf_Count (ap_ReplicationFactor pool)
                  in target_scan sids (if rf > k then rf else k) (eligible \<union> members) r)))"

definition DurabilityResolver_target :: "string \<Rightarrow> DurabilityResolver \<Rightarrow> (int \<times> uuid set) cached" where
  "DurabilityResolver_target digest r =
     (case dr_targetCache r digest of
        Some t \<Rightarrow> Ret (Inr t, r)
      | None \<Rightarrow> bind (SnapshotsReferencingBlob digest) (\<lambda>x.
          case x of
            Inl e \<Rightarrow> Ret (Inl e, r)
          | Inr snapIDs \<Rightarrow> bind (target_scan snapIDs 1 {} r) (\<lambda>(y, r). Ret
              (case y of
                 Inl e \<Rightarrow> (Inl e, r)
               | Inr t \<Rightarrow> (Inr t, r\<lparr>dr_targetCache := (dr_targetCache r)(digest \<mapsto> t)\<rparr>)))))"

definition DurabilityResolver_holders :: "string \<Rightarrow> DurabilityResolver \<Rightarrow> uuid list cached" where
  "DurabilityResolver_holders digest r =
     (case dr_holderCache r digest of
        Some h \<Rightarrow> Ret (Inr h, r)
      | None \<Rightarrow> bind (BlobHolders digest) (\<lambda>x. Ret
          (case x of
             Inl e \<Rightarrow> (Inl e, r)
           | Inr all \<Rightarrow>
               let out = filter (\<lambda>h. h \<in> dr_live r) all
               in (Inr out, r\<lparr>dr_holderCache := (dr_holderCache r)(digest \<mapsto> out)\<rparr>))))"

text \<open>The names to record, and the set of holders.\<close>

definition collectHolderNames :: "uuid list \<Rightarrow> (uuid \<Rightarrow> string option) \<Rightarrow> string set \<Rightarrow> uuid set \<times> string set" where
  "collectHolderNames hs nameByID names =
     (set hs, names \<union> Set.filter (\<lambda>name. name \<noteq> []) ((\<lambda>h. case nameByID h of None \<Rightarrow> [] | Some name \<Rightarrow> name) ` set hs))"

definition eligibleNotHolding :: "uuid set \<Rightarrow> uuid set \<Rightarrow> int" where
  "eligibleNotHolding eligible held = int (card (eligible - held))"

definition sortedKeys :: "string set \<Rightarrow> string list" where
  "sortedKeys names = sorted_list_of_set names"

text \<open>The loop over the disks, with the weakest status, the largest target, the smallest count (or -1) and the names so far.\<close>

primrec resolve_disks ::
    "SnapshotDisk list \<Rightarrow> durability \<Rightarrow> int \<Rightarrow> int \<Rightarrow> string set \<Rightarrow> DurabilityResolver \<Rightarrow>
     (durability \<times> int \<times> int \<times> string list) cached" where
  "resolve_disks [] status desired minObserved names r =
     Ret (Inr (status, desired, if minObserved < 0 then 0 else minObserved, sortedKeys names), r)"
| "resolve_disks (d # ds) status desired minObserved names r = bind (DurabilityResolver_target (sd_SHA256 d) r) (\<lambda>(x, r).
     case x of
       Inl e \<Rightarrow> Ret (Inl e, r)
     | Inr (k, eligible) \<Rightarrow> bind (DurabilityResolver_holders (sd_SHA256 d) r) (\<lambda>(y, r).
         case y of
           Inl e \<Rightarrow> Ret (Inl e, r)
         | Inr hs \<Rightarrow>
             let obs = int (length hs);
                 (held, names) = collectHolderNames hs (dr_nameByID r) names
             in resolve_disks ds (weaker status (classifyDigest obs k (eligibleNotHolding eligible held)))
                  (if k > desired then k else desired)
                  (if minObserved < 0 \<or> obs < minObserved then obs else minObserved) names r))"

definition Resolve :: "Snapshot \<Rightarrow> DurabilityResolver \<Rightarrow> (durability \<times> int \<times> int \<times> string list) cached" where
  "Resolve snap r =
     (if sn_Disks snap = [] then Ret (Inr (DurabilityUnknown, 0, 0, []), r)
      else resolve_disks (sn_Disks snap) DurabilityDurable 0 (-1) {} r)"

definition SnapshotDurability :: "Snapshot \<Rightarrow> (durability \<times> int \<times> int \<times> string list) store_op" where
  "SnapshotDurability snap =
     (if sn_Disks snap = [] then Ret (Inr (DurabilityUnknown, 0, 0, []))
      else bind_ok NewDurabilityResolver (\<lambda>r. bind (Resolve snap r) (\<lambda>(x, _). Ret x)))"

subsection \<open>The reconcile pass\<close>

definition replicateMaxAttempts :: int where
  "replicateMaxAttempts = 25"

definition replicateInflightTTL :: duration where
  "replicateInflightTTL = seconds (5 * 60)"

definition reclaimMaxAttempts :: int where
  "reclaimMaxAttempts = 25"

definition reclaimInflightTTL :: duration where
  "reclaimInflightTTL = seconds (5 * 60)"

definition unionDigests :: "string list \<Rightarrow> string list \<Rightarrow> string list" where
  "unionDigests a b = remdups_first (a @ b)"

definition blobTask :: "uuid \<Rightarrow> string \<Rightarrow> int \<Rightarrow> CreateTaskParams" where
  "blobTask i kind attempts =
     \<lparr>ct_ID = i, ct_Type = kind, ct_Status = TaskStatusPending, ct_ResourceType = ''artifact_blob'', ct_ResourceID = None,
      ct_Args = ArgsJSON None, ct_MaxAttempts = attempts, ct_CreatedBy = None, ct_IdempotencyUserID = None,
      ct_IdempotencyKey = None, ct_IdempotencyHash = []\<rparr>"

primrec prune_loop :: "string \<Rightarrow> uuid set \<Rightarrow> bool \<Rightarrow> uuid list \<Rightarrow> (doc, agent_call, uuid list) prog" where
  "prune_loop digest eligible held [] = Ret []"
| "prune_loop digest eligible held (m # ms) =
     (if m \<in> eligible \<and> held then
        bind (RemoveBlobPlacement digest m) (\<lambda>r.
          case r of
            Inl _ \<Rightarrow> bind (prune_loop digest eligible held ms) (\<lambda>kept. Ret (m # kept))
          | Inr _ \<Rightarrow> prune_loop digest eligible held ms)
      else bind (prune_loop digest eligible held ms) (\<lambda>kept. Ret (m # kept)))"

definition pruneDeadMembers :: "string \<Rightarrow> uuid list \<Rightarrow> uuid set \<Rightarrow> uuid set \<Rightarrow> (doc, agent_call, uuid list) prog" where
  "pruneDeadMembers digest members eligible holderSet =
     prune_loop digest eligible (length (filter (\<lambda>m. m \<in> holderSet) members) > 0) members"

primrec add_loop :: "string \<Rightarrow> uuid list \<Rightarrow> uuid list \<Rightarrow> (doc, agent_call, uuid list) prog" where
  "add_loop digest [] members = Ret members"
| "add_loop digest (t # ts) members = bind (AddBlobPlacement digest t) (\<lambda>r.
     case r of Inl _ \<Rightarrow> add_loop digest ts members | Inr _ \<Rightarrow> add_loop digest ts (members @ [t]))"

definition addTargets ::
    "(byte list \<Rightarrow> byte list) \<Rightarrow> (uuid set \<Rightarrow> uuid list) \<Rightarrow> string \<Rightarrow> uuid set \<Rightarrow> uuid set \<Rightarrow> uuid list \<Rightarrow> int \<Rightarrow>
     (doc, agent_call, uuid list) prog" where
  "addTargets sha256 ord digest eligible memberSet members need =
     (let candidates = filter (\<lambda>i. i \<notin> memberSet) (ord eligible)
      in add_loop digest (selectTargets sha256 digest candidates need) members)"

primrec enqueueReplicas :: "string \<Rightarrow> uuid list \<Rightarrow> uuid set \<Rightarrow> uuid set \<Rightarrow> (doc, agent_call, unit) prog" where
  "enqueueReplicas digest [] live holderSet = Ret ()"
| "enqueueReplicas digest (m # ms) live holderSet =
     (if m \<notin> live \<or> m \<in> holderSet then enqueueReplicas digest ms live holderSet
      else bind (TryBeginReplicate digest m replicateInflightTTL) (\<lambda>r.
        case r of
          Inl _ \<Rightarrow> enqueueReplicas digest ms live holderSet
        | Inr began \<Rightarrow>
            if \<not> began then enqueueReplicas digest ms live holderSet
            else Fresh (\<lambda>taskID.
              bind (EnqueueTask (blobTask taskID ''artifact.replicate'' replicateMaxAttempts) (ReplicateArgs taskID digest m)) (\<lambda>r.
                case r of
                  Inl _ \<Rightarrow> bind (EndReplicate digest m) (\<lambda>_. enqueueReplicas digest ms live holderSet)
                | Inr _ \<Rightarrow> enqueueReplicas digest ms live holderSet))))"

primrec reclaimSurplus :: "string \<Rightarrow> uuid list \<Rightarrow> uuid set \<Rightarrow> (doc, agent_call, unit) prog" where
  "reclaimSurplus digest [] keepers = Ret ()"
| "reclaimSurplus digest (h # hs) keepers =
     (if h \<in> keepers then reclaimSurplus digest hs keepers
      else bind (TryBeginReclaim digest h reclaimInflightTTL) (\<lambda>r.
        case r of
          Inl _ \<Rightarrow> reclaimSurplus digest hs keepers
        | Inr began \<Rightarrow>
            if \<not> began then reclaimSurplus digest hs keepers
            else Fresh (\<lambda>taskID.
              bind (EnqueueTask (blobTask taskID ''artifact.reclaim'' reclaimMaxAttempts) (ReclaimArgs taskID digest h)) (\<lambda>r.
                case r of
                  Inl _ \<Rightarrow> bind (EndReclaim digest h) (\<lambda>_. reclaimSurplus digest hs keepers)
                | Inr _ \<Rightarrow> reclaimSurplus digest hs keepers))))"

primrec pruneObservedAbsentMembers :: "string \<Rightarrow> uuid list \<Rightarrow> uuid set \<Rightarrow> uuid set \<Rightarrow> (doc, agent_call, unit) prog" where
  "pruneObservedAbsentMembers digest [] live holderSet = Ret ()"
| "pruneObservedAbsentMembers digest (m # ms) live holderSet =
     (if m \<in> live \<and> m \<notin> holderSet
      then bind (RemoveBlobPlacement digest m) (\<lambda>_. pruneObservedAbsentMembers digest ms live holderSet)
      else pruneObservedAbsentMembers digest ms live holderSet)"

primrec trimNonKeeperMembers :: "string \<Rightarrow> uuid list \<Rightarrow> uuid set \<Rightarrow> (doc, agent_call, unit) prog" where
  "trimNonKeeperMembers digest [] keepers = Ret ()"
| "trimNonKeeperMembers digest (m # ms) keepers =
     (if m \<in> keepers then trimNonKeeperMembers digest ms keepers
      else bind (RemoveBlobPlacement digest m) (\<lambda>_. trimNonKeeperMembers digest ms keepers))"

text \<open>What one pass over a digest does once it has read the store.\<close>

definition reconcile_plan ::
    "(byte list \<Rightarrow> byte list) \<Rightarrow> (uuid set \<Rightarrow> uuid list) \<Rightarrow> string \<Rightarrow> uuid set \<Rightarrow> uuid set \<Rightarrow>
     uuid list \<Rightarrow> int \<times> uuid set \<Rightarrow> uuid list \<Rightarrow> uuid list \<Rightarrow> unit store_op" where
  "reconcile_plan sha256 ord digest live rebalanceEligible refs tgt members hs =
     (let (k, eligible) = tgt; holderSet = set hs
      in bind (pruneDeadMembers digest members rebalanceEligible holderSet) (\<lambda>members.
           if refs = [] then
             bind (reclaimSurplus digest hs {}) (\<lambda>_.
             bind (pruneObservedAbsentMembers digest members live holderSet) (\<lambda>_. Ret (Inr ())))
           else
             let need = k - int (length (filter (\<lambda>m. m \<in> live) members))
             in bind (if need > 0 \<and> hs \<noteq> [] then addTargets sha256 ord digest eligible (set members) members need
                      else Ret members) (\<lambda>members.
                  if hs = [] then Ret (Inr ())
                  else if int (length hs) > k then
                    let keepers = set (selectTargets sha256 digest hs k)
                    in bind (reclaimSurplus digest hs keepers) (\<lambda>_.
                       bind (trimNonKeeperMembers digest members keepers) (\<lambda>_. Ret (Inr ())))
                  else bind (enqueueReplicas digest members live holderSet) (\<lambda>_. Ret (Inr ())))))"

definition reconcileDigest ::
    "(byte list \<Rightarrow> byte list) \<Rightarrow> (uuid set \<Rightarrow> uuid list) \<Rightarrow> string \<Rightarrow> Node list \<Rightarrow> uuid set \<Rightarrow> uuid set \<Rightarrow> unit store_op" where
  "reconcileDigest sha256 ord digest nodes live rebalanceEligible =
     bind_ok (SnapshotsReferencingBlob digest) (\<lambda>refs.
     bind_ok (blobPlacementTarget digest nodes) (\<lambda>tgt.
     bind_ok (BlobPlacements digest) (\<lambda>members.
     bind_ok (liveHolders digest live) (\<lambda>hs.
       reconcile_plan sha256 ord digest live rebalanceEligible refs tgt members hs))))"

primrec upsert_each :: "uuid list \<Rightarrow> (doc, agent_call, unit) prog" where
  "upsert_each [] = Ret ()"
| "upsert_each (i # is) = bind (UpsertNodeBlobInventory i []) (\<lambda>_. upsert_each is)"

primrec reconcile_each ::
    "(byte list \<Rightarrow> byte list) \<Rightarrow> (uuid set \<Rightarrow> uuid list) \<Rightarrow> Node list \<Rightarrow> uuid set \<Rightarrow> uuid set \<Rightarrow> string list \<Rightarrow>
     (doc, agent_call, unit) prog" where
  "reconcile_each sha256 ord nodes live eligible [] = Ret ()"
| "reconcile_each sha256 ord nodes live eligible (d # ds) =
     bind (reconcileDigest sha256 ord d nodes live eligible) (\<lambda>_. reconcile_each sha256 ord nodes live eligible ds)"

definition ReconcileFunc :: "(byte list \<Rightarrow> byte list) \<Rightarrow> (uuid set \<Rightarrow> uuid list) \<Rightarrow> duration \<Rightarrow> unit store_op" where
  "ReconcileFunc sha256 ord grace =
     bind_ok AllPlacementDigests (\<lambda>placed.
     bind_ok AllNodeBlobDigests (\<lambda>observed.
     bind_ok AllNodes (\<lambda>nodes. Now (\<lambda>now.
       let live = liveNodeIDs nodes;
           eligible = rebalanceEligibleNodeIDs nodes grace now
       in bind (upsert_each (ord eligible)) (\<lambda>_.
          bind (reconcile_each sha256 ord nodes live eligible (unionDigests placed observed)) (\<lambda>_. Ret (Inr ())))))))"

subsection \<open>The workers\<close>

text \<open>The error envelope of a failed task is kept as its code.\<close>

definition finalizeReclaimSuccess :: "uuid \<Rightarrow> unit store_op" where
  "finalizeReclaimSuccess taskID = UpdateTaskFinalized taskID TaskStatusSuccess (Some ''{}'') None"

definition failReclaim :: "uuid \<Rightarrow> store_err \<Rightarrow> unit store_op" where
  "failReclaim taskID cause = bind (UpdateTaskFinalized taskID TaskStatusFailed None (Some ''reclaim_failed'')) (\<lambda>r. Ret
     (case r of Inl e \<Rightarrow> Inl e | Inr _ \<Rightarrow> Inl cause))"

definition still_safe :: "int \<Rightarrow> uuid list \<Rightarrow> uuid \<Rightarrow> bool" where
  "still_safe desired hs target = (if target \<notin> set hs then False else int (length hs) - 1 \<ge> desired)"

definition reclaimStillSafe :: "string \<Rightarrow> uuid \<Rightarrow> bool store_op" where
  "reclaimStillSafe digest target =
     bind_ok AllNodes (\<lambda>nodes.
       let live = liveNodeIDs nodes
       in bind_ok (SnapshotsReferencingBlob digest) (\<lambda>refs.
          bind_ok (if refs \<noteq> [] then bind_ok (blobPlacementTarget digest nodes) (\<lambda>(k, _). Ret (Inr k)) else Ret (Inr 0)) (\<lambda>desired.
          bind_ok (liveHolders digest live) (\<lambda>hs. Ret (Inr (still_safe desired hs target))))))"

definition runReclaim :: "uuid \<Rightarrow> string \<Rightarrow> uuid \<Rightarrow> unit store_op" where
  "runReclaim taskID digest target = bind_ok (UpdateTaskRunning taskID) (\<lambda>alreadyTerminal.
     if alreadyTerminal then Ret (Inr ())
     else bind
       (bind (reclaimStillSafe digest target) (\<lambda>r.
          case r of
            Inl e \<Rightarrow> failReclaim taskID e
          | Inr safe \<Rightarrow>
              if \<not> safe then finalizeReclaimSuccess taskID
              else Agent (AgentReclaim target digest) (\<lambda>res.
                case res of
                  Some msg \<Rightarrow> failReclaim taskID (ErrAgent msg)
                | None \<Rightarrow> finalizeReclaimSuccess taskID)))
       (\<lambda>result. bind (EndReclaim digest target) (\<lambda>_. Ret result)))"

definition ReclaimHandler :: "JobArgs \<Rightarrow> unit store_op" where
  "ReclaimHandler args =
     (case args of ReclaimArgs taskID digest target \<Rightarrow> runReclaim taskID digest target | _ \<Rightarrow> Ret (Inl ErrCorrupt))"

definition failReplicate :: "uuid \<Rightarrow> store_err \<Rightarrow> unit store_op" where
  "failReplicate taskID cause = bind (UpdateTaskFinalized taskID TaskStatusFailed None (Some ''replicate_failed'')) (\<lambda>r. Ret
     (case r of Inl e \<Rightarrow> Inl e | Inr _ \<Rightarrow> Inl cause))"

definition runReplicate :: "uuid \<Rightarrow> string \<Rightarrow> uuid \<Rightarrow> unit store_op" where
  "runReplicate taskID digest target = bind_ok (UpdateTaskRunning taskID) (\<lambda>alreadyTerminal.
     if alreadyTerminal then Ret (Inr ())
     else bind
       (Agent (BrokerPull digest target) (\<lambda>res.
          case res of
            Some msg \<Rightarrow> failReplicate taskID (ErrAgent msg)
          | None \<Rightarrow> UpdateTaskFinalized taskID TaskStatusSuccess (Some ''{}'') None))
       (\<lambda>result. bind (EndReplicate digest target) (\<lambda>_. Ret result)))"

definition ReplicateHandler :: "JobArgs \<Rightarrow> unit store_op" where
  "ReplicateHandler args =
     (case args of ReplicateArgs taskID digest target \<Rightarrow> runReplicate taskID digest target | _ \<Rightarrow> Ret (Inl ErrCorrupt))"

end
