(* ===== verification/ReplicationProps.thy ===== *)
theory ReplicationProps
  imports Replication TaskProps
begin

text \<open>
  Replication: the rendezvous choice of holders, what a reconcile pass enqueues, and the safety of
  deleting surplus copies.
\<close>

subsection \<open>Rendezvous hashing\<close>

interpretation hrw: strict_total_order "hrw_before sha256 digest" UNIV for sha256 digest
  by unfold_locales (auto simp: hrw_before_def split: if_splits)

context strict_total_order
begin

text \<open>An element is among the first \<open>n\<close> of the sorted list when fewer than \<open>n\<close> elements precede it.\<close>

lemma in_take_sorted:
  assumes "distinct xs" "set xs \<subseteq> carrier"
  shows "y \<in> set (take n (sort_stable lt xs)) \<longleftrightarrow> y \<in> set xs \<and> card {z \<in> set xs. lt z y} < n"
proof -
  define ys where "ys = sort_stable lt xs"
  have ys: "sorted_wrt lt ys" "distinct ys" "set ys = set xs"
    using sort_stable_strict [OF assms(2,1)] assms by (simp_all add: ys_def)
  have rank: "card {z \<in> set xs. lt z (ys ! m)} = m" if m: "m < length ys" for m
  proof -
    have s: "sorted_wrt lt (take m ys @ ys ! m # drop (Suc m) ys)" using ys(1) id_take_nth_drop [OF m] by simp
    have set: "set xs = set (take m ys) \<union> insert (ys ! m) (set (drop (Suc m) ys))"
      using arg_cong [OF id_take_nth_drop [OF m], of set] ys(3) by simp
    have c: "z \<in> carrier" if "z \<in> set xs" for z using that assms(2) by blast
    have "\<not> lt z (ys ! m)" if "z \<in> insert (ys ! m) (set (drop (Suc m) ys))" for z
      using that s c set less_asym less_irrefl by (auto simp: sorted_wrt_append)
    moreover have "lt z (ys ! m)" if "z \<in> set (take m ys)" for z
      using that s by (auto simp: sorted_wrt_append)
    ultimately have "{z \<in> set xs. lt z (ys ! m)} = set (take m ys)" using set by blast
    then show ?thesis using ys(2) m by (simp add: distinct_card)
  qed
  show ?thesis
    unfolding ys_def [symmetric]
  proof
    assume "y \<in> set (take n ys)"
    then obtain m where "m < n" "m < length ys" "y = ys ! m" by (auto simp: in_set_conv_nth)
    then show "y \<in> set xs \<and> card {z \<in> set xs. lt z y} < n" using rank ys(3) nth_mem by metis
  next
    assume *: "y \<in> set xs \<and> card {z \<in> set xs. lt z y} < n"
    then obtain m where "m < length ys" "y = ys ! m" using ys(3) by (metis in_set_conv_nth)
    with * rank show "y \<in> set (take n ys)" by (auto simp: in_set_conv_nth)
  qed
qed

end

lemma selectTargets_take: "selectTargets sha256 d E n = take (nat n) (sort_stable (hrw_before sha256 d) E)"
  by (auto simp: selectTargets_def Let_def)

lemma selectTargets_iff:
  "distinct E \<Longrightarrow> y \<in> set (selectTargets sha256 d E n) \<longleftrightarrow>
     y \<in> set E \<and> int (card {z \<in> set E. hrw_before sha256 d z y}) < n"
  by (auto simp: selectTargets_take hrw.in_take_sorted)

lemma selectTargets_subset: "set (selectTargets sha256 d E n) \<subseteq> set E"
  by (metis selectTargets_take set_sort_stable set_take_subset)

lemma selectTargets_length: "length (selectTargets sha256 d E n) = min (nat n) (length E)"
  by (simp add: selectTargets_take min.commute)

lemma selectTargets_distinct: "distinct E \<Longrightarrow> distinct (selectTargets sha256 d E n)"
  by (simp add: selectTargets_take)

lemma selectTargets_best:
  assumes "distinct E" "y \<in> set (selectTargets sha256 d E n)" "z \<in> set E" "z \<notin> set (selectTargets sha256 d E n)"
  shows "hrw_before sha256 d y z"
proof (rule ccontr)
  assume "\<not> hrw_before sha256 d y z"
  moreover have "y \<noteq> z" using assms by auto
  ultimately have zy: "hrw_before sha256 d z y" using hrw.less_total by blast
  then have "{w \<in> set E. hrw_before sha256 d w z} \<subseteq> {w \<in> set E. hrw_before sha256 d w y}"
    using hrw.less_trans by blast
  then have "card {w \<in> set E. hrw_before sha256 d w z} \<le> card {w \<in> set E. hrw_before sha256 d w y}"
    by (intro card_mono) auto
  with assms(2-4) show False by (auto simp: selectTargets_iff [OF assms(1)])
qed

lemma selectTargets_join:
  assumes "distinct E" "x \<notin> set E"
  shows "set (selectTargets sha256 d (x # E) n) \<subseteq> insert x (set (selectTargets sha256 d E n))"
proof
  fix y assume "y \<in> set (selectTargets sha256 d (x # E) n)"
  then have y: "y = x \<or> y \<in> set E" "int (card {z \<in> set (x # E). hrw_before sha256 d z y}) < n"
    using assms by (simp_all add: selectTargets_iff)
  have "card {z \<in> set E. hrw_before sha256 d z y} \<le> card {z \<in> set (x # E). hrw_before sha256 d z y}"
    by (intro card_mono) auto
  with y show "y \<in> insert x (set (selectTargets sha256 d E n))"
    using assms(1) by (auto simp: selectTargets_iff)
qed

lemma selectTargets_card: "distinct E \<Longrightarrow> card (set (selectTargets sha256 d E n)) = min (nat n) (length E)"
  using distinct_card [OF selectTargets_distinct] selectTargets_length by metis

lemma selectTargets_leave:
  assumes "distinct E" "x \<notin> set E"
  shows "card (set (selectTargets sha256 d E n) - set (selectTargets sha256 d (x # E) n)) \<le> 1"
proof -
  define S T where "S = set (selectTargets sha256 d E n)" and "T = set (selectTargets sha256 d (x # E) n)"
  have fin: "finite S" "finite T" by (simp_all add: S_def T_def)
  have "card S = min (nat n) (length E)" "card T = min (nat n) (length (x # E))"
    unfolding S_def T_def using assms by (intro selectTargets_card; simp)+
  then have le: "card S \<le> card T" by simp
  have "T - {x} \<subseteq> S \<inter> T" using selectTargets_join [OF assms] by (auto simp: S_def T_def)
  then have "card (T - {x}) \<le> card (S \<inter> T)" using fin by (intro card_mono) auto
  moreover have "card T \<le> Suc (card (T - {x}))" using fin by (cases "x \<in> T") (simp_all add: card_Diff_singleton)
  moreover have "card (S - T) = card S - card (S \<inter> T)" using fin by (simp add: card_Diff_subset_Int)
  ultimately have "card (S - T) \<le> 1" using le by linarith
  then show ?thesis by (simp only: S_def T_def)
qed

text \<open>
  C21. The holders of a blob are chosen by rendezvous hashing, whatever the hash function: the
  choice does not depend on the order of the candidates, it has as many nodes as asked for or as
  there are, every chosen node ranks before every other candidate, and when one more node becomes
  a candidate, only that node can enter the choice and at most one node leaves it.
\<close>

theorem selectTargets_rendezvous:
  assumes "distinct E" "x \<notin> set E"
  shows "(\<forall>E'. mset E' = mset E \<longrightarrow> selectTargets sha256 d E' n = selectTargets sha256 d E n) \<and>
    length (selectTargets sha256 d E n) = min (nat n) (length E) \<and>
    (\<forall>y\<in>set (selectTargets sha256 d E n). \<forall>z\<in>set E - set (selectTargets sha256 d E n). hrw_before sha256 d y z) \<and>
    set (selectTargets sha256 d (x # E) n) \<subseteq> insert x (set (selectTargets sha256 d E n)) \<and>
    card (set (selectTargets sha256 d E n) - set (selectTargets sha256 d (x # E) n)) \<le> 1"
proof (intro conjI allI impI ballI)
  fix E' assume "mset E' = mset E"
  then have "sort_stable (hrw_before sha256 d) E' = sort_stable (hrw_before sha256 d) E"
    by (rule hrw.sort_stable_perm) simp
  then show "selectTargets sha256 d E' n = selectTargets sha256 d E n" by (simp add: selectTargets_take)
next
  fix y z
  assume "y \<in> set (selectTargets sha256 d E n)" "z \<in> set E - set (selectTargets sha256 d E n)"
  then show "hrw_before sha256 d y z" using selectTargets_best [OF assms(1)] by blast
next
  show "card (set (selectTargets sha256 d E n) - set (selectTargets sha256 d (x # E) n)) \<le> 1"
    by (rule selectTargets_leave [OF assms])
qed (rule selectTargets_length, rule selectTargets_join [OF assms])

theorem selectTargets_rendezvous_witness:
  "set (selectTargets id ''d'' [13, 11, 12] 2) \<subseteq> insert 13 (set (selectTargets id ''d'' [11, 12] 2)) \<and>
   selectTargets id ''d'' [12, 11] 2 = selectTargets id ''d'' [11, 12] 2"
proof -
  have "distinct [11, 12 :: uuid]" "13 \<notin> set [11, 12 :: uuid]" by simp_all
  note r = selectTargets_rendezvous [OF this, of id "''d''" 2]
  have "mset [12, 11 :: uuid] = mset [11, 12]" by simp
  with r have "selectTargets id ''d'' [12, 11] 2 = selectTargets id ''d'' [11, 12] 2" by blast
  moreover from r have "set (selectTargets id ''d'' [13, 11, 12] 2) \<subseteq> insert 13 (set (selectTargets id ''d'' [11, 12] 2))"
    by (elim conjE)
  ultimately show ?thesis by (intro conjI)
qed

subsection \<open>Surplus copies\<close>

text \<open>
  The copies of one blob: the nodes that store it, the nodes whose stored inventory lists it, the
  inventory reports on their way to the control plane (at most one per node), and the nodes that
  some pass has ever chosen to delete the blob from. The set of live nodes \<open>L\<close> and the target \<open>k\<close>
  stay as they are.
\<close>

record copies =
  cp_stored :: "uuid set"
  cp_seen :: "uuid set"
  cp_report :: "uuid \<Rightarrow> bool option"
  cp_chosen :: "uuid set"

inductive copies_step :: "(byte list \<Rightarrow> byte list) \<Rightarrow> string \<Rightarrow> uuid set \<Rightarrow> int \<Rightarrow> copies \<Rightarrow> copies \<Rightarrow> bool"
  for sha256 digest L k where
  cp_pull: "copies_step sha256 digest L k c (c\<lparr>cp_stored := insert n (cp_stored c)\<rparr>)"
| cp_send: "cp_report c n = None \<Longrightarrow>
    copies_step sha256 digest L k c (c\<lparr>cp_report := (cp_report c)(n \<mapsto> n \<in> cp_stored c)\<rparr>)"
| cp_deliver: "cp_report c n = Some b \<Longrightarrow>
    copies_step sha256 digest L k c (c\<lparr>cp_report := (cp_report c)(n := None),
      cp_seen := (if b then insert n (cp_seen c) else cp_seen c - {n})\<rparr>)"
| cp_lost: "copies_step sha256 digest L k c (c\<lparr>cp_report := (cp_report c)(n := None)\<rparr>)"
| cp_forget: "n \<notin> L \<Longrightarrow> copies_step sha256 digest L k c (c\<lparr>cp_seen := cp_seen c - {n}\<rparr>)"
| cp_choose: "distinct hs \<Longrightarrow> set hs = cp_seen c \<inter> L \<Longrightarrow> int (length hs) > k \<Longrightarrow>
    X \<subseteq> set hs - set (selectTargets sha256 digest hs k) \<Longrightarrow>
    copies_step sha256 digest L k c (c\<lparr>cp_chosen := cp_chosen c \<union> X\<rparr>)"
| cp_delete: "n \<in> cp_chosen c \<Longrightarrow> copies_step sha256 digest L k c (c\<lparr>cp_stored := cp_stored c - {n}\<rparr>)"

text \<open>The copies that count: stored, listed and on a live node.\<close>

definition counted :: "uuid set \<Rightarrow> copies \<Rightarrow> uuid set" where
  "counted L c = cp_stored c \<inter> cp_seen c \<inter> L"

definition copies_ok :: "(byte list \<Rightarrow> byte list) \<Rightarrow> string \<Rightarrow> uuid set \<Rightarrow> int \<Rightarrow> copies \<Rightarrow> bool" where
  "copies_ok sha256 digest L k c \<longleftrightarrow>
     (\<forall>n. (n \<in> cp_seen c \<or> cp_report c n = Some True) \<and> n \<notin> cp_stored c \<longrightarrow> n \<in> cp_chosen c) \<and>
     (\<forall>n. cp_report c n = Some False \<and> n \<in> cp_seen c \<longrightarrow> n \<in> cp_chosen c) \<and>
     (\<forall>x\<in>cp_chosen c. k \<le> int (card {z \<in> counted L c. hrw_before sha256 digest z x})) \<and>
     k \<le> int (card (counted L c))"

lemma chosen_leaves:
  assumes "finite C" "k \<le> int (card {z \<in> C. hrw_before sha256 d z n})" "k \<le> int (card {z \<in> C. hrw_before sha256 d z x})"
  shows "k \<le> int (card {z \<in> C - {n}. hrw_before sha256 d z x})" "k \<le> int (card (C - {n}))"
proof -
  have n: "{z \<in> C. hrw_before sha256 d z n} \<subseteq> C - {n}" using hrw.less_irrefl by blast
  then have "card {z \<in> C. hrw_before sha256 d z n} \<le> card (C - {n})" using assms(1) by (intro card_mono) auto
  with assms(2) show "k \<le> int (card (C - {n}))" by simp
  show "k \<le> int (card {z \<in> C - {n}. hrw_before sha256 d z x})"
  proof (cases "hrw_before sha256 d n x")
    case True
    then have "{z \<in> C. hrw_before sha256 d z n} \<subseteq> {z \<in> C - {n}. hrw_before sha256 d z x}"
      using n hrw.less_trans by blast
    then have "card {z \<in> C. hrw_before sha256 d z n} \<le> card {z \<in> C - {n}. hrw_before sha256 d z x}"
      using assms(1) by (intro card_mono) auto
    with assms(2) show ?thesis by simp
  next
    case False
    then have "{z \<in> C. hrw_before sha256 d z x} = {z \<in> C - {n}. hrw_before sha256 d z x}" by blast
    with assms(3) show ?thesis by simp
  qed
qed

lemma more_counted:
  assumes "finite D" "C \<subseteq> D" "k \<le> int (card {z \<in> C. hrw_before sha256 d z x})"
  shows "k \<le> int (card {z \<in> D. hrw_before sha256 d z x})"
proof -
  have "card {z \<in> C. hrw_before sha256 d z x} \<le> card {z \<in> D. hrw_before sha256 d z x}"
    using assms(1,2) by (intro card_mono) auto
  with assms(3) show ?thesis by simp
qed

text \<open>A listed node that a pass chooses has enough counted copies before it.\<close>

lemma choose_licensed:
  assumes ok: "copies_ok sha256 d L k c" and fin: "finite L"
    and hs: "distinct hs" "set hs = cp_seen c \<inter> L" and x: "x \<in> set hs" "x \<notin> set (selectTargets sha256 d hs k)"
  shows "k \<le> int (card {z \<in> counted L c. hrw_before sha256 d z x})"
proof (cases "\<exists>w\<in>set hs. hrw_before sha256 d w x \<and> w \<notin> cp_stored c")
  case True
  then obtain w where w: "w \<in> set hs" "hrw_before sha256 d w x" "w \<notin> cp_stored c" by blast
  with ok hs(2) have "w \<in> cp_chosen c" by (auto simp: copies_ok_def)
  with ok have "k \<le> int (card {z \<in> counted L c. hrw_before sha256 d z w})" by (auto simp: copies_ok_def)
  moreover have "card {z \<in> counted L c. hrw_before sha256 d z w} \<le> card {z \<in> counted L c. hrw_before sha256 d z x}"
    using w(2) hrw.less_trans fin by (intro card_mono) (auto simp: counted_def)
  ultimately show ?thesis by linarith
next
  case False
  then have "{z \<in> set hs. hrw_before sha256 d z x} = {z \<in> counted L c. hrw_before sha256 d z x}"
    using hs(2) by (auto simp: counted_def)
  with x show ?thesis by (auto simp: selectTargets_iff [OF hs(1)])
qed

lemma copies_ok_step:
  assumes "copies_step sha256 d L k c c'" "copies_ok sha256 d L k c" "finite L"
  shows "copies_ok sha256 d L k c'"
proof -
  have fin: "finite (counted L x)" for x using assms(3) by (simp add: counted_def)
  have grow: "copies_ok sha256 d L k c'" if "counted L c \<subseteq> counted L c'" "cp_chosen c' = cp_chosen c"
      "\<And>n. (n \<in> cp_seen c' \<or> cp_report c' n = Some True) \<and> n \<notin> cp_stored c' \<Longrightarrow> n \<in> cp_chosen c"
      "\<And>n. cp_report c' n = Some False \<and> n \<in> cp_seen c' \<Longrightarrow> n \<in> cp_chosen c"
  proof -
    have "card (counted L c) \<le> card (counted L c')" using that(1) fin by (intro card_mono)
    moreover have "k \<le> int (card (counted L c))"
      "\<And>x. x \<in> cp_chosen c \<Longrightarrow> k \<le> int (card {z \<in> counted L c. hrw_before sha256 d z x})"
      using assms(2) by (simp_all add: copies_ok_def)
    ultimately show ?thesis
      unfolding copies_ok_def that(2) using that(3,4) more_counted [OF fin that(1)] by (intro conjI allI impI ballI) auto
  qed
  have shrink: "copies_ok sha256 d L k c'" if "counted L c' = counted L c - {n}" "n \<in> cp_chosen c" "cp_chosen c' = cp_chosen c"
      "\<And>n. (n \<in> cp_seen c' \<or> cp_report c' n = Some True) \<and> n \<notin> cp_stored c' \<Longrightarrow> n \<in> cp_chosen c"
      "\<And>n. cp_report c' n = Some False \<and> n \<in> cp_seen c' \<Longrightarrow> n \<in> cp_chosen c" for n
  proof -
    have "\<And>x. x \<in> cp_chosen c \<Longrightarrow> k \<le> int (card {z \<in> counted L c. hrw_before sha256 d z x})"
      using assms(2) by (simp add: copies_ok_def)
    note leaves = chosen_leaves [OF fin this [OF that(2)] this]
    show ?thesis
      unfolding copies_ok_def that(1,3) using that(2,4,5) leaves by (intro conjI allI impI ballI) auto
  qed
  from assms(1) show ?thesis
  proof cases
    case (cp_pull n)
    with assms(2) show ?thesis by (intro grow) (auto simp: copies_ok_def counted_def)
  next
    case (cp_send n)
    with assms(2) show ?thesis by (intro grow) (auto simp: copies_ok_def counted_def split: if_splits)
  next
    case (cp_deliver n b)
    show ?thesis
    proof (cases "\<not> b \<and> n \<in> cp_seen c")
      case True
      with cp_deliver assms(2) have "n \<in> cp_chosen c" by (auto simp: copies_ok_def)
      with cp_deliver True assms(2) show ?thesis
        by (intro shrink [of n]) (auto simp: copies_ok_def counted_def split: if_splits)
    next
      case False
      with cp_deliver assms(2) show ?thesis by (intro grow) (auto simp: copies_ok_def counted_def split: if_splits)
    qed
  next
    case (cp_lost n)
    with assms(2) show ?thesis by (intro grow) (auto simp: copies_ok_def counted_def split: if_splits)
  next
    case (cp_forget n)
    with assms(2) show ?thesis by (intro grow) (auto simp: copies_ok_def counted_def)
  next
    case (cp_choose hs X)
    then show ?thesis
      using assms(2) choose_licensed [OF assms(2,3) cp_choose(2,3)] by (auto simp: copies_ok_def counted_def)
  next
    case (cp_delete n)
    with assms(2) show ?thesis by (intro shrink [of n]) (auto simp: copies_ok_def counted_def)
  qed
qed


text \<open>Three copies where one is wanted: a pass chooses two of them, and one is deleted.\<close>

definition sampleCopies :: "uuid set \<Rightarrow> uuid set \<Rightarrow> copies" where
  "sampleCopies stored chosen = \<lparr>cp_stored = stored, cp_seen = {11, 12, 13}, cp_report = Map.empty, cp_chosen = chosen\<rparr>"

text \<open>A hash function that ranks nodes by their identifiers.\<close>

abbreviation h0 :: "byte list \<Rightarrow> byte list" where
  "h0 \<equiv> \<lambda>_. []"

lemma sample_choose: "copies_step h0 ''d'' {11, 12, 13} 1 (sampleCopies {11, 12, 13} {}) (sampleCopies {11, 12, 13} {12, 13})"
proof -
  have sel: "selectTargets h0 ''d'' [11, 12, 13] 1 = [11]"
    by (simp add: selectTargets_def hrw_before_def hrwWeight_def)
  have "copies_step h0 ''d'' {11, 12, 13} 1 (sampleCopies {11, 12, 13} {})
     ((sampleCopies {11, 12, 13} {})\<lparr>cp_chosen := cp_chosen (sampleCopies {11, 12, 13} {}) \<union> {12, 13}\<rparr>)"
    by (rule cp_choose [of "[11, 12, 13]"]) (simp_all add: sel sampleCopies_def)
  then show ?thesis by (simp add: sampleCopies_def)
qed

lemma sample_delete: "copies_step h0 ''d'' {11, 12, 13} 1 (sampleCopies {11, 12, 13} {12, 13}) (sampleCopies {11, 12} {12, 13})"
proof -
  have "{11, 12, 13} - {13} = {11, 12 :: uuid}" by auto
  then show ?thesis
    using cp_delete [of 13 "sampleCopies {11, 12, 13} {12, 13}" h0 "''d''" "{11, 12, 13}" 1] by (simp add: sampleCopies_def)
qed


subsection \<open>What a pass enqueues\<close>

text \<open>Every job row that changes becomes a pending job with arguments in \<open>P\<close>.\<close>

definition job_writes :: "(JobArgs \<Rightarrow> bool) \<Rightarrow> doc kv \<Rightarrow> doc kv \<Rightarrow> bool" where
  "job_writes P a b \<longleftrightarrow> (\<forall>n. row_doc b (jobKey n) = row_doc a (jobKey n) \<or>
     (\<exists>args. row_doc b (jobKey n) = Some (DJob (pendingJob n args)) \<and> P args))"

interpretation jobs: writes kv_step kv_wf "job_writes P" for P
  by unfold_locales (simp add: job_writes_def)

abbreviation enqueues :: "(JobArgs \<Rightarrow> bool) \<Rightarrow> (doc, agent_call, 'a) prog \<Rightarrow> bool" where
  "enqueues P \<equiv> obeys kv_step kv_wf (job_writes P)"

lemma enqueues_mono: "enqueues P p \<Longrightarrow> (\<And>a. P a \<Longrightarrow> Q a) \<Longrightarrow> enqueues Q p"
  unfolding obeys_def by (intro allI impI, erule allE, erule (1) impE, erule wlp_mono) (auto simp: job_writes_def)

lemma enqueues_Commit:
  assumes "\<And>i. jobKey i \<notin> op_key ` set ts" "\<And>i. jobKey i \<notin> op_key ` set es"
  shows "enqueues P (Commit cs ts es)"
  by (rule jobs.obeys_Commit) (simp add: job_writes_def txn_row_doc_other txn_after_wf assms)

lemma blob_keys [simp]:
  "jobKey n \<noteq> placementKey d m" "jobKey n \<noteq> reclaimInflightKey d m" "jobKey n \<noteq> replicateInflightKey d m"
  "jobKey n \<noteq> nodeBlobInventoryKey m" "jobSeqKey \<noteq> jobKey n" "jobKey n \<noteq> jobSeqKey"
  by (simp_all add: jobKey_def placementKey_def reclaimInflightKey_def replicateInflightKey_def
      nodeBlobInventoryKey_def jobSeqKey_def)

lemma enqueues_Put [obeys_intros]: "(\<And>n. jobKey n \<noteq> k) \<Longrightarrow> enqueues P (Put k d)"
  unfolding Put_def by (intro obeys_intros enqueues_Commit) auto

lemma enqueues_PutIfAbsent [obeys_intros]: "(\<And>n. jobKey n \<noteq> k) \<Longrightarrow> enqueues P (PutIfAbsent k d)"
  unfolding PutIfAbsent_def by (intro obeys_intros enqueues_Commit) auto

lemma enqueues_Delete [obeys_intros]: "(\<And>n. jobKey n \<noteq> k) \<Longrightarrow> enqueues P (Delete k)"
  unfolding Delete_def by (intro obeys_intros enqueues_Commit) auto

lemma enqueues_tryBegin [obeys_intros]: "(\<And>n. jobKey n \<noteq> k) \<Longrightarrow> enqueues P (tryBegin k ttl)"
  unfolding tryBegin_def by (intro obeys_intros) (auto split: doc.split intro!: obeys_intros)

lemma enqueues_blob_ops [obeys_intros]:
  "enqueues P (TryBeginReclaim d n ttl)" "enqueues P (TryBeginReplicate d n ttl)" "enqueues P (EndReclaim d n)"
  "enqueues P (EndReplicate d n)" "enqueues P (AddBlobPlacement d n)" "enqueues P (RemoveBlobPlacement d n)"
  "enqueues P (BlobPlacements d)" "enqueues P (SnapshotsReferencingBlob d)" "enqueues P (BlobHolders d)"
  "enqueues P (SnapshotByID n)" "enqueues P (ArtifactPoolByID n)" "enqueues P (liveHolders d L)"
  unfolding TryBeginReclaim_def TryBeginReplicate_def EndReclaim_def EndReplicate_def AddBlobPlacement_def
    RemoveBlobPlacement_def BlobPlacements_def SnapshotsReferencingBlob_def BlobHolders_def SnapshotByID_def
    ArtifactPoolByID_def liveHolders_def
  by (intro obeys_intros; simp)+

lemma enqueues_ArtifactPoolByName [obeys_intros]: "enqueues P (ArtifactPoolByName name)"
  unfolding ArtifactPoolByName_def by (intro obeys_intros) (auto split: doc.split intro!: obeys_intros)

lemma enqueues_EnqueueTask: "P args \<Longrightarrow> enqueues P (EnqueueTask params args)"
proof -
  assume P: "P args"
  have *: "job_writes P b (txn_after [] (enqueue_ops params args n now @ es) [] b)" if "kv_wf b" "\<forall>i. jobKey i \<notin> op_key ` set es"
    for b n now es
  proof -
    have "fold (op_map rv) es m (jobKey i) = m (jobKey i)" for m rv i using that(2) by (intro fold_op_map_other) auto
    with that(1) P show ?thesis
      by (auto simp: job_writes_def row_doc_def txn_after_get enqueue_ops_def taskIndexOps_def split: option.split)
  qed
  show ?thesis
    unfolding obeys_def
  proof (intro allI impI any.EnqueueTask_rule, goal_cases)
    case (4 s b n now)
    then show ?case using * [of b "[]" n now] txn_after_wf by simp
  next
    case (5 s b n now now2 u k)
    then show ?case using * [of b "[index_op params u k now2]" n now] txn_after_wf by (simp add: index_op_def)
  qed (auto simp: job_writes_def)
qed

lemma enqueues_reclaimSurplus:
  "(\<And>t h. h \<in> set hs \<Longrightarrow> h \<notin> keepers \<Longrightarrow> P (ReclaimArgs t d h)) \<Longrightarrow> enqueues P (reclaimSurplus d hs keepers)"
  by (induction hs) (auto intro!: obeys_intros enqueues_EnqueueTask)

lemma enqueues_enqueueReplicas:
  "(\<And>t m. m \<in> live \<Longrightarrow> m \<notin> holderSet \<Longrightarrow> P (ReplicateArgs t d m)) \<Longrightarrow> enqueues P (enqueueReplicas d ms live holderSet)"
  by (induction ms) (auto intro!: obeys_intros enqueues_EnqueueTask)

lemma enqueues_member_loops [obeys_intros]:
  "enqueues P (prune_loop d eligible held ms)" "enqueues P (add_loop d ts ms)"
  "enqueues P (pruneObservedAbsentMembers d ms live H)" "enqueues P (trimNonKeeperMembers d ms keepers)"
proof -
  show "enqueues P (prune_loop d eligible held ms)" by (induction ms) (auto intro!: obeys_intros)
  show "enqueues P (add_loop d ts ms)" by (induction ts arbitrary: ms) (auto intro!: obeys_intros)
  show "enqueues P (pruneObservedAbsentMembers d ms live H)" by (induction ms) (auto intro!: obeys_intros)
  show "enqueues P (trimNonKeeperMembers d ms keepers)" by (induction ms) (auto intro!: obeys_intros)
qed

lemma enqueues_target [obeys_intros]: "enqueues P (blobPlacementTarget d nodes)"
proof -
  have "enqueues P (target_loop nodes sids k eligible)" for sids k eligible
    by (induction sids arbitrary: k eligible) (auto simp: Let_def intro!: obeys_intros)
  then show ?thesis unfolding blobPlacementTarget_def by (intro obeys_intros)
qed

text \<open>The jobs that follow from the references, the target and the live holders that a pass has read.\<close>

fun planned :: "(byte list \<Rightarrow> byte list) \<Rightarrow> string \<Rightarrow> uuid set \<Rightarrow> uuid list \<Rightarrow> int \<Rightarrow> uuid list \<Rightarrow> JobArgs \<Rightarrow> bool" where
  "planned sha256 digest live refs k hs (ReclaimArgs _ d h) \<longleftrightarrow> d = digest \<and> h \<in> set hs \<and>
     (refs = [] \<or> int (length hs) > k \<and> h \<notin> set (selectTargets sha256 digest hs k))"
| "planned sha256 digest live refs k hs (ReplicateArgs _ d m) \<longleftrightarrow> d = digest \<and>
     refs \<noteq> [] \<and> hs \<noteq> [] \<and> int (length hs) \<le> k \<and> m \<in> live \<and> m \<notin> set hs"
| "planned sha256 digest live refs k hs (OtherArgs _ _) \<longleftrightarrow> False"

lemma enqueues_plan:
  "enqueues (planned sha256 d live refs k hs) (reconcile_plan sha256 ord d live el refs (k, eligible) members hs)"
  unfolding reconcile_plan_def Let_def prod.case pruneDeadMembers_def addTargets_def
  by (intro obeys_intros enqueues_reclaimSurplus enqueues_enqueueReplicas) auto

lemma exec_RangeKV:
  assumes "exec R (RangeKV p) s tr (Inr items) s'"
  shows "tr = [EvEtcd (ReqRange p) s' s'] \<and> items = rows_under p s'"
proof -
  have rows: "map (\<lambda>(k, v, _). (k, v)) (result_rows rs) = map (\<lambda>(k, r). (k, row_value r)) rs" for rs :: "(key \<times> 'a row) list"
    by (induction rs) (auto simp: result_rows_def)
  from assms show ?thesis
    unfolding RangeKV_def Rows_def bind_ok_def bind.simps
    by (elim exec_EtcdE) (auto simp: rows_under_def rows)
qed

text \<open>A phase that enqueues nothing comes before the write.\<close>

lemma later_phase:
  assumes "exec kv_step (bind_ok p f) s tr x s'" "kv_wf s" "enqueues (\<lambda>_. False) p"
    and "EvEtcd q a b \<in> set tr" "row_doc b (jobKey n) \<noteq> row_doc a (jobKey n)"
  obtains tr1 v s1 tr2 where "exec kv_step p s tr1 (Inr v) s1" "exec kv_step (f v) s1 tr2 x s'"
    "EvEtcd q a b \<in> set tr2" "kv_wf s1" "tr = tr1 @ tr2"
proof -
  obtain tr1 y s1 tr2 where y: "exec kv_step p s tr1 y s1" "tr = tr1 @ tr2"
    "case y of Inl e \<Rightarrow> x = Inl e \<and> tr2 = [] \<and> s' = s1 | Inr v \<Rightarrow> exec kv_step (f v) s1 tr2 x s'"
    using exec_bind_ok [OF assms(1)] by (elim exE conjE) (rule that)
  have "EvEtcd q a b \<notin> set tr1"
    using jobs.obeys_event [OF assms(3,2) y(1)] assms(5) by (auto simp: job_writes_def)
  moreover have "kv_wf s1" using wlp_sound [OF y(1) jobs.obeys_run [OF assms(3,2)]] by simp
  ultimately show thesis using y assms(4) by (cases y) (auto intro: that)
qed


text \<open>An unreferenced blob that one node still lists.\<close>

definition orphanStore :: "doc kv" where
  "orphanStore = \<lparr>kv_rows = [(nodeBlobInventoryKey 11, Row (DBlobs [\<lparr>nb_Digest = ''d'', nb_SizeBytes = 1\<rparr>]) 1 1)], kv_rev = 1\<rparr>"

lemma blob_lit_order:
  "Lit ''index'' < Lit ''node_blobs''" "Lit ''jobs'' < Lit ''node_blobs''" "Lit ''node_blobs'' < Lit ''seq''"
  "Lit ''node_blobs'' < Lit ''tasks''"
  by code_simp+

lemma blob_key_order:
  "reclaimInflightKey d n < nodeBlobInventoryKey m" "\<not> nodeBlobInventoryKey m < reclaimInflightKey d n"
  "nodeBlobInventoryKey m < jobSeqKey" "\<not> jobSeqKey < nodeBlobInventoryKey m"
  "jobKey i < nodeBlobInventoryKey m" "\<not> nodeBlobInventoryKey m < jobKey i"
  "nodeBlobInventoryKey m < taskKey t" "\<not> taskKey t < nodeBlobInventoryKey m"
  "reclaimInflightKey d n < jobKey i" "\<not> jobKey i < reclaimInflightKey d n"
  "reclaimInflightKey d n < jobSeqKey" "\<not> jobSeqKey < reclaimInflightKey d n"
  "reclaimInflightKey d n < taskKey t" "\<not> taskKey t < reclaimInflightKey d n"
  "reclaimInflightKey d n \<noteq> nodeBlobInventoryKey m" "nodeBlobInventoryKey m \<noteq> reclaimInflightKey d n"
  "nodeBlobInventoryKey m \<noteq> jobSeqKey" "jobSeqKey \<noteq> nodeBlobInventoryKey m" "reclaimInflightKey d n \<noteq> jobSeqKey"
  "jobSeqKey \<noteq> reclaimInflightKey d n" "nodeBlobInventoryKey m \<noteq> taskKey t" "taskKey t \<noteq> nodeBlobInventoryKey m"
  "reclaimInflightKey d n \<noteq> taskKey t" "taskKey t \<noteq> reclaimInflightKey d n"
  "nodeBlobInventoryKey m \<noteq> jobKey i" "reclaimInflightKey d n \<noteq> jobKey i"
  using lit_order blob_lit_order
  by (auto simp: reclaimInflightKey_def nodeBlobInventoryKey_def jobSeqKey_def jobKey_def taskKey_def)

lemmas reconcile_defs = reconcileDigest_def reconcile_plan_def SnapshotsReferencingBlob_def blobPlacementTarget_def
  BlobPlacements_def liveHolders_def BlobHolders_def pruneDeadMembers_def RangeKV_def TryBeginReclaim_def tryBegin_def
  PutIfAbsent_def Put_def blobTask_def

lemma orphan_pass: "list_ex (changes (jobKey 1)) (fst (solo (reconcileDigest h0 (\<lambda>_. []) ''d'' [] {11} {}) 0 orphanStore))"
proof -
  have p: "strict_prefix nodeBlobInventoryPrefix (nodeBlobInventoryKey 11)"
    "\<not> strict_prefix (placementPrefix d) (nodeBlobInventoryKey 11)" "\<not> strict_prefix (blobRefPrefix d) (nodeBlobInventoryKey 11)" for d
    by (simp_all add: nodeBlobInventoryPrefix_def nodeBlobInventoryKey_def placementPrefix_def blobRefPrefix_def strict_prefix_def)
  have l: "last_uuid (nodeBlobInventoryKey 11) = Some 11" by (simp add: nodeBlobInventoryKey_def)
  show ?thesis
    by (simp add: reconcile_defs enqueue_defs orphanStore_def key_order key_neq blob_key_order p l holders_of_def
      decodeOrQuarantine_def map_filter_def row_doc_def wrap64_def del: last_uuid.simps)
qed


end
