(* ===== verification/Solo.thy ===== *)
theory Solo
  imports Replication TaskProps
begin

text \<open>
  Evaluation of undisturbed executions on concrete stores. The rules run a program call by call:
  the rest of the program stays as it is until the result of the call before it is known.
\<close>

fun ticks :: "('v, 'x) event list \<Rightarrow> nat" where
  "ticks [] = 0"
| "ticks (EvNow t # tr) = Suc (ticks tr)"
| "ticks (EvFresh t # tr) = Suc (ticks tr)"
| "ticks (_ # tr) = ticks tr"

definition solo_then ::
    "('v, 'x) event list \<times> 'a \<times> 'v kv \<Rightarrow> ('a \<Rightarrow> ('v, 'x, 'b) prog) \<Rightarrow> nat \<Rightarrow> ('v, 'x) event list \<times> 'b \<times> 'v kv" where
  "solo_then r f n = (case r of (tr, x, s) \<Rightarrow> apfst (append tr) (solo (f x) (n + ticks tr) s))"

lemma solo_bind: "solo (bind p f) n s = solo_then (solo p n s) f n"
proof (induction p arbitrary: n s)
  case (Etcd q k)
  then show ?case by (simp add: solo_then_def case_prod_beta apfst_def map_prod_def Let_def del: kv_apply.simps)
qed (simp_all add: solo_then_def case_prod_beta apfst_def map_prod_def Let_def)

lemma solo_weak_cong: "n = n' \<Longrightarrow> s = s' \<Longrightarrow> solo p n s = solo p n' s'"
  by simp

lemma solo_then_weak_cong: "r = r' \<Longrightarrow> n = n' \<Longrightarrow> solo_then r f n = solo_then r' f n'"
  by simp

lemma solo_then_eval: "solo_then (tr, x, s) f n = apfst (append tr) (solo (f x) (n + ticks tr) s)"
  by (simp add: solo_then_def)

lemma solo_arg: "p = q \<Longrightarrow> solo p n s = solo q n s"
  by simp

lemma solo_if: "solo (if b then p else q) n s = (if b then solo p n s else solo q n s)"
  by simp

lemma solo_sum: "solo (case x of Inl a \<Rightarrow> f a | Inr b \<Rightarrow> g b) n s = (case x of Inl a \<Rightarrow> solo (f a) n s | Inr b \<Rightarrow> solo (g b) n s)"
  by (simp split: sum.split)

lemma solo_option: "solo (case x of None \<Rightarrow> p | Some y \<Rightarrow> g y) n s = (case x of None \<Rightarrow> solo p n s | Some y \<Rightarrow> solo (g y) n s)"
  by (simp split: option.split)

lemma solo_prod: "solo (case x of (a, b) \<Rightarrow> f a b) n s = (case x of (a, b) \<Rightarrow> solo (f a b) n s)"
  by (simp split: prod.split)

lemma solo_let: "solo (let x = v in f x) n s = solo (f v) n s"
  by simp

lemma solo_Commit:
  "solo (Commit cs ts es) n s = ([EvEtcd (ReqTxn cs ts es) s (txn_after cs ts es s)],
     Inr (list_all (cmp_holds s) cs, txn_out cs ts es s), txn_after cs ts es s)"
  by (simp add: Commit_def txn_after_def txn_out_def Let_def split: prod.split)

lemma solo_Rows:
  "solo (Rows (ReqGet k)) n s = ([EvEtcd (ReqGet k) s s], Inr (result_rows (filter (\<lambda>(k', _). k' = k) (kv_rows s))), s)"
  "solo (Rows (ReqRange k)) n s = ([EvEtcd (ReqRange k) s s], Inr (result_rows (filter (\<lambda>(k', _). strict_prefix k k') (kv_rows s))), s)"
  by (simp_all add: Rows_def)

lemma solo_Marshal: "solo (Marshal v) n s = ([], Inr v, s)"
  by (simp add: Marshal_def)

lemmas solo_rules = solo_bind bind_ok_def [THEN solo_arg] solo_then_eval solo_if solo_sum solo_option solo_prod solo_let
  solo_Commit solo_Rows solo_Marshal

lemmas solo_client = GetRev_def [THEN solo_arg] Get_def [THEN solo_arg] GetJSON_def [THEN solo_arg] Put_def [THEN solo_arg]
  Delete_def [THEN solo_arg] PutIfAbsent_def [THEN solo_arg] RangeKV_def [THEN solo_arg]

subsection \<open>The order of keys\<close>

text \<open>
  Rows are kept in the order of their keys. These facts decide the comparisons between the keys of
  the modelled tables, so that an evaluation does not look into them.
\<close>

lemma table_order:
  "Lit ''index'' < Lit ''jobs''"
  "Lit ''index'' < Lit ''node_blobs''"
  "Lit ''index'' < Lit ''nodes''"
  "Lit ''index'' < Lit ''seq''"
  "Lit ''index'' < Lit ''snapshots''"
  "Lit ''index'' < Lit ''tasks''"
  "Lit ''jobs'' < Lit ''node_blobs''"
  "Lit ''jobs'' < Lit ''nodes''"
  "Lit ''jobs'' < Lit ''seq''"
  "Lit ''jobs'' < Lit ''snapshots''"
  "Lit ''jobs'' < Lit ''tasks''"
  "Lit ''node_blobs'' < Lit ''nodes''"
  "Lit ''node_blobs'' < Lit ''seq''"
  "Lit ''node_blobs'' < Lit ''snapshots''"
  "Lit ''node_blobs'' < Lit ''tasks''"
  "Lit ''nodes'' < Lit ''seq''"
  "Lit ''nodes'' < Lit ''snapshots''"
  "Lit ''nodes'' < Lit ''tasks''"
  "Lit ''seq'' < Lit ''snapshots''"
  "Lit ''seq'' < Lit ''tasks''"
  "Lit ''snapshots'' < Lit ''tasks''"
  "Lit ''blob_refs'' < Lit ''reclaim_inflight''"
  by code_simp+

lemmas key_defs = blobRefKey_def reclaimInflightKey_def jobKey_def nodeBlobInventoryKey_def nodeKey_def jobSeqKey_def
  snapshotKey_def taskKey_def

lemma keys_less:
  "blobRefKey d0 i0 < reclaimInflightKey d1 n1" "\<not> reclaimInflightKey d1 n1 < blobRefKey d0 i0"
  "blobRefKey d0 i0 < jobKey j" "\<not> jobKey j < blobRefKey d0 i0"
  "blobRefKey d0 i0 < nodeBlobInventoryKey m" "\<not> nodeBlobInventoryKey m < blobRefKey d0 i0"
  "blobRefKey d0 i0 < nodeKey m'" "\<not> nodeKey m' < blobRefKey d0 i0"
  "blobRefKey d0 i0 < jobSeqKey" "\<not> jobSeqKey < blobRefKey d0 i0"
  "blobRefKey d0 i0 < snapshotKey i" "\<not> snapshotKey i < blobRefKey d0 i0"
  "blobRefKey d0 i0 < taskKey t" "\<not> taskKey t < blobRefKey d0 i0"
  "reclaimInflightKey d1 n1 < jobKey j" "\<not> jobKey j < reclaimInflightKey d1 n1"
  "reclaimInflightKey d1 n1 < nodeBlobInventoryKey m" "\<not> nodeBlobInventoryKey m < reclaimInflightKey d1 n1"
  "reclaimInflightKey d1 n1 < nodeKey m'" "\<not> nodeKey m' < reclaimInflightKey d1 n1"
  "reclaimInflightKey d1 n1 < jobSeqKey" "\<not> jobSeqKey < reclaimInflightKey d1 n1"
  "reclaimInflightKey d1 n1 < snapshotKey i" "\<not> snapshotKey i < reclaimInflightKey d1 n1"
  "reclaimInflightKey d1 n1 < taskKey t" "\<not> taskKey t < reclaimInflightKey d1 n1"
  "jobKey j < nodeBlobInventoryKey m" "\<not> nodeBlobInventoryKey m < jobKey j"
  "jobKey j < nodeKey m'" "\<not> nodeKey m' < jobKey j"
  "jobKey j < jobSeqKey" "\<not> jobSeqKey < jobKey j"
  "jobKey j < snapshotKey i" "\<not> snapshotKey i < jobKey j"
  "jobKey j < taskKey t" "\<not> taskKey t < jobKey j"
  "nodeBlobInventoryKey m < nodeKey m'" "\<not> nodeKey m' < nodeBlobInventoryKey m"
  "nodeBlobInventoryKey m < jobSeqKey" "\<not> jobSeqKey < nodeBlobInventoryKey m"
  "nodeBlobInventoryKey m < snapshotKey i" "\<not> snapshotKey i < nodeBlobInventoryKey m"
  "nodeBlobInventoryKey m < taskKey t" "\<not> taskKey t < nodeBlobInventoryKey m"
  "nodeKey m' < jobSeqKey" "\<not> jobSeqKey < nodeKey m'"
  "nodeKey m' < snapshotKey i" "\<not> snapshotKey i < nodeKey m'"
  "nodeKey m' < taskKey t" "\<not> taskKey t < nodeKey m'"
  "jobSeqKey < snapshotKey i" "\<not> snapshotKey i < jobSeqKey"
  "jobSeqKey < taskKey t" "\<not> taskKey t < jobSeqKey"
  "snapshotKey i < taskKey t" "\<not> taskKey t < snapshotKey i"
  using table_order by (auto simp: key_defs)

lemma keys_neq:
  "blobRefKey d0 i0 \<noteq> reclaimInflightKey d1 n1" "reclaimInflightKey d1 n1 \<noteq> blobRefKey d0 i0"
  "blobRefKey d0 i0 \<noteq> jobKey j" "jobKey j \<noteq> blobRefKey d0 i0"
  "blobRefKey d0 i0 \<noteq> nodeBlobInventoryKey m" "nodeBlobInventoryKey m \<noteq> blobRefKey d0 i0"
  "blobRefKey d0 i0 \<noteq> nodeKey m'" "nodeKey m' \<noteq> blobRefKey d0 i0"
  "blobRefKey d0 i0 \<noteq> jobSeqKey" "jobSeqKey \<noteq> blobRefKey d0 i0"
  "blobRefKey d0 i0 \<noteq> snapshotKey i" "snapshotKey i \<noteq> blobRefKey d0 i0"
  "blobRefKey d0 i0 \<noteq> taskKey t" "taskKey t \<noteq> blobRefKey d0 i0"
  "reclaimInflightKey d1 n1 \<noteq> jobKey j" "jobKey j \<noteq> reclaimInflightKey d1 n1"
  "reclaimInflightKey d1 n1 \<noteq> nodeBlobInventoryKey m" "nodeBlobInventoryKey m \<noteq> reclaimInflightKey d1 n1"
  "reclaimInflightKey d1 n1 \<noteq> nodeKey m'" "nodeKey m' \<noteq> reclaimInflightKey d1 n1"
  "reclaimInflightKey d1 n1 \<noteq> jobSeqKey" "jobSeqKey \<noteq> reclaimInflightKey d1 n1"
  "reclaimInflightKey d1 n1 \<noteq> snapshotKey i" "snapshotKey i \<noteq> reclaimInflightKey d1 n1"
  "reclaimInflightKey d1 n1 \<noteq> taskKey t" "taskKey t \<noteq> reclaimInflightKey d1 n1"
  "jobKey j \<noteq> nodeBlobInventoryKey m" "nodeBlobInventoryKey m \<noteq> jobKey j"
  "jobKey j \<noteq> nodeKey m'" "nodeKey m' \<noteq> jobKey j"
  "jobKey j \<noteq> jobSeqKey" "jobSeqKey \<noteq> jobKey j"
  "jobKey j \<noteq> snapshotKey i" "snapshotKey i \<noteq> jobKey j"
  "jobKey j \<noteq> taskKey t" "taskKey t \<noteq> jobKey j"
  "nodeBlobInventoryKey m \<noteq> nodeKey m'" "nodeKey m' \<noteq> nodeBlobInventoryKey m"
  "nodeBlobInventoryKey m \<noteq> jobSeqKey" "jobSeqKey \<noteq> nodeBlobInventoryKey m"
  "nodeBlobInventoryKey m \<noteq> snapshotKey i" "snapshotKey i \<noteq> nodeBlobInventoryKey m"
  "nodeBlobInventoryKey m \<noteq> taskKey t" "taskKey t \<noteq> nodeBlobInventoryKey m"
  "nodeKey m' \<noteq> jobSeqKey" "jobSeqKey \<noteq> nodeKey m'"
  "nodeKey m' \<noteq> snapshotKey i" "snapshotKey i \<noteq> nodeKey m'"
  "nodeKey m' \<noteq> taskKey t" "taskKey t \<noteq> nodeKey m'"
  "jobSeqKey \<noteq> snapshotKey i" "snapshotKey i \<noteq> jobSeqKey"
  "jobSeqKey \<noteq> taskKey t" "taskKey t \<noteq> jobSeqKey"
  "snapshotKey i \<noteq> taskKey t" "taskKey t \<noteq> snapshotKey i"
  by (simp_all add: key_defs)

lemma keys_same:
  "blobRefKey d i = blobRefKey e j \<longleftrightarrow> d = e \<and> i = j" "reclaimInflightKey d i = reclaimInflightKey e j \<longleftrightarrow> d = e \<and> i = j"
  "nodeBlobInventoryKey i = nodeBlobInventoryKey j \<longleftrightarrow> i = j" "nodeKey i = nodeKey j \<longleftrightarrow> i = j"
  "snapshotKey i = snapshotKey j \<longleftrightarrow> i = j" "taskKey i = taskKey j \<longleftrightarrow> i = j"
  "reclaimInflightKey d i < reclaimInflightKey d j \<longleftrightarrow> i < j" "jobKey p < jobKey r \<longleftrightarrow> p < r" "taskKey i < taskKey j \<longleftrightarrow> i < j"
  "nodeBlobInventoryKey i < nodeBlobInventoryKey j \<longleftrightarrow> i < j" "nodeKey i < nodeKey j \<longleftrightarrow> i < j"
  by (auto simp: key_defs less_part_def)

lemmas prefix_defs = blobRefPrefix_def nodeBlobInventoryPrefix_def nodePrefix_def placementPrefix_def

lemma keys_under:
  "strict_prefix (blobRefPrefix d) (blobRefKey e i) \<longleftrightarrow> d = e" "\<not> strict_prefix (blobRefPrefix d) (reclaimInflightKey e i)"
  "\<not> strict_prefix (blobRefPrefix d) (jobKey j)" "\<not> strict_prefix (blobRefPrefix d) (nodeBlobInventoryKey i)"
  "\<not> strict_prefix (blobRefPrefix d) (nodeKey i)" "\<not> strict_prefix (blobRefPrefix d) jobSeqKey"
  "\<not> strict_prefix (blobRefPrefix d) (snapshotKey i)" "\<not> strict_prefix (blobRefPrefix d) (taskKey i)"
  "strict_prefix nodeBlobInventoryPrefix (nodeBlobInventoryKey i)" "\<not> strict_prefix nodeBlobInventoryPrefix (blobRefKey e i)"
  "\<not> strict_prefix nodeBlobInventoryPrefix (reclaimInflightKey e i)" "\<not> strict_prefix nodeBlobInventoryPrefix (jobKey j)"
  "\<not> strict_prefix nodeBlobInventoryPrefix (nodeKey i)" "\<not> strict_prefix nodeBlobInventoryPrefix jobSeqKey"
  "\<not> strict_prefix nodeBlobInventoryPrefix (snapshotKey i)" "\<not> strict_prefix nodeBlobInventoryPrefix (taskKey i)"
  "strict_prefix nodePrefix (nodeKey i)" "\<not> strict_prefix nodePrefix (blobRefKey e i)"
  "\<not> strict_prefix nodePrefix (reclaimInflightKey e i)" "\<not> strict_prefix nodePrefix (jobKey j)"
  "\<not> strict_prefix nodePrefix (nodeBlobInventoryKey i)" "\<not> strict_prefix nodePrefix jobSeqKey"
  "\<not> strict_prefix nodePrefix (snapshotKey i)" "\<not> strict_prefix nodePrefix (taskKey i)"
  "\<not> strict_prefix (placementPrefix d) (blobRefKey e i)" "\<not> strict_prefix (placementPrefix d) (reclaimInflightKey e i)"
  "\<not> strict_prefix (placementPrefix d) (jobKey j)" "\<not> strict_prefix (placementPrefix d) (nodeBlobInventoryKey i)"
  "\<not> strict_prefix (placementPrefix d) (nodeKey i)" "\<not> strict_prefix (placementPrefix d) jobSeqKey"
  "\<not> strict_prefix (placementPrefix d) (snapshotKey i)" "\<not> strict_prefix (placementPrefix d) (taskKey i)"
  by (auto simp: prefix_defs key_defs strict_prefix_def)

lemma keys_uuid:
  "last_uuid (blobRefKey d i) = Some i" "last_uuid (nodeBlobInventoryKey i) = Some i"
  by (simp_all add: key_defs)

lemmas key_eval = keys_less keys_neq keys_same keys_under keys_uuid

subsection \<open>The operations of replication\<close>

lemmas solo_tasks = TaskByID_def [THEN solo_arg] UpdateTaskRunning_def [THEN solo_arg] UpdateTaskFinalized_def [THEN solo_arg]
  EnqueueTask_def [THEN solo_arg] enqueueJobOp_def [THEN solo_arg] nextJobSeq_def [THEN solo_arg] nextSeq_def [THEN solo_arg]
  nextSeq_round [THEN solo_arg]

lemmas solo_replication = AllNodes_def [THEN solo_arg] SnapshotsReferencingBlob_def [THEN solo_arg]
  blobPlacementTarget_def [THEN solo_arg] target_loop.simps [THEN solo_arg] SnapshotByID_def [THEN solo_arg]
  liveHolders_def [THEN solo_arg] BlobHolders_def [THEN solo_arg] BlobPlacements_def [THEN solo_arg]
  reclaimStillSafe_def [THEN solo_arg] runReclaim_def [THEN solo_arg] finalizeReclaimSuccess_def [THEN solo_arg]
  EndReclaim_def [THEN solo_arg] ReclaimHandler_def [THEN solo_arg] TryBeginReclaim_def [THEN solo_arg] tryBegin_def [THEN solo_arg]
  reconcileDigest_def [THEN solo_arg] reconcile_plan_def [THEN solo_arg] pruneDeadMembers_def [THEN solo_arg]
  prune_loop.simps [THEN solo_arg] reclaimSurplus.simps [THEN solo_arg] pruneObservedAbsentMembers.simps [THEN solo_arg]

lemmas solo_cases = doc.case_distrib [of "\<lambda>p. solo p n s" for n s] JobArgs.case_distrib [of "\<lambda>p. solo p n s" for n s]

lemmas solo_eval = solo_rules solo_client solo_tasks solo_replication solo_cases key_eval
lemmas solo_cong = solo_weak_cong solo_then_weak_cong

lemmas store_eval = txn_after_def txn_out_def result_rows_def kv_get_def Let_def taskFromParams_def blobTask_def taskIndexOps_def
  isCommittedTerminal_def holders_of_def decodeOrQuarantine_def map_filter_def liveNodeIDs_def still_safe_def wrap64_def rows_delete_def

subsection \<open>The response of an undisturbed request\<close>

definition respond :: "('v, 'x, 'a) prog \<Rightarrow> nat \<Rightarrow> 'v kv \<Rightarrow> 'a" where
  "respond p n s = fst (snd (solo p n s))"

lemma respond_Ret [simp]: "respond (Ret x) n s = x"
  by (simp add: respond_def)

lemma respond_bind_read:
  assumes "solo p n s = (tr, x, s)" "ticks tr = 0"
  shows "respond (bind p f) n s = respond (f x) n s"
  by (simp add: respond_def solo_bind assms solo_then_eval case_prod_beta)

lemma respond_bind_Ret: "respond (bind p (\<lambda>x. Ret (f x))) n s = f (respond p n s)"
  by (simp add: respond_def solo_bind solo_then_def case_prod_beta)

lemma solo_GetRev:
  assumes "kv_wf s"
  shows "solo (GetRev k) n s = ([EvEtcd (ReqGet k) s s], Inr (row_of s k), s)"
proof -
  have "(case result_rows (filter (\<lambda>(k', _). k' = k) (kv_rows s)) of [] \<Rightarrow> None | (x, xa) # xb \<Rightarrow> Some xa) = row_of s k"
    using filter_key [OF assms, of k] by (auto simp: row_of_def result_rows_def split: option.split)
  then show ?thesis by (simp add: GetRev_def solo_rules solo_Rows)
qed

lemma solo_GetJSON:
  assumes "kv_wf s"
  shows "solo (GetJSON dec k) n s = ([EvEtcd (ReqGet k) s s],
    (case row_doc s k of None \<Rightarrow> Inr None | Some v \<Rightarrow> (case dec v of None \<Rightarrow> Inl ErrCorrupt | Some x \<Rightarrow> Inr (Some x))), s)"
  by (auto simp: GetJSON_def Get_def solo_rules solo_GetRev [OF assms] row_of_def row_doc_def split: option.split)

lemma solo_TaskByID:
  assumes "kv_wf s"
  shows "solo (TaskByID i) n s = ([EvEtcd (ReqGet (taskKey i)) s s],
    (case row_doc s (taskKey i) of
       None \<Rightarrow> Inl ErrNotFound
     | Some v \<Rightarrow> (case dec_task v of None \<Rightarrow> Inl ErrCorrupt | Some t \<Rightarrow> Inr t)), s)"
  by (auto simp: TaskByID_def solo_rules solo_GetJSON [OF assms] split: option.split)

lemma solo_RangeKV: "solo (RangeKV p) n s = ([EvEtcd (ReqRange p) s s], Inr (rows_under p s), s)"
proof -
  have "map (\<lambda>(k, v, _). (k, v)) (result_rows rs) = map (\<lambda>(k, r). (k, row_value r)) rs" for rs :: "(key \<times> 'a row) list"
    by (induction rs) (auto simp: result_rows_def)
  then show ?thesis by (simp add: RangeKV_def solo_rules rows_under_def)
qed

end
