(* ===== verification/ReplicationRace.thy ===== *)
theory ReplicationRace
  imports Solo ReplicationProps
begin

text \<open>
  The second check of a reclaim reads inventories, which list a copy until the next report of its
  node. Two reclaims of one unreferenced blob that become needed again can both pass it.
\<close>

definition liveNode :: "uuid \<Rightarrow> string \<Rightarrow> Node" where
  "liveNode i name = \<lparr>nd_ID = i, nd_Name = name, nd_GatewayRole = False, nd_AdvertisedEndpoint = ''x'',
     nd_IngressAdvertisedEndpoint = ''x'', nd_ControlListenPort = 0, nd_Status = NodeStatusReady, nd_CordonedAt = None,
     nd_CPUCoresTotal = None, nd_CPUCoresAvailable = None, nd_MemoryTotalMib = None, nd_MemoryAvailableMib = None,
     nd_Capabilities = ''x'', nd_LastHeartbeatAt = Some 0, nd_MemoryPressureSince = None,
     nd_SystemDiskPressureSince = None, nd_CreatedAt = 0, nd_DeletedAt = None\<rparr>"

lemma liveNode_simps: "isLive (liveNode i name)" "nd_ID (liveNode i name) = i" "nd_DeletedAt (liveNode i name) = None"
  by (simp_all add: liveNode_def isLive_def)

definition raceStore :: "doc kv" where
  "raceStore = \<lparr>kv_rows = [
     (nodeBlobInventoryKey 11, Row (DBlobs [\<lparr>nb_Digest = ''d'', nb_SizeBytes = 1\<rparr>]) 1 1),
     (nodeBlobInventoryKey 12, Row (DBlobs [\<lparr>nb_Digest = ''d'', nb_SizeBytes = 1\<rparr>]) 1 1),
     (nodeKey 11, Row (DNode (liveNode 11 ''a'')) 1 1),
     (nodeKey 12, Row (DNode (liveNode 12 ''b'')) 1 1)], kv_rev = 1\<rparr>"

abbreviation sampleReclaimTask :: "uuid \<Rightarrow> int \<Rightarrow> gotime \<Rightarrow> Task" where
  "sampleReclaimTask i j t \<equiv> taskFromParams (blobTask i ''artifact.reclaim'' reclaimMaxAttempts) j t"

text \<open>The store after a pass over the unreferenced blob: both copies have a reclaim job.\<close>

definition passStore :: "doc kv" where
  "passStore = \<lparr>kv_rows = [
     (reclaimInflightKey ''d'' 11, Row (DInflight (100 + reclaimInflightTTL)) 2 2),
     (reclaimInflightKey ''d'' 12, Row (DInflight (103 + reclaimInflightTTL)) 5 5),
     (jobKey 1, Row (DJob (pendingJob 1 (ReclaimArgs 101 ''d'' 11))) 4 4),
     (jobKey 2, Row (DJob (pendingJob 2 (ReclaimArgs 104 ''d'' 12))) 7 7),
     (nodeBlobInventoryKey 11, Row (DBlobs [\<lparr>nb_Digest = ''d'', nb_SizeBytes = 1\<rparr>]) 1 1),
     (nodeBlobInventoryKey 12, Row (DBlobs [\<lparr>nb_Digest = ''d'', nb_SizeBytes = 1\<rparr>]) 1 1),
     (nodeKey 11, Row (DNode (liveNode 11 ''a'')) 1 1),
     (nodeKey 12, Row (DNode (liveNode 12 ''b'')) 1 1),
     (jobSeqKey, Row (DSeq 2) 3 6),
     (taskKey 101, Row (DTask (sampleReclaimTask 101 1 102)) 4 4),
     (taskKey 104, Row (DTask (sampleReclaimTask 104 2 105)) 7 7)], kv_rev = 7\<rparr>"

lemma race_pass:
  "snd (solo (reconcileDigest (\<lambda>_. []) (\<lambda>_. []) ''d'' [liveNode 11 ''a'', liveNode 12 ''b''] {11, 12} {}) 100 raceStore) = (Inr (), passStore)"
  by (simp add: solo_eval store_eval raceStore_def passStore_def pendingJob_def cong: solo_cong del: last_uuid.simps)

text \<open>A snapshot that refers to the blob again.\<close>

definition rereferenced :: "doc kv" where
  "rereferenced = txn_after [] [OpPut (snapshotKey 50) (DSnapshot \<lparr>sn_ID = 50, sn_ArtifactPoolName = None,
      sn_Disks = [\<lparr>sd_SHA256 = ''d'', sd_SizeBytes = 1\<rparr>], sn_DeletedAt = None\<rparr>), OpPut (blobRefKey ''d'' 50) (DUUID 50)] [] passStore"

lemma race_reclaims:
  "case solo (ReclaimHandler (ReclaimArgs 101 ''d'' 11)) 200 rereferenced of (tr1, x1, s1) \<Rightarrow>
     x1 = Inr () \<and> EvAgent (AgentReclaim 11 ''d'') None \<in> set tr1 \<and>
     (case solo (ReclaimHandler (ReclaimArgs 104 ''d'' 12)) 300 s1 of (tr2, x2, s2) \<Rightarrow>
        x2 = Inr () \<and> EvAgent (AgentReclaim 12 ''d'') None \<in> set tr2 \<and>
        collect_refs (rows_under (blobRefPrefix ''d'') s2) = Inr [50])"
  by (simp add: solo_eval store_eval rereferenced_def passStore_def liveNode_simps rows_under_def cong: solo_cong del: last_uuid.simps)

text \<open>
  C22. Deleting an unreferenced blob can lose a blob that is needed again. A pass finds a blob on
  two live nodes and no reference, and enqueues a reclaim of both copies. A snapshot refers to the
  blob again. Each reclaim now reads the references and the inventories afresh: the first one
  deletes its copy, since another copy is listed; no report has arrived when the second one runs,
  so the deleted copy is still listed, and the second one deletes the other copy. No copy is left,
  and the reference is.
\<close>

theorem stale_reclaim_deletes_every_copy:
  "\<exists>pass tr1 s1 tr2 s2.
     solo (reconcileDigest (\<lambda>_. []) (\<lambda>_. []) ''d'' [liveNode 11 ''a'', liveNode 12 ''b''] {11, 12} {}) 100 raceStore =
       (pass, Inr (), passStore) \<and>
     row_doc passStore (jobKey 1) = Some (DJob (pendingJob 1 (ReclaimArgs 101 ''d'' 11))) \<and>
     row_doc passStore (jobKey 2) = Some (DJob (pendingJob 2 (ReclaimArgs 104 ''d'' 12))) \<and>
     solo (ReclaimHandler (ReclaimArgs 101 ''d'' 11)) 200 rereferenced = (tr1, Inr (), s1) \<and>
     EvAgent (AgentReclaim 11 ''d'') None \<in> set tr1 \<and>
     solo (ReclaimHandler (ReclaimArgs 104 ''d'' 12)) 300 s1 = (tr2, Inr (), s2) \<and>
     EvAgent (AgentReclaim 12 ''d'') None \<in> set tr2 \<and>
     collect_refs (rows_under (blobRefPrefix ''d'') s2) = Inr [50]"
proof -
  obtain pass where "solo (reconcileDigest (\<lambda>_. []) (\<lambda>_. []) ''d'' [liveNode 11 ''a'', liveNode 12 ''b''] {11, 12} {}) 100 raceStore =
      (pass, Inr (), passStore)"
    using race_pass by (metis prod.collapse)
  moreover obtain tr1 s1 tr2 s2 where
    "solo (ReclaimHandler (ReclaimArgs 101 ''d'' 11)) 200 rereferenced = (tr1, Inr (), s1)"
    "EvAgent (AgentReclaim 11 ''d'') None \<in> set tr1"
    "solo (ReclaimHandler (ReclaimArgs 104 ''d'' 12)) 300 s1 = (tr2, Inr (), s2)"
    "EvAgent (AgentReclaim 12 ''d'') None \<in> set tr2"
    "collect_refs (rows_under (blobRefPrefix ''d'') s2) = Inr [50]"
    using race_reclaims by (auto split: prod.splits)
  moreover have "row_doc passStore (jobKey 1) = Some (DJob (pendingJob 1 (ReclaimArgs 101 ''d'' 11)))"
    "row_doc passStore (jobKey 2) = Some (DJob (pendingJob 2 (ReclaimArgs 104 ''d'' 12)))"
    by (simp_all add: row_doc_def kv_get_def passStore_def key_eval)
  ultimately show ?thesis by (intro exI conjI)
qed

end
