(* ===== verification/Rbac.thy ===== *)
theory Rbac
  imports Keyspace
begin

text \<open>
  Roles and permissions (\<^verbatim>\<open>internal/auth/roles.go\<close>, \<^verbatim>\<open>permissions.go\<close>, \<^verbatim>\<open>ownership.go\<close>) and
  the middleware that checks them (\<^verbatim>\<open>internal/api/middleware/permission.go\<close>).
\<close>

subsection \<open>Roles\<close>

text \<open>A role is a string of which four are defined; any other one is \<open>RoleOther\<close>.\<close>

datatype Role = RoleAdmin | RoleOperator | RoleDeveloper | RoleViewer | RoleOther string

definition role_of_string :: "string \<Rightarrow> Role" where
  "role_of_string s =
     (if s = ''admin'' then RoleAdmin
      else if s = ''operator'' then RoleOperator
      else if s = ''developer'' then RoleDeveloper
      else if s = ''viewer'' then RoleViewer
      else RoleOther s)"

definition Role_Valid :: "Role \<Rightarrow> bool" where
  "Role_Valid r = (case r of RoleOther _ \<Rightarrow> False | _ \<Rightarrow> True)"

definition ParseRole :: "string \<Rightarrow> Role option" where
  "ParseRole s = (let r = role_of_string s in if \<not> Role_Valid r then None else Some r)"

subsection \<open>Permissions\<close>

datatype Permission =
    PermVMRead | PermVMCreate | PermVMUpdate | PermVMDelete | PermVMLifecycle | PermVMResize | PermVMConsole |
    PermVMRevert | PermVMMigrate | PermVMSSH | PermVMIngressGrant | PermVMConnect | PermLoadBalancerRead |
    PermLoadBalancerCreate | PermLoadBalancerUpdate | PermLoadBalancerDelete | PermLoadBalancerConnect |
    PermLoadBalancerPublish | PermSnapshotRead | PermSnapshotCreate | PermSnapshotDelete | PermSnapshotRevert |
    PermNetworkRead | PermNetworkManage | PermStoragePoolRead | PermStoragePoolManage | PermStoragePoolScan |
    PermFirmwareRead | PermFirmwareManage | PermNodeRead | PermNodeMaintenance | PermNodeManage | PermUserRead |
    PermUserManage | PermAPITokenManage | PermTaskRead | PermTaskCancel | PermClusterRead | PermClusterManage

datatype Scope = ScopeNone | ScopeOwn | ScopeAny

definition permissionMatrix :: "Role \<Rightarrow> (Permission \<times> Scope) list option" where
  "permissionMatrix role =
     (case role of
        RoleAdmin \<Rightarrow> Some [
          (PermVMRead, ScopeAny), (PermVMCreate, ScopeAny), (PermVMUpdate, ScopeAny), (PermVMDelete, ScopeAny),
          (PermVMLifecycle, ScopeAny), (PermVMResize, ScopeAny), (PermVMConsole, ScopeAny),
          (PermVMRevert, ScopeAny), (PermVMMigrate, ScopeAny), (PermVMSSH, ScopeAny),
          (PermVMIngressGrant, ScopeAny), (PermVMConnect, ScopeAny), (PermLoadBalancerRead, ScopeAny),
          (PermLoadBalancerCreate, ScopeAny), (PermLoadBalancerUpdate, ScopeAny),
          (PermLoadBalancerDelete, ScopeAny), (PermLoadBalancerConnect, ScopeAny),
          (PermLoadBalancerPublish, ScopeAny), (PermSnapshotRead, ScopeAny), (PermSnapshotCreate, ScopeAny),
          (PermSnapshotDelete, ScopeAny), (PermSnapshotRevert, ScopeAny), (PermNetworkRead, ScopeAny),
          (PermNetworkManage, ScopeAny), (PermStoragePoolRead, ScopeAny), (PermStoragePoolManage, ScopeAny),
          (PermStoragePoolScan, ScopeAny), (PermFirmwareRead, ScopeAny), (PermFirmwareManage, ScopeAny),
          (PermNodeRead, ScopeAny), (PermNodeMaintenance, ScopeAny), (PermNodeManage, ScopeAny),
          (PermUserRead, ScopeAny), (PermUserManage, ScopeAny), (PermAPITokenManage, ScopeAny),
          (PermTaskRead, ScopeAny), (PermTaskCancel, ScopeAny), (PermClusterRead, ScopeAny),
          (PermClusterManage, ScopeAny)]
      | RoleOperator \<Rightarrow> Some [
          (PermVMRead, ScopeAny), (PermVMCreate, ScopeAny), (PermVMUpdate, ScopeAny), (PermVMDelete, ScopeAny),
          (PermVMLifecycle, ScopeAny), (PermVMResize, ScopeAny), (PermVMConsole, ScopeAny),
          (PermVMRevert, ScopeAny), (PermVMMigrate, ScopeAny), (PermVMSSH, ScopeAny),
          (PermVMIngressGrant, ScopeAny), (PermVMConnect, ScopeAny), (PermLoadBalancerRead, ScopeAny),
          (PermLoadBalancerCreate, ScopeAny), (PermLoadBalancerUpdate, ScopeAny),
          (PermLoadBalancerDelete, ScopeAny), (PermLoadBalancerConnect, ScopeAny),
          (PermLoadBalancerPublish, ScopeAny), (PermSnapshotRead, ScopeAny), (PermSnapshotCreate, ScopeAny),
          (PermSnapshotDelete, ScopeAny), (PermSnapshotRevert, ScopeAny), (PermNetworkRead, ScopeAny),
          (PermStoragePoolRead, ScopeAny), (PermStoragePoolScan, ScopeAny), (PermFirmwareRead, ScopeAny),
          (PermNodeRead, ScopeAny), (PermNodeMaintenance, ScopeAny), (PermUserRead, ScopeAny),
          (PermAPITokenManage, ScopeOwn), (PermTaskRead, ScopeAny), (PermTaskCancel, ScopeAny),
          (PermClusterRead, ScopeAny)]
      | RoleDeveloper \<Rightarrow> Some [
          (PermVMRead, ScopeAny), (PermVMCreate, ScopeAny), (PermVMUpdate, ScopeOwn), (PermVMDelete, ScopeOwn),
          (PermVMLifecycle, ScopeOwn), (PermVMResize, ScopeOwn), (PermVMConsole, ScopeOwn),
          (PermVMRevert, ScopeOwn), (PermVMSSH, ScopeOwn), (PermVMIngressGrant, ScopeOwn),
          (PermVMConnect, ScopeOwn), (PermLoadBalancerRead, ScopeAny), (PermLoadBalancerCreate, ScopeAny),
          (PermLoadBalancerUpdate, ScopeOwn), (PermLoadBalancerDelete, ScopeOwn),
          (PermLoadBalancerConnect, ScopeOwn), (PermSnapshotRead, ScopeOwn), (PermSnapshotCreate, ScopeOwn),
          (PermSnapshotDelete, ScopeOwn), (PermSnapshotRevert, ScopeOwn), (PermNetworkRead, ScopeAny),
          (PermStoragePoolRead, ScopeAny), (PermFirmwareRead, ScopeAny), (PermNodeRead, ScopeAny),
          (PermAPITokenManage, ScopeOwn), (PermTaskRead, ScopeOwn), (PermTaskCancel, ScopeOwn),
          (PermClusterRead, ScopeAny)]
      | RoleViewer \<Rightarrow> Some [
          (PermVMRead, ScopeAny), (PermLoadBalancerRead, ScopeAny), (PermSnapshotRead, ScopeOwn),
          (PermNetworkRead, ScopeAny), (PermStoragePoolRead, ScopeAny), (PermFirmwareRead, ScopeAny),
          (PermNodeRead, ScopeAny), (PermAPITokenManage, ScopeOwn), (PermTaskRead, ScopeOwn),
          (PermClusterRead, ScopeAny)]
      | RoleOther _ \<Rightarrow> None)"

definition ScopeFor :: "Role \<Rightarrow> Permission \<Rightarrow> Scope" where
  "ScopeFor role perm =
     (case permissionMatrix role of
        None \<Rightarrow> ScopeNone
      | Some perms \<Rightarrow> (case map_of perms perm of None \<Rightarrow> ScopeNone | Some s \<Rightarrow> s))"

definition Has :: "Role \<Rightarrow> Permission \<Rightarrow> bool" where
  "Has role perm \<longleftrightarrow> ScopeFor role perm \<noteq> ScopeNone"

subsection \<open>Principals and ownership\<close>

record Principal =
  pr_ID :: uuid
  pr_Role :: Role

datatype auth_denial = ErrPermissionDenied | OwnerlessResource Permission

text \<open>\<open>None\<close> is the nil error: the action is allowed.\<close>

definition CheckOwnership :: "Principal option \<Rightarrow> uuid option \<Rightarrow> Permission \<Rightarrow> auth_denial option" where
  "CheckOwnership user resourceOwner perm =
     (case user of
        None \<Rightarrow> Some ErrPermissionDenied
      | Some u \<Rightarrow>
          (case ScopeFor (pr_Role u) perm of
             ScopeAny \<Rightarrow> None
           | ScopeOwn \<Rightarrow>
               (case resourceOwner of
                  None \<Rightarrow> Some (OwnerlessResource perm)
                | Some ow \<Rightarrow> if pr_ID u = ow then None else Some ErrPermissionDenied)
           | ScopeNone \<Rightarrow> Some ErrPermissionDenied))"

subsection \<open>The order of the roles\<close>

fun scope_rank :: "Scope \<Rightarrow> nat" where
  "scope_rank ScopeNone = 0"
| "scope_rank ScopeOwn = 1"
| "scope_rank ScopeAny = 2"

fun role_rank :: "Role \<Rightarrow> nat" where
  "role_rank (RoleOther _) = 0"
| "role_rank RoleViewer = 1"
| "role_rank RoleDeveloper = 2"
| "role_rank RoleOperator = 3"
| "role_rank RoleAdmin = 4"

lemma scope_step:
  "scope_rank (ScopeFor RoleViewer p) \<le> scope_rank (ScopeFor RoleDeveloper p)"
  "scope_rank (ScopeFor RoleDeveloper p) \<le> scope_rank (ScopeFor RoleOperator p)"
  "scope_rank (ScopeFor RoleOperator p) \<le> scope_rank (ScopeFor RoleAdmin p)"
  by (cases p; simp add: ScopeFor_def permissionMatrix_def)+

lemma scope_mono: "role_rank r \<le> role_rank r' \<Longrightarrow> scope_rank (ScopeFor r p) \<le> scope_rank (ScopeFor r' p)"
proof -
  have other: "ScopeFor (RoleOther s) p = ScopeNone" for s by (simp add: ScopeFor_def permissionMatrix_def)
  assume "role_rank r \<le> role_rank r'"
  then show ?thesis using scope_step [of p] by (cases r; cases r') (auto simp: other)
qed

text \<open>
  C20. The permission table, written out role by role, is a chain: whatever a role may do to a
  resource, the next role in the order viewer, developer, operator, admin may do too, and an
  admin may do everything. A role outside the four may do nothing.
\<close>

theorem CheckOwnership_role_chain:
  assumes "role_rank r \<le> role_rank r'" "CheckOwnership (Some \<lparr>pr_ID = i, pr_Role = r\<rparr>) ow p = None"
  shows "CheckOwnership (Some \<lparr>pr_ID = i, pr_Role = r'\<rparr>) ow p = None \<and> Role_Valid r \<and>
    CheckOwnership (Some \<lparr>pr_ID = j, pr_Role = RoleAdmin\<rparr>) ow' p' = None"
proof -
  have "ScopeFor RoleAdmin p' = ScopeAny"
    by (cases p') (simp_all add: ScopeFor_def permissionMatrix_def)
  moreover have "Role_Valid r"
    using assms(2) by (cases r) (simp_all add: Role_Valid_def CheckOwnership_def ScopeFor_def permissionMatrix_def)
  ultimately show ?thesis
    using scope_mono [OF assms(1), of p] assms(2)
    by (auto simp: CheckOwnership_def split: Scope.splits option.splits if_splits)
qed

theorem CheckOwnership_role_chain_witness:
  "CheckOwnership (Some \<lparr>pr_ID = 7, pr_Role = RoleOperator\<rparr>) (Some 7) PermVMDelete = None"
proof -
  have "CheckOwnership (Some \<lparr>pr_ID = 7, pr_Role = RoleDeveloper\<rparr>) (Some 7) PermVMDelete = None"
    by (simp add: CheckOwnership_def ScopeFor_def permissionMatrix_def)
  then show ?thesis using CheckOwnership_role_chain [of RoleDeveloper RoleOperator 7 "Some 7" PermVMDelete] by simp
qed

end
