(* ===== verification/Pagination.thy ===== *)
theory Pagination
  imports Prelude
begin

text \<open>
  Page sizes and cursors of the list endpoints (\<^verbatim>\<open>internal/api/pagination/pagination.go\<close>), with
  what they use of the standard library: \<^verbatim>\<open>strconv.Atoi\<close> and \<^verbatim>\<open>base64.RawURLEncoding\<close>.
\<close>

subsection \<open>Page sizes\<close>

definition Limit :: "int \<Rightarrow> int" where
  "Limit raw = (if raw \<le> 0 then 50 else if raw > 200 then 200 else raw)"

fun atoi_digits :: "string \<Rightarrow> int \<Rightarrow> int option" where
  "atoi_digits [] n = Some n"
| "atoi_digits (c # cs) n =
     (if CHR ''0'' \<le> c \<and> c \<le> CHR ''9'' then atoi_digits cs (10 * n + int (of_char c - 48)) else None)"

text \<open>An optional sign and at least one digit, in the range of a 64-bit integer.\<close>

definition Atoi :: "string \<Rightarrow> int option" where
  "Atoi s =
     (let neg = (s \<noteq> [] \<and> hd s = CHR ''-'');
          ds = (if s \<noteq> [] \<and> (hd s = CHR ''-'' \<or> hd s = CHR ''+'') then tl s else s)
      in if ds = [] then None
         else case atoi_digits ds 0 of
           None \<Rightarrow> None
         | Some n \<Rightarrow> let v = (if neg then - n else n) in if int64_range v then Some v else None)"

definition ParseLimit :: "string \<Rightarrow> int" where
  "ParseLimit raw =
     (if raw = [] then 0
      else case Atoi raw of None \<Rightarrow> 0 | Some n \<Rightarrow> if n < 0 then 0 else n)"

lemma Limit_bounds: "1 \<le> Limit raw \<and> Limit raw \<le> 200"
  by (simp add: Limit_def)

subsection \<open>Base64\<close>

definition b64_alphabet :: string where
  "b64_alphabet = ''ABCDEFGHIJKLMNOPQRSTUVWXYZabcdefghijklmnopqrstuvwxyz0123456789-_''"

definition b64_char :: "nat \<Rightarrow> char" where
  "b64_char v = b64_alphabet ! v"

definition b64_value :: "char \<Rightarrow> nat option" where
  "b64_value c = map_of (zip b64_alphabet [0..<64]) c"

text \<open>Three bytes are four characters of six bits; a rest of one or two bytes is padded with zero bits.\<close>

fun b64_encode :: "byte list \<Rightarrow> string" where
  "b64_encode [] = []"
| "b64_encode [a] =
     (let v = unat a * 2 ^ 16
      in [b64_char (v div 2 ^ 18), b64_char (v div 2 ^ 12 mod 64)])"
| "b64_encode [a, b] =
     (let v = unat a * 2 ^ 16 + unat b * 2 ^ 8
      in [b64_char (v div 2 ^ 18), b64_char (v div 2 ^ 12 mod 64), b64_char (v div 2 ^ 6 mod 64)])"
| "b64_encode (a # b # c # bs) =
     (let v = unat a * 2 ^ 16 + unat b * 2 ^ 8 + unat c
      in [b64_char (v div 2 ^ 18), b64_char (v div 2 ^ 12 mod 64), b64_char (v div 2 ^ 6 mod 64), b64_char (v mod 64)]
         @ b64_encode bs)"

text \<open>A single character at the end is an error; unused bits at the end are ignored.\<close>

fun b64_groups :: "nat list \<Rightarrow> byte list option" where
  "b64_groups [] = Some []"
| "b64_groups [p] = None"
| "b64_groups [p, q] =
     (let v = p * 2 ^ 18 + q * 2 ^ 12 in Some [word_of_nat (v div 2 ^ 16)])"
| "b64_groups [p, q, r] =
     (let v = p * 2 ^ 18 + q * 2 ^ 12 + r * 2 ^ 6 in Some [word_of_nat (v div 2 ^ 16), word_of_nat (v div 2 ^ 8)])"
| "b64_groups (p # q # r # t # vs) =
     (let v = p * 2 ^ 18 + q * 2 ^ 12 + r * 2 ^ 6 + t
      in map_option ((@) [word_of_nat (v div 2 ^ 16), word_of_nat (v div 2 ^ 8), word_of_nat v]) (b64_groups vs))"

text \<open>Line breaks are skipped, every other character outside the alphabet is an error.\<close>

definition b64_decode :: "string \<Rightarrow> byte list option" where
  "b64_decode s =
     (case those (map b64_value (filter (\<lambda>c. c \<noteq> CHR 0x0A \<and> c \<noteq> CHR 0x0D) s)) of
        None \<Rightarrow> None
      | Some vs \<Rightarrow> b64_groups vs)"

subsection \<open>Cursors\<close>

record Cursor =
  cu_CreatedAt :: gotime
  cu_ID :: uuid

datatype cursor_err = BadBase64 | UnexpectedLength nat | MissingID

definition cursorPayloadLen :: nat where
  "cursorPayloadLen = 24"

text \<open>\<^verbatim>\<open>UnixNano\<close> is the 64-bit number of nanoseconds, stored as an unsigned number.\<close>

definition Encode :: "Cursor option \<Rightarrow> string" where
  "Encode c =
     (case c of
        None \<Rightarrow> []
      | Some c \<Rightarrow> b64_encode (be_bytes 8 (nat (wrap64 (cu_CreatedAt c) mod 2 ^ 64)) @ be_bytes 16 (cu_ID c)))"

definition Decode :: "string \<Rightarrow> cursor_err + Cursor option" where
  "Decode s =
     (if s = [] then Inr None
      else case b64_decode s of
        None \<Rightarrow> Inl BadBase64
      | Some raw \<Rightarrow>
          if length raw \<noteq> cursorPayloadLen then Inl (UnexpectedLength (length raw))
          else
            let nanos = wrap64 (int (be_value (take 8 raw)));
                i = be_value (drop 8 raw)
            in if i = 0 then Inl MissingID else Inr (Some \<lparr>cu_CreatedAt = nanos, cu_ID = i\<rparr>))"

subsection \<open>The round trip\<close>

lemma b64_alphabet_props: "length b64_alphabet = 64" "distinct b64_alphabet"
    "CHR 0x0A \<notin> set b64_alphabet" "CHR 0x0D \<notin> set b64_alphabet"
  by code_simp+

lemma b64_char_ok:
  assumes "v < 64"
  shows "b64_value (b64_char v) = Some v" "b64_char v \<noteq> CHR 0x0A" "b64_char v \<noteq> CHR 0x0D"
proof -
  show "b64_value (b64_char v) = Some v"
    unfolding b64_value_def b64_char_def using assms b64_alphabet_props(1,2)
    by (subst map_of_zip_nth) simp_all
  have "b64_char v \<in> set b64_alphabet" using assms b64_alphabet_props(1) by (simp add: b64_char_def)
  with b64_alphabet_props(3,4) show "b64_char v \<noteq> CHR 0x0A" "b64_char v \<noteq> CHR 0x0D" by metis+
qed

text \<open>The six-bit values of an encoding.\<close>

fun b64_values :: "byte list \<Rightarrow> nat list" where
  "b64_values [] = []"
| "b64_values [a] = (let v = unat a * 2 ^ 16 in [v div 2 ^ 18, v div 2 ^ 12 mod 64])"
| "b64_values [a, b] =
     (let v = unat a * 2 ^ 16 + unat b * 2 ^ 8 in [v div 2 ^ 18, v div 2 ^ 12 mod 64, v div 2 ^ 6 mod 64])"
| "b64_values (a # b # c # bs) =
     (let v = unat a * 2 ^ 16 + unat b * 2 ^ 8 + unat c
      in [v div 2 ^ 18, v div 2 ^ 12 mod 64, v div 2 ^ 6 mod 64, v mod 64] @ b64_values bs)"

lemma byte_bound: "unat (a :: byte) < 256"
  using unsigned_less [of a] by simp

lemma group_bound:
  assumes "a < 256" "b < 256" "c < 256"
  shows "\<forall>x\<in>set [(a * 2 ^ 16 + b * 2 ^ 8 + c) div 2 ^ 18, y mod 64, z mod 64, w mod 64]. x < (64 :: nat)"
proof -
  have "(a * 2 ^ 16 + b * 2 ^ 8 + c) div 2 ^ 18 < 64"
    using assms by (intro less_mult_imp_div_less) simp
  then show ?thesis by simp
qed

lemma b64_values_range: "\<forall>v\<in>set (b64_values bs). v < 64"
proof (induction bs rule: b64_values.induct)
  case (2 a)
  show ?case using group_bound [OF byte_bound [of a], of 0 0]
    by (simp only: b64_values.simps Let_def list.set ball_simps mult_0 add_0_right)
next
  case (3 a b)
  show ?case using group_bound [OF byte_bound [of a] byte_bound [of b], of 0]
    by (simp only: b64_values.simps Let_def list.set ball_simps add_0_right)
next
  case (4 a b c bs)
  show ?case
    unfolding b64_values.simps Let_def set_append ball_Un
    using 4 [OF refl] group_bound [OF byte_bound [of a] byte_bound [of b] byte_bound [of c]] by blast
qed simp

lemma b64_encode_values: "b64_encode bs = map b64_char (b64_values bs)"
  by (induction bs rule: b64_values.induct) (simp_all add: Let_def)

text \<open>Four groups of six bits are three bytes.\<close>

lemma regroup:
  fixes v :: nat
  shows "v div 2 ^ 18 * 2 ^ 18 + v div 2 ^ 12 mod 64 * 2 ^ 12 + v div 2 ^ 6 mod 64 * 2 ^ 6 + v mod 64 = v"
proof -
  define p q r where "p = v div 2 ^ 6" and "q = v div 2 ^ 12" and "r = v div 2 ^ 18"
  have "p = v div 64" "q = p div 64" "r = q div 64"
    by (simp_all add: p_def q_def r_def div_mult2_eq [symmetric])
  then obtain a b c where "v mod 64 = a" "p mod 64 = b" "q mod 64 = c" "v = p * 64 + a" "p = q * 64 + b" "q = r * 64 + c"
    by (metis div_mult_mod_eq)
  then show ?thesis unfolding p_def [symmetric] q_def [symmetric] r_def [symmetric] by simp
qed

lemma ungroup:
  assumes "v = unat a * 2 ^ 16 + unat b * 2 ^ 8 + unat c"
  shows "word_of_nat (v div 2 ^ 16) = (a :: byte)" "word_of_nat (v div 2 ^ 8) = (b :: byte)" "word_of_nat v = (c :: byte)"
proof -
  have low: "word_of_nat (n * 256 + unat x) = x" for n and x :: byte
  proof (rule word_unat_eq_iff [THEN iffD2])
    have "(n * 256 + unat x) mod 2 ^ 8 = unat x" using byte_bound [of x] by simp
    then show "unat (word_of_nat (n * 256 + unat x) :: byte) = unat x" by (subst unat_of_nat) simp
  qed
  have c: "v = (unat a * 256 + unat b) * 256 + unat c" using assms by simp
  then have b: "v div 2 ^ 8 = unat a * 256 + unat b" using byte_bound [of c] by simp
  then have "v div 2 ^ 8 div 256 = unat a" using byte_bound [of b] by simp
  then have a: "v div 2 ^ 16 = unat a" by (simp add: div_mult2_eq [symmetric])
  show "word_of_nat (v div 2 ^ 16) = a" unfolding a by simp
  show "word_of_nat (v div 2 ^ 8) = b" unfolding b by (rule low)
  show "word_of_nat v = c" unfolding c by (rule low)
qed

lemma b64_groups_values: "b64_groups (b64_values bs) = Some bs"
proof (induction bs rule: b64_values.induct)
  case (2 a)
  define v where "v = unat a * 2 ^ 16"
  have v: "v = unat a * 2 ^ 16 + unat (0 :: byte) * 2 ^ 8 + unat (0 :: byte)" by (simp add: v_def)
  have "v div 2 ^ 6 mod 64 = 0" "v mod 64 = 0" by (simp_all add: v_def)
  then have "v div 2 ^ 18 * 2 ^ 18 + v div 2 ^ 12 mod 64 * 2 ^ 12 = v" using regroup [of v] by (simp only: mult_0 add_0_right)
  then show ?case using ungroup(1) [OF v] by (simp only: b64_values.simps b64_groups.simps Let_def v_def [symmetric])
next
  case (3 a b)
  define v where "v = unat a * 2 ^ 16 + unat b * 2 ^ 8"
  have v: "v = unat a * 2 ^ 16 + unat b * 2 ^ 8 + unat (0 :: byte)" by (simp add: v_def)
  have "v = (unat a * 1024 + unat b * 4) * 64" by (simp add: v_def)
  then have "v mod 64 = 0" by simp
  then have "v div 2 ^ 18 * 2 ^ 18 + v div 2 ^ 12 mod 64 * 2 ^ 12 + v div 2 ^ 6 mod 64 * 2 ^ 6 = v"
    using regroup [of v] by (simp only: add_0_right)
  then show ?case using ungroup(1,2) [OF v] by (simp only: b64_values.simps b64_groups.simps Let_def v_def [symmetric])
next
  case (4 a b c bs)
  define v where "v = unat a * 2 ^ 16 + unat b * 2 ^ 8 + unat c"
  show ?case
    using 4 [OF refl] regroup [of v] ungroup [OF v_def]
    by (simp only: b64_values.simps b64_groups.simps Let_def v_def [symmetric] append.simps option.map)
qed simp

lemma b64_round_trip: "b64_decode (b64_encode bs) = Some bs"
proof -
  have "filter (\<lambda>c. c \<noteq> CHR 0x0A \<and> c \<noteq> CHR 0x0D) (b64_encode bs) = b64_encode bs"
    using b64_values_range b64_char_ok by (auto simp: b64_encode_values filter_id_conv)
  moreover have "those (map b64_value (map b64_char vs)) = Some vs" if "\<forall>v\<in>set vs. v < 64" for vs
    using that by (induction vs) (simp_all add: b64_char_ok)
  ultimately show ?thesis
    using b64_values_range [of bs] by (simp add: b64_decode_def b64_encode_values b64_groups_values)
qed

lemma unix_nano_round_trip: "int64_range t \<Longrightarrow> wrap64 (int (nat (t mod 2 ^ 64))) = t"
proof -
  assume "int64_range t"
  have "int (nat (t mod 2 ^ 64)) = t mod 2 ^ 64" by simp
  moreover have "wrap64 (t mod 2 ^ 64) = wrap64 t" unfolding wrap64_def by (simp only: mod_add_left_eq)
  ultimately show ?thesis using \<open>int64_range t\<close> by (simp only: wrap64_id)
qed

lemma Decode_Encode_cursor:
  assumes "int64_range (cu_CreatedAt c)" "0 < cu_ID c" "cu_ID c < 2 ^ 128"
  shows "Decode (Encode (Some c)) = Inr (Some c)"
proof -
  define t where "t = nat (cu_CreatedAt c mod 2 ^ 64)"
  define raw where "raw = be_bytes 8 t @ be_bytes 16 (cu_ID c)"
  have token: "Encode (Some c) = b64_encode raw" by (simp add: Encode_def raw_def t_def assms(1))
  have len: "length raw = 24" by (simp add: raw_def)
  have "b64_encode [] \<noteq> b64_encode raw" using b64_round_trip [of raw] b64_round_trip [of "[]"] len by force
  then have "Encode (Some c) \<noteq> []" by (simp add: token)
  moreover have "b64_decode (Encode (Some c)) = Some raw" by (simp add: token b64_round_trip)
  moreover have "be_value (take 8 raw) = t"
  proof -
    have "t < 256 ^ 8" by (simp add: t_def nat_less_iff)
    then show ?thesis by (simp add: raw_def be_value_be_bytes)
  qed
  moreover have "be_value (drop 8 raw) = cu_ID c" using assms(3) by (simp add: raw_def be_value_be_bytes)
  moreover have "wrap64 (int t) = cu_CreatedAt c" unfolding t_def by (rule unix_nano_round_trip [OF assms(1)])
  ultimately show ?thesis using assms(2) len by (simp add: Decode_def cursorPayloadLen_def)
qed

lemma length_b64_values: "length bs mod 3 = 0 \<Longrightarrow> length (b64_values bs) = length bs div 3 * 4"
  by (induction bs rule: b64_values.induct) (simp_all add: Let_def div_add_self1)

lemma length_Encode: "length (Encode (Some c)) = 32"
  unfolding Encode_def option.case b64_encode_values length_map by (subst length_b64_values) simp_all

text \<open>
  C19. A cursor survives the trip to the client and back: a token that \<^verbatim>\<open>Encode\<close> makes of the
  position of a stored row is accepted by \<^verbatim>\<open>Decode\<close>, which returns the same instant and the same
  identifier, and it is 32 characters long.
\<close>

theorem cursor_round_trip:
  assumes "int64_range (cu_CreatedAt c)" "0 < cu_ID c" "cu_ID c < 2 ^ 128"
  shows "Decode (Encode (Some c)) = Inr (Some c) \<and> length (Encode (Some c)) = 32"
  using Decode_Encode_cursor [OF assms] length_Encode by (rule conjI)

theorem cursor_round_trip_witness:
  "Decode (Encode (Some \<lparr>cu_CreatedAt = 1700000000123456789, cu_ID = 2 ^ 127 + 5\<rparr>)) =
     Inr (Some \<lparr>cu_CreatedAt = 1700000000123456789, cu_ID = 2 ^ 127 + 5\<rparr>)"
  using cursor_round_trip [of "\<lparr>cu_CreatedAt = 1700000000123456789, cu_ID = 2 ^ 127 + 5\<rparr>"]
  by (simp add: int64_range_def)

end
