(* ===== verification/TaskApi.thy ===== *)
theory TaskApi
  imports Rbac Pagination JobQueue
begin

text \<open>
  The endpoints under \<^verbatim>\<open>/v1/tasks\<close> (\<^verbatim>\<open>internal/api/handlers/tasks\<close>) behind the permission
  middleware, as programs over the store that end in a response. The query parameters of a
  request are a function from names to lists of values; \<^verbatim>\<open>uuid.Parse\<close> is the parameter
  \<open>uuidParse\<close>.
\<close>

subsection \<open>Responses\<close>

text \<open>Times and identifiers are shown in their canonical text form, which the view keeps as the value.
  The progress column, which no modelled operation writes, is left out.\<close>

record taskView =
  tv_ID :: uuid
  tv_Type :: string
  tv_Status :: string
  tv_ResourceType :: string
  tv_ResourceID :: "uuid option"
  tv_Result :: "string option"
  tv_Error :: "string option"
  tv_Attempts :: int
  tv_MaxAttempts :: int
  tv_CreatedAt :: gotime
  tv_StartedAt :: "gotime option"
  tv_FinishedAt :: "gotime option"

definition jsonOrNull :: "string option \<Rightarrow> string option" where
  "jsonOrNull raw = (case raw of None \<Rightarrow> None | Some s \<Rightarrow> if s = [] then None else Some s)"

definition toView :: "Task \<Rightarrow> taskView" where
  "toView t = \<lparr>tv_ID = tk_ID t, tv_Type = tk_Type t, tv_Status = status_string (tk_Status t),
     tv_ResourceType = tk_ResourceType t, tv_ResourceID = tk_ResourceID t,
     tv_Result = jsonOrNull (tk_Result t), tv_Error = jsonOrNull (tk_Error t), tv_Attempts = tk_Attempts t,
     tv_MaxAttempts = tk_MaxAttempts t, tv_CreatedAt = tk_CreatedAt t, tv_StartedAt = tk_StartedAt t,
     tv_FinishedAt = tk_FinishedAt t\<rparr>"

datatype ErrorCode = CodeUnauthenticated | CodePermissionDenied | CodeValidationFailed | CodeNotFound | CodeConflict | CodeInternal

datatype body =
    ErrorBody ErrorCode string "(string \<times> string) list"
  | TaskBody taskView
  | listResponse "taskView list" "string option"

type_synonym response = "int \<times> body"

definition WriteError :: "int \<Rightarrow> ErrorCode \<Rightarrow> string \<Rightarrow> (string \<times> string) list \<Rightarrow> response" where
  "WriteError status code message details = (status, ErrorBody code message details)"

definition WriteJSON :: "int \<Rightarrow> body \<Rightarrow> response" where
  "WriteJSON status b = (status, b)"

type_synonym handler = "(doc, agent_call, response) prog"

definition missing_principal :: response where
  "missing_principal = WriteError 401 CodeUnauthenticated ''missing principal'' []"

definition RequirePermission :: "Permission \<Rightarrow> string \<Rightarrow> Principal option \<Rightarrow> handler \<Rightarrow> handler" where
  "RequirePermission perm permStr user next =
     (case user of
        None \<Rightarrow> Ret (WriteError 401 CodeUnauthenticated ''authentication required'' [])
      | Some u \<Rightarrow>
          if \<not> Has (pr_Role u) perm
          then Ret (WriteError 403 CodePermissionDenied ''permission denied'' [(''required_permission'', permStr)])
          else next)"

subsection \<open>Listing\<close>

type_synonym query = "string \<Rightarrow> string list"

definition first :: "query \<Rightarrow> string \<Rightarrow> string" where
  "first q k = (case q k of [] \<Rightarrow> [] | v # _ \<Rightarrow> v)"

record listFilters =
  lf_status :: "string option"
  lf_taskType :: "string option"
  lf_resourceType :: "string option"
  lf_resourceID :: "uuid option"

definition ValidateTaskStatus :: "string \<Rightarrow> bool" where
  "ValidateTaskStatus s \<longleftrightarrow>
     s \<in> status_string ` {TaskStatusPending, TaskStatusRunning, TaskStatusSuccess, TaskStatusFailed, TaskStatusCancelled}"

text \<open>The message for an unknown status is shown without the quoted value and the list of statuses.\<close>

definition parseListFilters :: "(string \<Rightarrow> uuid option) \<Rightarrow> query \<Rightarrow> response + listFilters" where
  "parseListFilters uuidParse q =
     (let opt = (\<lambda>k. if first q k \<noteq> [] then Some (first q k) else None)
      in if first q ''status'' \<noteq> [] \<and> \<not> ValidateTaskStatus (first q ''status'')
         then Inl (WriteError 400 CodeValidationFailed ''invalid task status'' [])
         else if first q ''resource_id'' \<noteq> [] \<and> uuidParse (first q ''resource_id'') = None
         then Inl (WriteError 400 CodeValidationFailed ''resource_id must be a uuid'' [])
         else Inr \<lparr>lf_status = opt ''status'', lf_taskType = opt ''type'', lf_resourceType = opt ''resource_type'',
                lf_resourceID = (if first q ''resource_id'' \<noteq> [] then uuidParse (first q ''resource_id'') else None)\<rparr>)"

definition ListTasksAny :: "listFilters \<Rightarrow> Cursor option \<Rightarrow> int \<Rightarrow> Task list store_op" where
  "ListTasksAny f cur limitCount = listTasks
     \<lparr>fl_createdBy = None, fl_statusFilter = lf_status f, fl_typeFilter = lf_taskType f,
      fl_resourceTypeFilter = lf_resourceType f, fl_resourceIDFilter = lf_resourceID f,
      fl_cursorCreatedAt = map_option cu_CreatedAt cur, fl_cursorID = map_option cu_ID cur, fl_limitCount = limitCount\<rparr>"

definition ListTasksOwn :: "uuid \<Rightarrow> listFilters \<Rightarrow> Cursor option \<Rightarrow> int \<Rightarrow> Task list store_op" where
  "ListTasksOwn createdBy f cur limitCount = listTasks
     \<lparr>fl_createdBy = Some createdBy, fl_statusFilter = lf_status f, fl_typeFilter = lf_taskType f,
      fl_resourceTypeFilter = lf_resourceType f, fl_resourceIDFilter = lf_resourceID f,
      fl_cursorCreatedAt = map_option cu_CreatedAt cur, fl_cursorID = map_option cu_ID cur, fl_limitCount = limitCount\<rparr>"

definition runList :: "Principal \<Rightarrow> listFilters \<Rightarrow> Cursor option \<Rightarrow> int \<Rightarrow> Task list store_op" where
  "runList caller f cur limit =
     (case ScopeFor (pr_Role caller) PermTaskRead of
        ScopeAny \<Rightarrow> ListTasksAny f cur (wrap32 (limit + 1))
      | ScopeOwn \<Rightarrow> ListTasksOwn (pr_ID caller) f cur (wrap32 (limit + 1))
      | ScopeNone \<Rightarrow> Ret (Inr []))"

text \<open>The end of \<^verbatim>\<open>List\<close>: one row more than the limit means that there is a next page.\<close>

definition page_response :: "int \<Rightarrow> Task list \<Rightarrow> response" where
  "page_response limit rows =
     (let limitN = nat limit
      in if length rows > limitN then
           let last = rows ! (limitN - 1)
           in WriteJSON 200 (listResponse (map toView (take limitN rows))
                (Some (Pagination.Encode (Some \<lparr>cu_CreatedAt = tk_CreatedAt last, cu_ID = tk_ID last\<rparr>))))
         else WriteJSON 200 (listResponse (map toView rows) None))"

definition Tasks_List :: "(string \<Rightarrow> uuid option) \<Rightarrow> query \<Rightarrow> Principal option \<Rightarrow> handler" where
  "Tasks_List uuidParse q user =
     (case user of
        None \<Rightarrow> Ret missing_principal
      | Some caller \<Rightarrow>
          let limit = Limit (ParseLimit (first q ''limit''))
          in case Decode (first q ''cursor'') of
               Inl _ \<Rightarrow> Ret (WriteError 400 CodeValidationFailed ''invalid cursor'' [])
             | Inr cur \<Rightarrow>
                 (case parseListFilters uuidParse q of
                    Inl resp \<Rightarrow> Ret resp
                  | Inr filters \<Rightarrow> bind (runList caller filters cur limit) (\<lambda>r. Ret
                      (case r of
                         Inl _ \<Rightarrow> WriteError 500 CodeInternal ''list tasks'' []
                       | Inr rows \<Rightarrow> page_response limit rows))))"

subsection \<open>Reading one task\<close>

definition writeTaskNotFound :: response where
  "writeTaskNotFound = WriteError 404 CodeNotFound ''task not found'' []"

definition Tasks_Get :: "(string \<Rightarrow> uuid option) \<Rightarrow> string \<Rightarrow> Principal option \<Rightarrow> handler" where
  "Tasks_Get uuidParse idParam user =
     (case user of
        None \<Rightarrow> Ret missing_principal
      | Some caller \<Rightarrow>
          (case uuidParse idParam of
             None \<Rightarrow> Ret (WriteError 400 CodeValidationFailed ''id must be a uuid'' [])
           | Some i \<Rightarrow> bind (TaskByID i) (\<lambda>r. Ret
               (case r of
                  Inl e \<Rightarrow> if e = ErrNotFound then writeTaskNotFound else WriteError 500 CodeInternal ''load task'' []
                | Inr row \<Rightarrow>
                    (case ScopeFor (pr_Role caller) PermTaskRead of
                       ScopeAny \<Rightarrow> WriteJSON 200 (TaskBody (toView row))
                     | ScopeOwn \<Rightarrow>
                         if tk_CreatedBy row = None \<or> tk_CreatedBy row \<noteq> Some (pr_ID caller) then writeTaskNotFound
                         else WriteJSON 200 (TaskBody (toView row))
                     | ScopeNone \<Rightarrow> writeTaskNotFound)))))"

subsection \<open>Cancelling\<close>

definition drainCancelKey :: "uuid \<Rightarrow> key" where
  "drainCancelKey taskID = [Lit ''node_drain_cancel'', UId taskID]"

definition RequestDrainCancel :: "uuid \<Rightarrow> unit store_op" where
  "RequestDrainCancel taskID = Put (drainCancelKey taskID) DMarker"

datatype cancel_err = errCancelNotFound | errCancelNotCancellable | errCancelAlreadyFinalized | CancelStoreError store_err

definition cancelVisible :: "Principal \<Rightarrow> Task \<Rightarrow> bool" where
  "cancelVisible caller row =
     (case ScopeFor (pr_Role caller) PermTaskCancel of
        ScopeAny \<Rightarrow> True
      | ScopeOwn \<Rightarrow> tk_CreatedBy row \<noteq> None \<and> tk_CreatedBy row = Some (pr_ID caller)
      | ScopeNone \<Rightarrow> False)"

definition runCancel :: "Principal \<Rightarrow> uuid \<Rightarrow> (doc, agent_call, cancel_err + Task) prog" where
  "runCancel caller taskID = bind (TaskByID taskID) (\<lambda>r.
     case r of
       Inl e \<Rightarrow> Ret (Inl (if e = ErrNotFound then errCancelNotFound else CancelStoreError e))
     | Inr row \<Rightarrow>
         if \<not> cancelVisible caller row then Ret (Inl errCancelNotFound)
         else (case tk_Status row of
           TaskStatusPending \<Rightarrow> bind (CancelPendingTask taskID (tk_JobID row)) (\<lambda>r. Ret
             (case r of
                Inl e \<Rightarrow> Inl (if e = ErrTaskNotCancellable then errCancelNotCancellable else CancelStoreError e)
              | Inr cancelled \<Rightarrow> Inr cancelled))
         | TaskStatusRunning \<Rightarrow>
             if tk_Type row = ''node.drain'' then
               bind (RequestDrainCancel taskID) (\<lambda>r. Ret
                 (case r of Inl e \<Rightarrow> Inl (CancelStoreError e) | Inr _ \<Rightarrow> Inr row))
             else Ret (Inl errCancelNotCancellable)
         | _ \<Rightarrow> Ret (Inl errCancelAlreadyFinalized)))"

definition writeCancelResponse :: "cancel_err + Task \<Rightarrow> response" where
  "writeCancelResponse res =
     (case res of
        Inr cancelled \<Rightarrow> WriteJSON 200 (TaskBody (toView cancelled))
      | Inl errCancelNotFound \<Rightarrow> WriteError 404 CodeNotFound ''task not found'' []
      | Inl errCancelNotCancellable \<Rightarrow> WriteError 409 CodeConflict ''task is not cancellable in its current state''
          [(''code'', ''task_not_cancellable'')]
      | Inl errCancelAlreadyFinalized \<Rightarrow> WriteError 409 CodeConflict ''task has already finalized''
          [(''code'', ''task_already_finalized'')]
      | Inl (CancelStoreError _) \<Rightarrow> WriteError 500 CodeInternal ''cancel task'' [])"

definition Tasks_Cancel :: "(string \<Rightarrow> uuid option) \<Rightarrow> string \<Rightarrow> Principal option \<Rightarrow> handler" where
  "Tasks_Cancel uuidParse idParam user =
     (case user of
        None \<Rightarrow> Ret missing_principal
      | Some caller \<Rightarrow>
          (case uuidParse idParam of
             None \<Rightarrow> Ret (WriteError 400 CodeValidationFailed ''id must be a uuid'' [])
           | Some taskID \<Rightarrow> bind (runCancel caller taskID) (\<lambda>res. Ret (writeCancelResponse res))))"

subsection \<open>Routes\<close>

datatype task_request = ListRequest query | GetRequest string | CancelRequest string

definition tasks_route :: "(string \<Rightarrow> uuid option) \<Rightarrow> Principal option \<Rightarrow> task_request \<Rightarrow> handler" where
  "tasks_route uuidParse user req =
     (case req of
        ListRequest q \<Rightarrow> RequirePermission PermTaskRead ''task:read'' user (Tasks_List uuidParse q user)
      | GetRequest i \<Rightarrow> RequirePermission PermTaskRead ''task:read'' user (Tasks_Get uuidParse i user)
      | CancelRequest i \<Rightarrow> RequirePermission PermTaskCancel ''task:cancel'' user (Tasks_Cancel uuidParse i user))"

end
