(* ===== verification/TaskApiProps.thy ===== *)
theory TaskApiProps
  imports TaskApi Solo TaskProps
begin

text \<open>
  What a client of the task endpoints sees: a listing that is complete over all its pages, and
  for a caller that may only see own tasks, nothing about the tasks of others.
\<close>

subsection \<open>Nothing about the tasks of others\<close>

text \<open>The store without the tasks that others created.\<close>

definition foreign :: "uuid \<Rightarrow> key \<Rightarrow> doc \<Rightarrow> bool" where
  "foreign u k d \<longleftrightarrow> strict_prefix taskPrefix k \<and> (case d of DTask t \<Rightarrow> tk_CreatedBy t \<noteq> Some u | _ \<Rightarrow> False)"

definition hide :: "uuid \<Rightarrow> doc kv \<Rightarrow> doc kv" where
  "hide u s = s\<lparr>kv_rows := filter (\<lambda>(k, r). \<not> foreign u k (row_value r)) (kv_rows s)\<rparr>"

lemma hide_wf: "kv_wf s \<Longrightarrow> kv_wf (hide u s)"
  by (auto simp: kv_wf_def hide_def sorted_wrt_map intro: sorted_wrt_filter)

lemma hide_get:
  assumes "kv_wf s"
  shows "kv_get (hide u s) k = (case kv_get s k of None \<Rightarrow> None | Some r \<Rightarrow> if foreign u k (row_value r) then None else Some r)"
proof -
  have "distinct (map fst rs) \<Longrightarrow> map_of (filter (\<lambda>(k, r). P k r) rs) k =
      (case map_of rs k of None \<Rightarrow> None | Some r \<Rightarrow> if P k r then Some r else None)" for P and rs :: "(key \<times> doc row) list"
    by (induction rs) (auto split: option.splits intro: rev_image_eqI)
  moreover have "distinct (map fst (kv_rows s))" using assms unfolding kv_wf_def by (metis strict_sorted_iff)
  ultimately show ?thesis by (auto simp: kv_get_def hide_def split: option.split)
qed

lemma foreign_dec: "foreign u k d \<longleftrightarrow> strict_prefix taskPrefix k \<and> (\<exists>t. dec_task d = Some t \<and> tk_CreatedBy t \<noteq> Some u)"
  by (cases d) (simp_all add: foreign_def)

lemma foreign_task: "foreign u (taskKey i) d \<longleftrightarrow> (\<exists>t. d = DTask t \<and> tk_CreatedBy t \<noteq> Some u)"
  by (cases d) (auto simp: foreign_def taskKey_def taskPrefix_def strict_prefix_def)

lemma foreign_other: "\<not> strict_prefix taskPrefix k \<Longrightarrow> \<not> foreign u k d"
  by (simp add: foreign_def)

lemma hide_rows_under: "rows_under p (hide u s) = filter (\<lambda>(k, d). \<not> foreign u k d) (rows_under p s)"
proof -
  have "map (\<lambda>(k, r). (k, row_value r)) (filter (\<lambda>(k, _). strict_prefix p k) (filter (\<lambda>(k, r). \<not> foreign u k (row_value r)) rs)) =
      filter (\<lambda>(k, d). \<not> foreign u k d) (map (\<lambda>(k, r). (k, row_value r)) (filter (\<lambda>(k, _). strict_prefix p k) rs))"
    for rs :: "(key \<times> doc row) list"
    by (induction rs) auto
  then show ?thesis by (simp add: rows_under_def hide_def)
qed

text \<open>Reads of rows that both stores have.\<close>

lemma cancel_same:
  assumes "kv_wf s" "kv_wf s2" "kv_get s2 (taskKey i) = kv_get s (taskKey i)" "\<And>j. kv_get s2 (jobKey j) = kv_get s (jobKey j)"
  shows "respond (CancelPendingTask i j) n s2 = respond (CancelPendingTask i j) n s"
  using assms
  by (simp add: respond_def CancelPendingTask_def solo_rules solo_TaskByID row_doc_def jobWithRev_def solo_GetRev row_of_def Put_def split: option.splits sum.splits if_splits)

lemma listTasks_own_same:
  assumes "fl_createdBy f = Some u"
  shows "respond (listTasks f) n (hide u s) = respond (listTasks f) n s"
proof -
  have "filter (\<lambda>t. taskMatches t f) (map snd (decodeOrQuarantine dec_task (filter (\<lambda>(k, d). \<not> foreign u k d) items))) =
      filter (\<lambda>t. taskMatches t f) (map snd (decodeOrQuarantine dec_task items))"
    if "\<forall>(k, d)\<in>set items. strict_prefix taskPrefix k" for items
    using that
  proof (induction items)
    case (Cons x items)
    obtain k d where "x = (k, d)" by (cases x)
    moreover have "\<not> taskMatches t f" if "tk_CreatedBy t \<noteq> Some u" for t using that assms by (simp add: taskMatches_def)
    ultimately show ?case
      using Cons by (cases "dec_task d") (simp_all add: decodeOrQuarantine_def map_filter_simps foreign_dec)
  qed simp
  moreover have "\<forall>(k, d)\<in>set (rows_under taskPrefix s). strict_prefix taskPrefix k" by (auto simp: rows_under_def)
  ultimately have "select_tasks f (map snd (decodeOrQuarantine dec_task (rows_under taskPrefix (hide u s)))) =
      select_tasks f (map snd (decodeOrQuarantine dec_task (rows_under taskPrefix s)))"
    by (simp add: hide_rows_under select_tasks_def)
  then show ?thesis by (simp add: respond_def listTasks_def solo_rules solo_RangeKV)
qed

lemma list_same:
  assumes "ScopeFor (pr_Role u) PermTaskRead \<noteq> ScopeAny"
  shows "respond (Tasks_List up q (Some u)) n (hide (pr_ID u) s) = respond (Tasks_List up q (Some u)) n s"
proof -
  have "respond (runList u f cur limit) n (hide (pr_ID u) s) = respond (runList u f cur limit) n s" for f cur limit
    using assms by (auto simp: runList_def ListTasksOwn_def listTasks_own_same split: Scope.split)
  then show ?thesis by (simp add: Tasks_List_def Let_def respond_bind_Ret split: sum.split)
qed

lemma task_hidden:
  assumes "kv_wf s"
  shows "row_doc (hide u s) (taskKey i) =
    (case row_doc s (taskKey i) of
       Some (DTask t) \<Rightarrow> if tk_CreatedBy t \<noteq> Some u then None else Some (DTask t)
     | d \<Rightarrow> d)"
  by (auto simp: row_doc_def hide_get [OF assms] foreign_task split: option.split doc.split)

lemma get_same:
  assumes "kv_wf s" "ScopeFor (pr_Role u) PermTaskRead \<noteq> ScopeAny"
  shows "respond (Tasks_Get up i (Some u)) n (hide (pr_ID u) s) = respond (Tasks_Get up i (Some u)) n s"
  using assms(2)
  by (auto simp: respond_def Tasks_Get_def solo_rules solo_TaskByID assms(1) hide_wf task_hidden
      split: option.splits Scope.splits doc.splits if_splits)

lemma visible_own: "ScopeFor (pr_Role u) PermTaskCancel \<noteq> ScopeAny \<Longrightarrow> cancelVisible u t \<Longrightarrow> tk_CreatedBy t = Some (pr_ID u)"
  by (auto simp: cancelVisible_def split: Scope.splits)

lemma respond_Put: "respond (Put k d) n s = Inr ()"
  by (simp add: respond_def Put_def solo_rules)

lemma job_not_task: "\<not> strict_prefix taskPrefix (jobKey j)"
  by (simp add: jobKey_def taskPrefix_def strict_prefix_def)

lemma dec_task_None: "\<forall>t. d \<noteq> DTask t \<Longrightarrow> dec_task d = None"
  by (cases d) auto

lemma run_cancel_same:
  assumes "kv_wf s" "ScopeFor (pr_Role u) PermTaskCancel \<noteq> ScopeAny"
  shows "respond (runCancel u k) n (hide (pr_ID u) s) = respond (runCancel u k) n s"
proof -
  let ?h = "hide (pr_ID u) s"
  note read = respond_bind_read [OF solo_TaskByID [OF assms(1)]] respond_bind_read [OF solo_TaskByID [OF hide_wf [OF assms(1)]]]
  show ?thesis
  proof (cases "\<exists>t. row_doc s (taskKey k) = Some (DTask t)")
    case False
    then have "row_doc ?h (taskKey k) = row_doc s (taskKey k)"
      by (auto simp: task_hidden [OF assms(1)] split: option.split doc.split)
    with False show ?thesis
      by (cases "row_doc s (taskKey k)") (auto simp: runCancel_def read dec_task_None)
  next
    case True
    then obtain t where t: "row_doc s (taskKey k) = Some (DTask t)" by blast
    show ?thesis
    proof (cases "tk_CreatedBy t = Some (pr_ID u)")
      case False
      then have "\<not> cancelVisible u t" "row_doc ?h (taskKey k) = None"
        using visible_own [OF assms(2)] t by (auto simp: task_hidden [OF assms(1)])
      with t show ?thesis by (simp add: runCancel_def read)
    next
      case own: True
      then have "kv_get ?h (taskKey k) = kv_get s (taskKey k)"
        using t by (auto simp: hide_get [OF assms(1)] foreign_task row_doc_def)
      moreover have "kv_get ?h (jobKey j) = kv_get s (jobKey j)" for j
        by (simp add: hide_get [OF assms(1)] foreign_other [OF job_not_task] split: option.split)
      ultimately have "respond (CancelPendingTask k j) n ?h = respond (CancelPendingTask k j) n s" for j
        by (intro cancel_same [OF assms(1) hide_wf [OF assms(1)]])
      moreover have "row_doc ?h (taskKey k) = Some (DTask t)" using t own by (simp add: task_hidden [OF assms(1)])
      ultimately show ?thesis
        using t by (simp add: runCancel_def read respond_bind_Ret RequestDrainCancel_def respond_Put split: TaskStatus.split)
    qed
  qed
qed

text \<open>
  C9. A caller whose role sees only own tasks learns nothing about the tasks of others: the
  response of each task endpoint to an undisturbed request, whatever the request, is the one it
  would give if the tasks of others did not exist.
\<close>

theorem own_scope_no_leak:
  assumes "kv_wf s" "ScopeFor (pr_Role u) PermTaskRead \<noteq> ScopeAny" "ScopeFor (pr_Role u) PermTaskCancel \<noteq> ScopeAny"
  shows "respond (tasks_route up (Some u) req) n s = respond (tasks_route up (Some u) req) n (hide (pr_ID u) s)"
proof -
  have "respond (Tasks_Cancel up i (Some u)) n (hide (pr_ID u) s) = respond (Tasks_Cancel up i (Some u)) n s" for i
    by (simp add: Tasks_Cancel_def respond_bind_Ret run_cancel_same [OF assms(1,3)] split: option.split)
  then show ?thesis
    using list_same [OF assms(2)] get_same [OF assms(1,2)]
    by (simp add: tasks_route_def RequirePermission_def split: task_request.split)
qed

text \<open>Two tasks of different users; a developer asks for the one of the other user.\<close>

definition twoTasks :: "doc kv" where
  "twoTasks = \<lparr>kv_rows = [
     (taskKey 21, Row (DTask (sampleTask 21 5)) 1 1),
     (taskKey 22, Row (DTask ((sampleTask 22 7)\<lparr>tk_CreatedBy := Some 3\<rparr>)) 1 1)], kv_rev = 1\<rparr>"

definition sampleDeveloper :: Principal where
  "sampleDeveloper = \<lparr>pr_ID = 2, pr_Role = RoleDeveloper\<rparr>"

lemma developer_scopes:
  "pr_ID sampleDeveloper = 2"
  "ScopeFor (pr_Role sampleDeveloper) PermTaskRead = ScopeOwn" "ScopeFor (pr_Role sampleDeveloper) PermTaskCancel = ScopeOwn"
  by (simp_all add: sampleDeveloper_def ScopeFor_def permissionMatrix_def)

theorem own_scope_no_leak_witness:
  "respond (tasks_route (\<lambda>_. Some 22) (Some sampleDeveloper) (GetRequest ''t'')) 0 twoTasks = writeTaskNotFound"
proof -
  have wf: "kv_wf twoTasks" by (simp add: kv_wf_def twoTasks_def key_eval)
  have none: "row_doc (hide 2 twoTasks) (taskKey 22) = None"
    unfolding task_hidden [OF wf] by (simp add: row_doc_def kv_get_def twoTasks_def key_eval)
  have "respond (tasks_route (\<lambda>_. Some 22) (Some sampleDeveloper) (GetRequest ''t'')) 0 twoTasks =
      respond (tasks_route (\<lambda>_. Some 22) (Some sampleDeveloper) (GetRequest ''t'')) 0 (hide (pr_ID sampleDeveloper) twoTasks)"
    by (rule own_scope_no_leak) (simp_all add: wf developer_scopes)
  also have "\<dots> = writeTaskNotFound"
    using none
    by (simp add: tasks_route_def RequirePermission_def Has_def developer_scopes Tasks_Get_def
        respond_bind_read [OF solo_TaskByID [OF hide_wf [OF wf]]])
  finally show ?thesis .
qed

subsection \<open>A listing over all its pages\<close>

text \<open>A client that follows the cursor of each page, for at most the given number of pages.\<close>

fun crawl :: "(string \<Rightarrow> uuid option) \<Rightarrow> Principal \<Rightarrow> query \<Rightarrow> doc kv \<Rightarrow> nat \<Rightarrow> string \<Rightarrow> taskView list option" where
  "crawl up u q s 0 token = None"
| "crawl up u q s (Suc n) token =
     (case respond (tasks_route up (Some u) (ListRequest (q(''cursor'' := [token])))) 0 s of
        (status, listResponse views (Some token')) \<Rightarrow>
          if status = 200 then map_option ((@) views) (crawl up u q s n token') else None
      | (status, listResponse views None) \<Rightarrow> if status = 200 then Some views else None
      | _ \<Rightarrow> None)"

text \<open>The tasks a caller may see, the filters of a request, and the rows of the task table.\<close>

definition may_see :: "Principal \<Rightarrow> Task \<Rightarrow> bool" where
  "may_see u t \<longleftrightarrow> ScopeFor (pr_Role u) PermTaskRead = ScopeAny \<or> tk_CreatedBy t = Some (pr_ID u)"

definition asked_for :: "listFilters \<Rightarrow> Task \<Rightarrow> bool" where
  "asked_for f t \<longleftrightarrow> (\<forall>x. lf_status f = Some x \<longrightarrow> status_string (tk_Status t) = x) \<and>
     (\<forall>x. lf_taskType f = Some x \<longrightarrow> tk_Type t = x) \<and> (\<forall>x. lf_resourceType f = Some x \<longrightarrow> tk_ResourceType t = x) \<and>
     (\<forall>x. lf_resourceID f = Some x \<longrightarrow> tk_ResourceID t = Some x)"

definition tasks_ok :: "doc kv \<Rightarrow> bool" where
  "tasks_ok s \<longleftrightarrow> kv_wf s \<and> (\<forall>k t. strict_prefix taskPrefix k \<longrightarrow> row_doc s k = Some (DTask t) \<longrightarrow>
     k = taskKey (tk_ID t) \<and> 0 < tk_ID t \<and> tk_ID t < 2 ^ 128 \<and> int64_range (tk_CreatedAt t))"

definition stored_tasks :: "doc kv \<Rightarrow> Task list" where
  "stored_tasks s = map snd (decodeOrQuarantine dec_task (rows_under taskPrefix s))"

definition base_filter :: "Principal \<Rightarrow> listFilters \<Rightarrow> taskFilter" where
  "base_filter u f =
     \<lparr>fl_createdBy = (if ScopeFor (pr_Role u) PermTaskRead = ScopeAny then None else Some (pr_ID u)),
      fl_statusFilter = lf_status f, fl_typeFilter = lf_taskType f,
      fl_resourceTypeFilter = lf_resourceType f, fl_resourceIDFilter = lf_resourceID f,
      fl_cursorCreatedAt = None, fl_cursorID = None, fl_limitCount = 0\<rparr>"

lemma set_decoded:
  "t \<in> set (map snd (decodeOrQuarantine dec items)) \<longleftrightarrow> (\<exists>k d. (k, d) \<in> set items \<and> dec d = Some t)"
proof (induction items)
  case (Cons x items)
  obtain k d where "x = (k, d)" by (cases x)
  with Cons show ?case by (cases "dec d") (auto simp: decodeOrQuarantine_def map_filter_simps)
qed (simp add: decodeOrQuarantine_def map_filter_simps)

lemma dec_task_Some: "dec_task d = Some t \<longleftrightarrow> d = DTask t"
  by (cases d) auto

lemma set_stored_tasks:
  assumes "kv_wf s"
  shows "t \<in> set (stored_tasks s) \<longleftrightarrow> (\<exists>k. strict_prefix taskPrefix k \<and> row_doc s k = Some (DTask t))"
  unfolding stored_tasks_def set_decoded set_rows_under [OF assms] dec_task_Some by blast

lemma distinct_decoded_ids:
  assumes "distinct (map fst items)" "\<forall>k t. (k, DTask t) \<in> set items \<longrightarrow> k = taskKey (tk_ID t)"
  shows "distinct (map tk_ID (map snd (decodeOrQuarantine dec_task items)))"
  using assms
proof (induction items)
  case (Cons x items)
  obtain k d where x: "x = (k, d)" by (cases x)
  have IH: "distinct (map tk_ID (map snd (decodeOrQuarantine dec_task items)))"
    by (rule Cons.IH, use Cons.prems(1) in simp, intro allI impI Cons.prems(2) [rule_format] list.set_intros(2))
  show ?case
  proof (cases "dec_task d")
    case None
    with IH x show ?thesis by (simp add: decodeOrQuarantine_def map_filter_simps)
  next
    case (Some t)
    then have "(k, DTask t) \<in> set (x # items)" by (simp add: x dec_task_Some)
    then have k: "k = taskKey (tk_ID t)" by (rule Cons.prems(2) [rule_format])
    have "tk_ID t' \<noteq> tk_ID t" if "t' \<in> set (map snd (decodeOrQuarantine dec_task items))" for t'
    proof -
      from that obtain k' where k': "(k', DTask t') \<in> set items" unfolding set_decoded dec_task_Some by blast
      then have "k' = taskKey (tk_ID t')" by (intro Cons.prems(2) [rule_format] list.set_intros(2))
      moreover have "k' \<in> fst ` set items" using imageI [OF k', of fst] by simp
      moreover have "k \<notin> fst ` set items" using Cons.prems(1) unfolding x by simp
      ultimately show ?thesis unfolding k by (metis (no_types))
    qed
    then have "tk_ID t \<notin> tk_ID ` set (map snd (decodeOrQuarantine dec_task items))" by (metis imageE)
    with IH x Some show ?thesis by (simp add: decodeOrQuarantine_def map_filter_simps image_comp)
  qed
qed (simp add: decodeOrQuarantine_def map_filter_simps)

lemma distinct_stored_tasks:
  assumes "tasks_ok s"
  shows "distinct (map tk_ID (stored_tasks s))"
  unfolding stored_tasks_def
proof (rule distinct_decoded_ids)
  have wf: "kv_wf s" using assms by (simp add: tasks_ok_def)
  then have "distinct (map fst (kv_rows s))" unfolding kv_wf_def by (metis strict_sorted_iff)
  moreover have "map fst (rows_under taskPrefix s) = filter (strict_prefix taskPrefix) (map fst (kv_rows s))"
    by (simp add: rows_under_def filter_map comp_def case_prod_unfold)
  ultimately show "distinct (map fst (rows_under taskPrefix s))" by simp
  show "\<forall>k t. (k, DTask t) \<in> set (rows_under taskPrefix s) \<longrightarrow> k = taskKey (tk_ID t)"
    using assms set_rows_under [OF wf] unfolding tasks_ok_def by blast
qed

lemma runList_rows:
  assumes "Has (pr_Role u) PermTaskRead" "1 \<le> limit" "limit \<le> 200"
  shows "respond (runList u f cur limit) n s = Inr (select_tasks ((base_filter u f)\<lparr>fl_cursorCreatedAt := map_option cu_CreatedAt cur,
      fl_cursorID := map_option cu_ID cur, fl_limitCount := limit + 1\<rparr>) (stored_tasks s))"
proof -
  have "wrap32 (limit + 1) = limit + 1" using assms(2,3) by (simp add: int32_range_def)
  then show ?thesis
    using assms(1)
    by (auto simp: respond_def runList_def ListTasksAny_def ListTasksOwn_def listTasks_def solo_rules solo_RangeKV
        base_filter_def stored_tasks_def Has_def split: Scope.split)
qed

text \<open>The token of the page that starts at position \<open>k\<close> of the full listing.\<close>

definition token_at :: "Task list \<Rightarrow> nat \<Rightarrow> string" where
  "token_at full k = (if k = 0 then []
     else Pagination.Encode (Some \<lparr>cu_CreatedAt = tk_CreatedAt (full ! (k - 1)), cu_ID = tk_ID (full ! (k - 1))\<rparr>))"

lemma first_cursor: "first (q(''cursor'' := [token])) ''cursor'' = token"
    "k \<noteq> ''cursor'' \<Longrightarrow> first (q(''cursor'' := [token])) k = first q k"
  by (simp_all add: first_def)

lemma filters_without_cursor: "parseListFilters up (q(''cursor'' := [token])) = parseListFilters up q"
  by (simp add: parseListFilters_def first_cursor Let_def)

lemma set_listing:
  "set (select_tasks (base_filter u f) ts) = {t \<in> set ts. taskMatches t (base_filter u f)}"
  by (auto simp: select_tasks_def base_filter_def Let_def)

lemma page_at:
  assumes "tasks_ok s" "Has (pr_Role u) PermTaskRead" "parseListFilters up q = Inr f"
    and "limit = Limit (ParseLimit (first q ''limit''))" "full = select_tasks (base_filter u f) (stored_tasks s)" "k \<le> length full"
  shows "respond (tasks_route up (Some u) (ListRequest (q(''cursor'' := [token_at full k])))) 0 s =
    page_response limit (take (nat (limit + 1)) (drop k full))"
proof -
  have limit: "1 \<le> limit" "limit \<le> 200" using Limit_bounds assms(4) by auto
  define cur where "cur = (if k = 0 then None
    else Some \<lparr>cu_CreatedAt = tk_CreatedAt (full ! (k - 1)), cu_ID = tk_ID (full ! (k - 1))\<rparr>)"
  have decode: "Decode (token_at full k) = Inr cur"
  proof (cases "k = 0")
    case False
    then have "full ! (k - 1) \<in> set full" using assms(6) by simp
    then have "full ! (k - 1) \<in> set (stored_tasks s)" unfolding assms(5) set_listing by simp
    then obtain key where "strict_prefix taskPrefix key" "row_doc s key = Some (DTask (full ! (k - 1)))"
      using assms(1) set_stored_tasks unfolding tasks_ok_def by blast
    then have "0 < tk_ID (full ! (k - 1))" "tk_ID (full ! (k - 1)) < 2 ^ 128" "int64_range (tk_CreatedAt (full ! (k - 1)))"
      using assms(1) unfolding tasks_ok_def by blast+
    with False show ?thesis unfolding token_at_def cur_def by (simp add: Decode_Encode_cursor del: numeral_power_eq_of_nat_cancel_iff)
  qed (simp add: token_at_def cur_def Decode_def)
  have rows: "select_tasks ((base_filter u f)\<lparr>fl_cursorCreatedAt := map_option cu_CreatedAt cur,
      fl_cursorID := map_option cu_ID cur, fl_limitCount := limit + 1\<rparr>) (stored_tasks s) = take (nat (limit + 1)) (drop k full)"
  proof (cases "k = 0")
    case True
    then show ?thesis
      using limit by (simp add: cur_def assms(5) select_tasks_def base_filter_def taskMatches_def beforeCursor_def Let_def)
  next
    case False
    then have "k - 1 < length full" "Suc (k - 1) = k" using assms(6) by auto
    then show ?thesis
      using listTasks_pages [OF distinct_stored_tasks [OF assms(1)], of "base_filter u f" full "k - 1" "limit + 1"] limit False
      by (simp add: cur_def base_filter_def assms(5))
  qed
  show ?thesis
    using assms(2,3) decode rows runList_rows [OF assms(2) limit]
    by (simp add: tasks_route_def RequirePermission_def Tasks_List_def Let_def first_cursor filters_without_cursor
        assms(4) [symmetric] respond_bind_Ret)
qed

lemma crawl_from:
  assumes "tasks_ok s" "Has (pr_Role u) PermTaskRead" "parseListFilters up q = Inr f"
    and "full = select_tasks (base_filter u f) (stored_tasks s)" "k \<le> length full" "length full - k \<le> n"
  shows "crawl up u q s (Suc n) (token_at full k) = Some (map toView (drop k full))"
  using assms(5,6)
proof (induction n arbitrary: k rule: less_induct)
  case (less n)
  define limit where "limit = Limit (ParseLimit (first q ''limit''))"
  have limit: "1 \<le> limit" using Limit_bounds limit_def by auto
  note page = page_at [OF assms(1-3) limit_def assms(4) less.prems(1)]
  show ?case
  proof (cases "length (drop k full) \<le> nat limit")
    case True
    with page limit show ?thesis by (simp add: page_response_def WriteJSON_def)
  next
    case False
    define m where "m = nat limit"
    have m: "0 < m" "nat (limit + 1) = Suc m" using limit by (simp_all add: m_def)
    have after: "take (Suc m) (drop k full) ! (m - 1) = full ! (k + m - 1)" using m False by simp
    have "page_response limit (take (Suc m) (drop k full)) =
        (200, listResponse (map toView (take m (drop k full))) (Some (token_at full (k + m))))"
      using False m by (simp add: page_response_def m_def [symmetric] WriteJSON_def after token_at_def Let_def)
    moreover have "crawl up u q s n (token_at full (k + m)) = Some (map toView (drop (k + m) full))"
    proof -
      obtain n' where n': "n = Suc n'" using less.prems(2) False by (cases n) auto
      show ?thesis unfolding n' by (rule less.IH) (use n' False m less.prems in \<open>auto simp: m_def\<close>)
    qed
    ultimately show ?thesis
      using page m(2) by (simp add: map_append [symmetric] add.commute [of k] drop_drop [symmetric] del: map_append drop_drop)
  qed
qed

text \<open>
  C10. Following the cursors lists every task: on a store that does not change, a client that
  starts without a cursor and passes on the cursor of each page reaches a last page, whatever
  the page size and the filters, and has then seen every task that it may see and asked for
  exactly once, newest first.
\<close>

theorem listing_complete:
  assumes "tasks_ok s" "Has (pr_Role u) PermTaskRead" "parseListFilters up q = Inr f"
  shows "\<exists>full. crawl up u q s (Suc (length full)) [] = Some (map toView full) \<and> sorted_wrt task_newer full \<and> distinct full \<and>
    set full = {t. (\<exists>k. strict_prefix taskPrefix k \<and> row_doc s k = Some (DTask t)) \<and> may_see u t \<and> asked_for f t}"
proof (intro exI conjI)
  let ?full = "select_tasks (base_filter u f) (stored_tasks s)"
  show "crawl up u q s (Suc (length ?full)) [] = Some (map toView ?full)"
    using crawl_from [OF assms refl, of 0 "length ?full"] by (simp add: token_at_def)
  have ids: "distinct (map tk_ID (stored_tasks s))" by (rule distinct_stored_tasks [OF assms(1)])
  then have d: "distinct (stored_tasks s)" by (simp add: distinct_map)
  obtain F where F: "set (stored_tasks s) \<subseteq> {t. F (tk_ID t) = t}" by (rule task_rows [OF ids])
  have full: "?full = sort_stable task_newer (filter (\<lambda>t. taskMatches t (base_filter u f)) (stored_tasks s))"
    by (simp add: select_tasks_def base_filter_def)
  show "sorted_wrt task_newer ?full"
    unfolding full
  proof (rule listing.sort_stable_strict)
    show "set (filter (\<lambda>t. taskMatches t (base_filter u f)) (stored_tasks s)) \<subseteq> {t. F (tk_ID t) = t}" using F by auto
  qed (use d in simp)
  show "distinct ?full" unfolding full using d by (simp add: distinct_sort_stable)
  have "taskMatches t (base_filter u f) \<longleftrightarrow> may_see u t \<and> asked_for f t" for t
    by (cases "lf_status f"; cases "lf_taskType f"; cases "lf_resourceType f"; cases "lf_resourceID f")
      (auto simp: taskMatches_def base_filter_def may_see_def asked_for_def beforeCursor_def)
  then show "set ?full = {t. (\<exists>k. strict_prefix taskPrefix k \<and> row_doc s k = Some (DTask t)) \<and> may_see u t \<and> asked_for f t}"
    using assms(1) by (auto simp: set_listing set_stored_tasks tasks_ok_def)
qed

text \<open>A developer with two tasks lists them one by one.\<close>

definition threeTasks :: "doc kv" where
  "threeTasks = \<lparr>kv_rows = [
     (taskKey 21, Row (DTask (sampleTask 21 5)) 1 1),
     (taskKey 22, Row (DTask ((sampleTask 22 6)\<lparr>tk_CreatedBy := Some 3\<rparr>)) 1 1),
     (taskKey 23, Row (DTask (sampleTask 23 7)) 1 1)], kv_rev = 1\<rparr>"

definition oneByOne :: query where
  "oneByOne = (\<lambda>k. if k = ''limit'' then [''1''] else [])"

theorem listing_complete_witness:
  "\<exists>full. crawl (\<lambda>_. None) sampleDeveloper oneByOne threeTasks (Suc (length full)) [] = Some (map toView full) \<and>
     set full = {sampleTask 21 5, sampleTask 23 7}"
proof -
  have id: "tk_ID (sampleTask i t) = i" "tk_CreatedAt (sampleTask i t) = t" "tk_CreatedBy (sampleTask i t) = Some 2" for i t
    by (simp_all add: sampleTask_def taskFromParams_def sampleParams_def)
  have rows: "row_doc threeTasks k = Some (DTask t) \<longleftrightarrow>
      k = taskKey 21 \<and> t = sampleTask 21 5 \<or> k = taskKey 22 \<and> t = (sampleTask 22 6)\<lparr>tk_CreatedBy := Some 3\<rparr> \<or>
      k = taskKey 23 \<and> t = sampleTask 23 7" for k t
    by (auto simp: row_doc_def kv_get_def threeTasks_def key_eval)
  have wf: "kv_wf threeTasks" by (simp add: kv_wf_def threeTasks_def key_eval)
  have ok: "tasks_ok threeTasks" unfolding tasks_ok_def rows using wf by (auto simp: id int64_range_def)
  have f: "parseListFilters (\<lambda>_. None) oneByOne =
      Inr \<lparr>lf_status = None, lf_taskType = None, lf_resourceType = None, lf_resourceID = None\<rparr>"
    by (simp add: parseListFilters_def first_def oneByOne_def)
  have under: "strict_prefix taskPrefix (taskKey i)" for i by (simp add: taskPrefix_def taskKey_def strict_prefix_def)
  have see: "may_see sampleDeveloper t \<longleftrightarrow> tk_CreatedBy t = Some 2" for t by (simp add: may_see_def developer_scopes)
  have "Has (pr_Role sampleDeveloper) PermTaskRead" by (simp add: Has_def developer_scopes)
  then obtain full where full: "crawl (\<lambda>_. None) sampleDeveloper oneByOne threeTasks (Suc (length full)) [] = Some (map toView full)"
    and seen: "set full = {t. (\<exists>k. strict_prefix taskPrefix k \<and> row_doc threeTasks k = Some (DTask t)) \<and> may_see sampleDeveloper t \<and>
      asked_for \<lparr>lf_status = None, lf_taskType = None, lf_resourceType = None, lf_resourceID = None\<rparr> t}"
    using listing_complete [OF ok _ f] by blast
  have "set full = {sampleTask 21 5, sampleTask 23 7}"
    unfolding seen rows see asked_for_def using under by (auto simp: id)
  with full show ?thesis by blast
qed

end
