(* ===== verification/Spec2Isabelle.thy ===== *)
theory Spec2Isabelle
  imports Prelude Float64 Cluster Placement PlacementSample PlacementProps PlacementOptimal
    PlacementBounds PlacementDiagnosis SerialBytes SerialProps SerialMux SerialMuxProps
    Etcd Keyspace JobQueue JobQueueProps TaskProps BlobStore Replication ReplicationProps Solo ReplicationRace
    Rbac Pagination TaskApi TaskApiProps
begin

text \<open>
  Otherix: the control plane and the node agent of a small virtualisation cluster.

  Placement. The scheduler (\<^verbatim>\<open>internal/scheduler/placement.go\<close>) is in theory \<open>Placement\<close>;
  its float64 arithmetic is exact (theory \<open>Float64\<close>).
\<close>

end
